(* ===== verification/Prelude.thy ===== *)
theory Prelude
  imports Main "HOL-Library.Word" "HOL-Library.Sublist"
begin

text \<open>
  Shared vocabulary of the development: the collections of rewrite rules the component
  theories feed, the type of Go results, and the generic facts on lists, options and maps
  that several components use.  Of the program's libraries it has the
  configuration reader's values; nothing in it models a line of the program.
\<close>

named_theorems go_simps \<open>defining equations of the Go standard-library models\<close>
named_theorems handler_simps \<open>case equations of the program's handlers\<close>

subsection \<open>Types shared by the components\<close>

text \<open>
  A Go string is a sequence of bytes and so is a HOL \<open>string\<close> (\<open>char\<close> has 256 elements).
  A Go \<open>time.Time\<close> or \<open>time.Duration\<close> is an integral number of nanoseconds.
  A Go result \<open>(v, err)\<close> is \<open>Inr v\<close> when \<open>err\<close> is nil and \<open>Inl err\<close> otherwise.
\<close>

type_synonym byte = "8 word"
type_synonym time = int
type_synonym ('e, 'a) res = "'e + 'a"

abbreviation millisecond :: time where "millisecond \<equiv> 1000000"
abbreviation second :: time where "second \<equiv> 1000000000"

text \<open>The values a configuration file sets; a key it does not set has the default, or the zero value.\<close>

record settings =
  set_str :: "string \<Rightarrow> string option"
  set_int :: "string \<Rightarrow> int option"
  set_list :: "string \<Rightarrow> string list option"

definition get_or :: "('k \<Rightarrow> 'v option) \<Rightarrow> 'k \<Rightarrow> 'v \<Rightarrow> 'v" where
  "get_or f k d = (case f k of Some x \<Rightarrow> x | None \<Rightarrow> d)"

definition bind_res :: "('e, 'a) res \<Rightarrow> ('a \<Rightarrow> ('e, 'b) res) \<Rightarrow> ('e, 'b) res" where
  "bind_res r f = (case r of Inl e \<Rightarrow> Inl e | Inr v \<Rightarrow> f v)"

lemma bind_res_simps [simp]:
  "bind_res (Inl e) f = Inl e"
  "bind_res (Inr v) f = f v"
  by (simp_all add: bind_res_def)

lemma bind_res_eq_Inr:
  "bind_res r f = Inr w \<longleftrightarrow> (\<exists>v. r = Inr v \<and> f v = Inr w)"
  by (cases r) simp_all

lemma bind_res_eq_Inl:
  "bind_res r f = Inl e \<longleftrightarrow> r = Inl e \<or> (\<exists>v. r = Inr v \<and> f v = Inl e)"
  by (cases r) simp_all

subsection \<open>Lists\<close>

lemma dropWhile_none: "(\<And>x. x \<in> set xs \<Longrightarrow> \<not> P x) \<Longrightarrow> dropWhile P xs = xs"
  by (cases xs) simp_all

lemma dropWhile_idem [simp]: "dropWhile P (dropWhile P xs) = dropWhile P xs"
  by (induction xs) simp_all

text \<open>Stripping a class of characters at both ends, as \<open>strings.Trim\<close> and its kin do.\<close>

definition strip :: "('a \<Rightarrow> bool) \<Rightarrow> 'a list \<Rightarrow> 'a list" where
  "strip P xs = rev (dropWhile P (rev (dropWhile P xs)))"

lemma dropWhile_rev_dropWhile:
  "dropWhile P (rev (dropWhile P (rev (dropWhile P xs)))) = rev (dropWhile P (rev (dropWhile P xs)))"
proof (cases "dropWhile P xs")
  case Nil
  then show ?thesis by (simp only: dropWhile.simps rev.simps)
next
  case (Cons y ys)
  then have "\<not> P y" using hd_dropWhile [of P xs] by simp
  then have "dropWhile P (rev (y # ys)) = dropWhile P (rev ys) @ [y]"
    by (induction ys rule: rev_induct) simp_all
  with Cons \<open>\<not> P y\<close> show ?thesis by simp
qed

lemma strip_idem [simp]: "strip P (strip P xs) = strip P xs"
  by (simp add: strip_def dropWhile_rev_dropWhile)

lemma set_strip_subset: "set (strip P xs) \<subseteq> set xs"
  by (auto simp: strip_def dest!: set_dropWhileD)

lemma strip_Nil [simp]: "strip P [] = []"
  by (simp add: strip_def)

lemma strip_none:
  assumes "\<And>x. x \<in> set xs \<Longrightarrow> \<not> P x"
  shows "strip P xs = xs"
proof -
  have "dropWhile P xs = xs" and "dropWhile P (rev xs) = rev xs"
    using assms by (auto intro: dropWhile_none)
  then show ?thesis by (simp add: strip_def)
qed

lemma strip_eq_Nil: "strip P xs = [] \<longleftrightarrow> (\<forall>x\<in>set xs. P x)"
proof -
  have "strip P xs = [] \<longleftrightarrow> (\<forall>x\<in>set (dropWhile P xs). P x)"
    by (simp add: strip_def)
  also have "\<dots> \<longleftrightarrow> (\<forall>x\<in>set xs. P x)"
    by (induction xs) auto
  finally show ?thesis .
qed

subsection \<open>Overwriting a segment of a list\<close>

text \<open>
  \<open>write_at off bs f\<close> is the content of a file after \<open>bs\<close> is written at offset \<open>off\<close>; a gap
  between the old end and \<open>off\<close> is filled with zero bytes, as POSIX specifies.
\<close>

definition write_at :: "nat \<Rightarrow> byte list \<Rightarrow> byte list \<Rightarrow> byte list" where
  "write_at off bs f =
     take off f @ replicate (off - length f) 0 @ bs @ drop (off + length bs) f"

lemma length_write_at: "length (write_at off bs f) = max (length f) (off + length bs)"
  by (simp add: write_at_def)

lemma write_at_append: "write_at (length f) bs f = f @ bs"
  by (simp add: write_at_def)

lemma write_at_take_drop:
  "length f = n \<Longrightarrow> write_at n bs f = f @ bs"
  by (auto simp: write_at_append)

lemma write_at_same_length:
  "length bs \<ge> length f \<Longrightarrow> write_at 0 bs f = bs"
  by (simp add: write_at_def)

lemma filter_map_same:
  assumes "\<And>x. x \<in> set xs \<Longrightarrow> P (f x) = P x" "\<And>x. x \<in> set xs \<Longrightarrow> P x \<Longrightarrow> f x = x"
  shows "filter P (map f xs) = filter P xs"
  using assms by (induction xs) simp_all

subsection \<open>Runs of a step relation\<close>

text \<open>
  Concurrent parts of the program are step relations with labels.  A run is the sequence of labels from a start state to the state
  it reaches.
\<close>

inductive lts_run :: "'s \<Rightarrow> ('s \<Rightarrow> 'e \<Rightarrow> 's \<Rightarrow> bool) \<Rightarrow> 'e list \<Rightarrow> 's \<Rightarrow> bool" for init step where
  lts_init: "lts_run init step [] init"
| lts_step: "lts_run init step es s \<Longrightarrow> step s e t \<Longrightarrow> lts_run init step (es @ [e]) t"

inductive_cases lts_run_NilE: "lts_run init step [] s"
inductive_cases lts_run_snocE: "lts_run init step (es @ [e]) s"

lemma lts_run_one: "step s e t \<Longrightarrow> lts_run s step [e] t"
  using lts_step [OF lts_init, of step s e t] by simp

lemma lts_run_append: "lts_run s step fs t \<Longrightarrow> lts_run init step es s \<Longrightarrow> lts_run init step (es @ fs) t"
proof (induction rule: lts_run.induct)
  case (lts_step fs t e u)
  then show ?case using lts_run.lts_step [of init step "es @ fs" t e u] by simp
qed simp

lemma lts_run_Cons: "step s e t \<Longrightarrow> lts_run t step es u \<Longrightarrow> lts_run s step (e # es) u"
  using lts_run_append [OF _ lts_run_one, of t step es u s e] by simp

lemma lts_run_split: "lts_run s step (es @ fs) t \<Longrightarrow> \<exists>u. lts_run s step es u \<and> lts_run u step fs t"
proof (induction fs arbitrary: t rule: rev_induct)
  case Nil
  then show ?case by (auto intro: lts_init)
next
  case (snoc e fs)
  then have "lts_run s step ((es @ fs) @ [e]) t" by simp
  then obtain v where "lts_run s step (es @ fs) v" "step v e t" by (rule lts_run_snocE)
  with snoc.IH [of v] show ?case by (blast intro: lts_run.lts_step)
qed

lemma lts_run_mono: "lts_run init step es s \<Longrightarrow> (\<And>s e t. step s e t \<Longrightarrow> step' s e t) \<Longrightarrow> lts_run init step' es s"
  by (induction rule: lts_run.induct) (auto intro: lts_run.intros)

locale lts_invariant =
  fixes init :: 's and step :: "'s \<Rightarrow> 'e \<Rightarrow> 's \<Rightarrow> bool" and inv :: "'s \<Rightarrow> bool"
  assumes inv_init: "inv init" and inv_step: "inv s \<Longrightarrow> step s e t \<Longrightarrow> inv t"
begin

lemma run_inv: "lts_run init step es s \<Longrightarrow> inv s"
  by (induction rule: lts_run.induct) (auto intro: inv_init inv_step)

lemma continued_inv: "lts_run s step es t \<Longrightarrow> inv s \<Longrightarrow> inv t"
  by (induction rule: lts_run.induct) (auto intro: inv_step)

end

end
