(* ===== verification/GoStrings.thy ===== *)
theory GoStrings
  imports Prelude "HOL-Library.Char_ord"
begin

text \<open>
  The parts of Go's \<open>strings\<close>, \<open>bytes\<close> and \<open>path/filepath\<close> packages that the program calls,
  on byte strings.  \<open>TrimSpace\<close> and \<open>ToLower\<close> act on the ASCII range; the other functions are
  byte-exact.  The path functions are those of a Unix build (\<open>filepath.Separator = '/'\<close>).
\<close>

subsection \<open>Package strings\<close>

definition is_space :: "char \<Rightarrow> bool" where
  "is_space c \<longleftrightarrow> (let n = of_char c :: nat in n = 32 \<or> 9 \<le> n \<and> n \<le> 13)"

definition TrimSpace :: "string \<Rightarrow> string" where
  "TrimSpace s = strip is_space s"

definition to_lower_char :: "char \<Rightarrow> char" where
  "to_lower_char c =
     (let n = of_char c :: nat in if 65 \<le> n \<and> n \<le> 90 then char_of (n + 32) else c)"

definition ToLower :: "string \<Rightarrow> string" where
  "ToLower s = map to_lower_char s"

definition HasPrefix :: "string \<Rightarrow> string \<Rightarrow> bool" where
  "HasPrefix s p \<longleftrightarrow> take (length p) s = p"

definition HasSuffix :: "string \<Rightarrow> string \<Rightarrow> bool" where
  "HasSuffix s p \<longleftrightarrow> length p \<le> length s \<and> drop (length s - length p) s = p"

definition TrimPrefix :: "string \<Rightarrow> string \<Rightarrow> string" where
  "TrimPrefix s p = (if HasPrefix s p then drop (length p) s else s)"

definition TrimSuffix :: "string \<Rightarrow> string \<Rightarrow> string" where
  "TrimSuffix s p = (if HasSuffix s p then take (length s - length p) s else s)"

fun Contains :: "string \<Rightarrow> string \<Rightarrow> bool" where
  "Contains [] sub = (sub = [])"
| "Contains (c # s) sub = (HasPrefix (c # s) sub \<or> Contains s sub)"

definition TrimSlash :: "string \<Rightarrow> string" where \<comment> \<open>\<open>strings.Trim(s, "/")\<close>\<close>
  "TrimSlash s = strip (\<lambda>c. c = CHR ''/'') s"

definition CountChar :: "string \<Rightarrow> char \<Rightarrow> nat" where \<comment> \<open>\<open>strings.Count\<close> of a one-byte string\<close>
  "CountChar s c = count_list s c"

fun Split :: "char \<Rightarrow> string \<Rightarrow> string list" where \<comment> \<open>\<open>strings.Split\<close> by a one-byte separator\<close>
  "Split c [] = [[]]"
| "Split c (x # xs) =
     (if x = c then [] # Split c xs
      else (case Split c xs of [] \<Rightarrow> [[x]] | y # ys \<Rightarrow> (x # y) # ys))"

fun Join :: "string list \<Rightarrow> string \<Rightarrow> string" where
  "Join [] sep = []"
| "Join [x] sep = x"
| "Join (x # y # zs) sep = x @ sep @ Join (y # zs) sep"

lemmas [go_simps] = TrimSpace_def ToLower_def HasPrefix_def HasSuffix_def TrimPrefix_def
  TrimSuffix_def TrimSlash_def CountChar_def

lemma TrimSpace_idem [simp]: "TrimSpace (TrimSpace s) = TrimSpace s"
  by (simp add: TrimSpace_def)

lemma TrimSpace_Nil [simp]: "TrimSpace [] = []"
  by (simp add: TrimSpace_def)

lemma to_lower_char_space [simp]: "is_space (to_lower_char c) = is_space c"
  by (auto simp: is_space_def to_lower_char_def Let_def)

lemma strip_map: "(\<And>x. P (f x) = P x) \<Longrightarrow> strip P (map f xs) = map f (strip P xs)"
  by (simp add: strip_def dropWhile_map comp_def rev_map)

lemma to_lower_char_idem [simp]: "to_lower_char (to_lower_char c) = to_lower_char c"
proof -
  have "of_char (char_of (n + 32) :: char) = n + (32::nat)" if "n \<le> 90" for n
    using that by simp
  then show ?thesis
    by (auto simp: to_lower_char_def Let_def)
qed

lemma ToLower_idem [simp]: "ToLower (ToLower s) = ToLower s"
  by (simp add: ToLower_def)

lemma TrimSpace_ToLower: "TrimSpace (ToLower s) = ToLower (TrimSpace s)"
  by (simp add: TrimSpace_def ToLower_def strip_map)

lemma HasPrefix_append [simp]: "HasPrefix (p @ s) p"
  by (simp add: HasPrefix_def)

lemma HasPrefix_iff: "HasPrefix s p \<longleftrightarrow> (\<exists>t. s = p @ t)"
  unfolding HasPrefix_def by (metis append_eq_conv_conj append_take_drop_id)

lemma Contains_iff: "Contains s sub \<longleftrightarrow> (\<exists>a b. s = a @ sub @ b)"
proof (induction s)
  case Nil
  then show ?case by auto
next
  case (Cons c s)
  note IH = Cons.IH
  show ?case
  proof
    assume "Contains (c # s) sub"
    with Cons show "\<exists>a b. c # s = a @ sub @ b"
      by (auto simp: HasPrefix_iff) (metis append_Cons append_Nil)+
  next
    assume "\<exists>a b. c # s = a @ sub @ b"
    then obtain a b where "c # s = a @ sub @ b" by blast
    then show "Contains (c # s) sub"
    proof (cases a)
      case Nil
      with \<open>c # s = a @ sub @ b\<close> have "HasPrefix (c # s) sub" by (auto simp: HasPrefix_iff)
      then show ?thesis by simp
    next
      case (Cons a' as)
      with \<open>c # s = a @ sub @ b\<close> have "s = as @ sub @ b" by simp
      with IH show ?thesis by auto
    qed
  qed
qed

lemma Contains_self [simp]: "Contains s s"
  by (auto simp: Contains_iff intro: exI [of _ "[]"])

lemma Split_nonempty [simp]: "Split c s \<noteq> []"
  by (induction s) (auto split: list.splits)

lemma Split_no_sep: "x \<in> set (Split c s) \<Longrightarrow> c \<notin> set x"
proof (induction s arbitrary: x)
  case Nil
  then show ?case by simp
next
  case (Cons a s)
  then show ?case by (cases "Split c s") (auto split: if_splits)
qed

lemma Join_Split: "Join (Split c s) [c] = s"
proof (induction s)
  case Nil
  then show ?case by simp
next
  case (Cons a s)
  obtain y ys where y: "Split c s = y # ys" by (cases "Split c s") simp_all
  with Cons have "Join (y # ys) [c] = s" by simp
  with y show ?case by (cases ys) auto
qed

lemma Split_append_sep: "c \<notin> set x \<Longrightarrow> Split c (x @ c # s) = x # Split c s"
  by (induction x) auto

lemma Split_no_sep_id: "c \<notin> set x \<Longrightarrow> Split c x = [x]"
  by (induction x) auto

text \<open>Joining separator-free segments and splitting the result gives the segments back.\<close>

lemma Split_Join:
  "xs \<noteq> [] \<Longrightarrow> \<forall>x\<in>set xs. c \<notin> set x \<Longrightarrow> Split c (Join xs [c]) = xs"
proof (induction xs rule: induct_list012)
  case (3 x y zs)
  then show ?case by (simp add: Split_append_sep)
qed (auto simp: Split_no_sep_id)

lemma Join_inj:
  assumes "xs \<noteq> []" "ys \<noteq> []" "\<forall>x\<in>set xs. c \<notin> set x" "\<forall>x\<in>set ys. c \<notin> set x"
    and "Join xs [c] = Join ys [c]"
  shows "xs = ys"
  using assms by (metis Split_Join)

subsection \<open>Package path/filepath (Unix)\<close>

text \<open>
  \<open>Clean\<close> keeps a stack of path elements: empty elements and \<open>.\<close> vanish, \<open>..\<close> removes the
  element before it, and at the root it vanishes.
\<close>

definition clean_push :: "bool \<Rightarrow> string list \<Rightarrow> string \<Rightarrow> string list" where
  "clean_push rooted st c =
     (if c = [] \<or> c = ''.'' then st
      else if c = ''..'' then
        (case st of
           [] \<Rightarrow> if rooted then [] else [''..'']
         | prev # rest \<Rightarrow> if prev = ''..'' then ''..'' # st else rest)
      else c # st)"

definition Clean :: "string \<Rightarrow> string" where
  "Clean s =
     (if s = [] then ''.''
      else
        let rooted = (hd s = CHR ''/'');
            body = Join (rev (foldl (clean_push rooted) [] (Split (CHR ''/'') s))) ''/''
        in if rooted then CHR ''/'' # body else if body = [] then ''.'' else body)"

definition Base :: "string \<Rightarrow> string" where
  "Base s =
     (if s = [] then ''.''
      else
        let t = dropWhile (\<lambda>c. c = CHR ''/'') (rev s)
        in if t = [] then ''/'' else rev (takeWhile (\<lambda>c. c \<noteq> CHR ''/'') t))"

definition DirPath :: "string \<Rightarrow> string" where \<comment> \<open>\<open>filepath.Dir\<close>\<close>
  "DirPath s = Clean (rev (dropWhile (\<lambda>c. c \<noteq> CHR ''/'') (rev s)))"

definition Ext :: "string \<Rightarrow> string" where
  "Ext s =
     (let b = takeWhile (\<lambda>c. c \<noteq> CHR ''/'') (rev s)
      in if CHR ''.'' \<in> set b
         then CHR ''.'' # rev (takeWhile (\<lambda>c. c \<noteq> CHR ''.'') b) else [])"

definition JoinPath :: "string list \<Rightarrow> string" where \<comment> \<open>\<open>filepath.Join\<close>\<close>
  "JoinPath xs =
     (let ys = dropWhile (\<lambda>x. x = []) xs in if ys = [] then [] else Clean (Join ys ''/''))"

text \<open>An element that \<open>Clean\<close> keeps as it is.\<close>

definition plain_elem :: "string \<Rightarrow> bool" where
  "plain_elem c \<longleftrightarrow> c \<noteq> [] \<and> c \<noteq> ''.'' \<and> c \<noteq> ''..'' \<and> CHR ''/'' \<notin> set c"

lemma clean_push_plain: "plain_elem c \<Longrightarrow> clean_push r st c = c # st"
  by (simp add: clean_push_def plain_elem_def)

lemma foldl_clean_push_plain:
  "\<forall>c\<in>set cs. plain_elem c \<Longrightarrow> foldl (clean_push r) st cs = rev cs @ st"
  by (induction cs arbitrary: st) (simp_all add: clean_push_plain)

lemma Join_eq_Nil: "\<forall>c\<in>set cs. c \<noteq> [] \<Longrightarrow> Join cs sep = [] \<longleftrightarrow> cs = []"
  by (cases cs rule: remdups_adj.cases) auto

lemma hd_Join: "cs \<noteq> [] \<Longrightarrow> hd cs \<noteq> [] \<Longrightarrow> hd (Join cs sep) = hd (hd cs)"
  by (cases cs rule: remdups_adj.cases) auto

text \<open>A relative path made of plain elements is already clean.\<close>

lemma Clean_plain_rel:
  assumes "cs \<noteq> []" and "\<forall>c\<in>set cs. plain_elem c"
  shows "Clean (Join cs ''/'') = Join cs ''/''"
proof -
  have ne: "\<forall>c\<in>set cs. c \<noteq> []" and ns: "\<forall>c\<in>set cs. CHR ''/'' \<notin> set c"
    using assms(2) by (auto simp: plain_elem_def)
  have j: "Join cs ''/'' \<noteq> []" using Join_eq_Nil [OF ne] assms(1) by blast
  have "hd cs \<in> set cs" using assms(1) by simp
  then have "hd (hd cs) \<noteq> CHR ''/''" using ne ns by (metis list.set_sel(1))
  then have r: "hd (Join cs ''/'') \<noteq> CHR ''/''"
    using assms(1) ne by (metis hd_Join list.set_sel(1))
  have "Split (CHR ''/'') (Join cs ''/'') = cs" using Split_Join [OF assms(1) ns] .
  then show ?thesis
    using j r assms(2) by (simp add: Clean_def Let_def foldl_clean_push_plain)
qed

lemma Base_no_slash: "s \<noteq> [] \<Longrightarrow> Base s \<noteq> ''/'' \<Longrightarrow> CHR ''/'' \<notin> set (Base s)"
  by (auto simp: Base_def Let_def dest: set_takeWhileD split: if_splits)

lemma Base_nonempty: "Base s \<noteq> []"
proof (cases "dropWhile (\<lambda>c. c = CHR ''/'') (rev s)")
  case Nil
  then show ?thesis by (simp add: Base_def)
next
  case (Cons a t)
  then have "a \<noteq> CHR ''/''" using hd_dropWhile [of "\<lambda>c. c = CHR ''/''" "rev s"] by simp
  with Cons show ?thesis by (simp add: Base_def)
qed

lemma Base_plain:
  assumes "CHR ''/'' \<notin> set s" and "s \<noteq> []"
  shows "Base s = s"
proof -
  have "dropWhile (\<lambda>c. c = CHR ''/'') (rev s) = rev s"
    using assms(1) by (auto intro: dropWhile_none)
  moreover have "takeWhile (\<lambda>c. c \<noteq> CHR ''/'') (rev s) = rev s"
    using assms(1) by (auto simp: takeWhile_eq_all_conv)
  ultimately show ?thesis using assms(2) by (simp add: Base_def del: takeWhile_eq_all_conv)
qed

subsection \<open>Numbers in text, bytes and strings\<close>

text \<open>Decimal and hexadecimal digits (\<open>fmt.Sprintf("%d")\<close>, \<open>hex.EncodeToString\<close>).\<close>

definition hex_digits :: string where
  "hex_digits = ''0123456789abcdef''"

definition digit :: "nat \<Rightarrow> char" where
  "digit n = hex_digits ! n"

fun show_nat :: "nat \<Rightarrow> string" where
  "show_nat n = (if n < 10 then [digit n] else show_nat (n div 10) @ [digit (n mod 10)])"

declare show_nat.simps [simp del]

definition show_int :: "int \<Rightarrow> string" where
  "show_int i = (if i < 0 then CHR ''-'' # show_nat (nat (- i)) else show_nat (nat i))"

definition hex_byte :: "byte \<Rightarrow> string" where
  "hex_byte b = [digit (unat b div 16), digit (unat b mod 16)]"

definition EncodeToString :: "byte list \<Rightarrow> string" where
  "EncodeToString bs = concat (map hex_byte bs)"

text \<open>The same bytes seen as a \<open>[]byte\<close> and as a \<open>string\<close>.\<close>

definition to_bytes :: "string \<Rightarrow> byte list" where
  "to_bytes s = map (\<lambda>c. of_nat (of_char c)) s"

definition to_string :: "byte list \<Rightarrow> string" where
  "to_string bs = map (\<lambda>b. char_of (unat b)) bs"

lemma to_string_to_bytes [simp]: "to_string (to_bytes s) = s"
  by (simp add: to_string_def to_bytes_def comp_def unat_of_nat)

lemma to_bytes_to_string [simp]: "to_bytes (to_string bs) = bs"
proof -
  have "of_nat (of_char (char_of (unat b) :: char)) = b" for b :: byte
    using unsigned_less [of b, where ?'a = nat] by simp
  then show ?thesis by (simp add: to_string_def to_bytes_def comp_def)
qed

lemma length_conversions [simp]: "length (to_bytes s) = length s" "length (to_string bs) = length bs"
  by (simp_all add: to_bytes_def to_string_def)

lemma conversions_Nil [simp]: "to_bytes s = [] \<longleftrightarrow> s = []" "to_string bs = [] \<longleftrightarrow> bs = []"
  by (simp_all add: to_bytes_def to_string_def)

lemma to_string_inj [simp]: "to_string a = to_string b \<longleftrightarrow> a = b"
  by (metis to_bytes_to_string)

lemma to_bytes_inj [simp]: "to_bytes a = to_bytes b \<longleftrightarrow> a = b"
  by (metis to_string_to_bytes)

lemma digit_less: "n < 16 \<Longrightarrow> digit n \<in> set hex_digits"
  unfolding digit_def by (rule nth_mem) (simp add: hex_digits_def)

lemma set_show_nat: "set (show_nat n) \<subseteq> set hex_digits"
proof (induction n rule: show_nat.induct)
  case (1 n)
  show ?case
  proof (cases "n < 10")
    case True
    then show ?thesis using digit_less [of n] by (simp add: show_nat.simps)
  next
    case False
    then show ?thesis
      using 1 digit_less [of "n mod 10"] by (subst show_nat.simps) simp
  qed
qed

lemma show_nat_nonempty [simp]: "show_nat n \<noteq> []"
  by (subst show_nat.simps) simp

lemma show_int_nonempty [simp]: "show_int i \<noteq> []"
  by (simp add: show_int_def)

lemma set_show_int: "set (show_int i) \<subseteq> insert (CHR ''-'') (set hex_digits)"
  using set_show_nat [of "nat i"] set_show_nat [of "nat (- i)"] by (auto simp: show_int_def)

lemma length_EncodeToString [simp]: "length (EncodeToString bs) = 2 * length bs"
  by (induction bs) (simp_all add: EncodeToString_def hex_byte_def)

lemma set_hex_byte: "set (hex_byte b) \<subseteq> set hex_digits"
proof -
  have "unat b < 256" using unsigned_less [of b, where ?'a = nat] by simp
  then have "unat b div 16 < 16" "unat b mod 16 < 16" by (auto intro: less_mult_imp_div_less)
  then have "digit (unat b div 16) \<in> set hex_digits" "digit (unat b mod 16) \<in> set hex_digits"
    by (blast intro: digit_less)+
  then show ?thesis unfolding hex_byte_def by (metis empty_subsetI insert_subset list.set(1,2))
qed

lemma set_EncodeToString: "set (EncodeToString bs) \<subseteq> set hex_digits"
  unfolding EncodeToString_def set_concat set_map using set_hex_byte by blast

end
