(* ===== verification/Store.thy ===== *)
theory Store
  imports GoStrings "HOL-Library.Multiset"
begin

text \<open>
  The database as the repositories of the program see it.  The tables are lists of rows and belong to the
  state of the model; the object-relational mapper that executes statements on them (gorm) is a parameter: it may
  refuse any statement, and what is assumed of a statement that succeeds is \<open>gorm_sound\<close>.  The
  order in which a query without \<open>ORDER BY\<close> returns rows is left open.
\<close>

type_synonym db_error = string

record 'r gorm =
  g_find :: "('r \<Rightarrow> bool) \<Rightarrow> 'r list \<Rightarrow> (db_error, 'r list) res"
  g_exec :: "('r list \<Rightarrow> 'r list) \<Rightarrow> 'r list \<Rightarrow> (db_error, 'r list) res"

definition gorm_sound :: "'r gorm \<Rightarrow> bool" where
  "gorm_sound g \<longleftrightarrow>
     (\<forall>P t rows. g_find g P t = Inr rows \<longrightarrow> mset rows = mset (filter P t)) \<and>
     (\<forall>f t t'. g_exec g f t = Inr t' \<longrightarrow> t' = f t)"

text \<open>The hypothesis of the statements that a request is answered at all.\<close>

definition gorm_reliable :: "'r gorm \<Rightarrow> bool" where
  "gorm_reliable g \<longleftrightarrow> gorm_sound g \<and>
     (\<forall>P t. \<exists>rows. g_find g P t = Inr rows) \<and> (\<forall>f t. \<exists>t'. g_exec g f t = Inr t')"

definition memory_gorm :: "'r gorm" where
  "memory_gorm = \<lparr>g_find = (\<lambda>P t. Inr (filter P t)), g_exec = (\<lambda>f t. Inr (f t))\<rparr>"

lemma memory_gorm_reliable [simp]: "gorm_reliable memory_gorm" "gorm_sound memory_gorm"
  by (auto simp: gorm_reliable_def gorm_sound_def memory_gorm_def)

lemma memory_gorm_simps [simp]:
  "g_find memory_gorm P t = Inr (filter P t)" "g_exec memory_gorm f t = Inr (f t)"
  by (simp_all add: memory_gorm_def)

lemma gorm_reliable_sound: "gorm_reliable g \<Longrightarrow> gorm_sound g"
  by (simp add: gorm_reliable_def)

lemma gorm_findD:
  assumes "gorm_sound g" "g_find g P t = Inr rows"
  shows "mset rows = mset (filter P t)" "set rows = {r \<in> set t. P r}"
proof -
  show m: "mset rows = mset (filter P t)" using assms by (auto simp: gorm_sound_def)
  show "set rows = {r \<in> set t. P r}" using mset_eq_setD [OF m] by simp
qed

lemma gorm_execD: "gorm_sound g \<Longrightarrow> g_exec g f t = Inr t' \<Longrightarrow> t' = f t"
  by (auto simp: gorm_sound_def)

lemma gorm_findE:
  assumes "gorm_reliable g"
  obtains rows where "g_find g P t = Inr rows" "mset rows = mset (filter P t)"
proof -
  obtain rows where "g_find g P t = Inr rows" using assms unfolding gorm_reliable_def by blast
  with assms show ?thesis using that gorm_findD(1) gorm_reliable_sound by blast
qed

lemma gorm_exec_reliable: "gorm_reliable g \<Longrightarrow> g_exec g f t = Inr (f t)"
  unfolding gorm_reliable_def using gorm_execD [of g f t] by metis

text \<open>\<open>Order(key).Find\<close> and \<open>Order(key).First\<close>; no row is \<open>gorm.ErrRecordNotFound\<close>.\<close>

definition g_ordered :: "'r gorm \<Rightarrow> ('r \<Rightarrow> 'k::linorder) \<Rightarrow> ('r \<Rightarrow> bool) \<Rightarrow> 'r list \<Rightarrow> (db_error, 'r list) res" where
  "g_ordered g key P t = map_sum id (sort_key key) (g_find g P t)"

definition g_first :: "'r gorm \<Rightarrow> ('r \<Rightarrow> 'k::linorder) \<Rightarrow> ('r \<Rightarrow> bool) \<Rightarrow> 'r list \<Rightarrow> (db_error, 'r option) res" where
  "g_first g key P t =
     map_sum id (\<lambda>rows. case sort_key key rows of [] \<Rightarrow> None | r # _ \<Rightarrow> Some r) (g_find g P t)"

lemma sort_key_hd_le:
  assumes "sort_key key rows = r # rs" "x \<in> set rows"
  shows "key r \<le> key x"
proof -
  have "sorted (map key (r # rs))" using assms(1) by (metis sorted_sort_key)
  moreover have "x \<in> set (r # rs)" using assms by (metis set_sort)
  ultimately show ?thesis by auto
qed

lemma g_firstD:
  assumes "gorm_sound g" "g_first g key P t = Inr (Some r)"
  shows "r \<in> set t" "P r" "\<And>x. x \<in> set t \<Longrightarrow> P x \<Longrightarrow> key r \<le> key x"
proof -
  obtain rows rs where f: "g_find g P t = Inr rows" and s: "sort_key key rows = r # rs"
    using assms(2) by (cases "g_find g P t") (auto simp: g_first_def split: list.splits)
  have rows: "set rows = {r \<in> set t. P r}" by (rule gorm_findD [OF assms(1) f])
  have "r \<in> set rows" using s by (metis list.set_intros(1) set_sort)
  then show "r \<in> set t" "P r" by (auto simp: rows)
  show "key r \<le> key x" if "x \<in> set t" "P x" for x
    by (rule sort_key_hd_le [OF s]) (simp add: rows that)
qed

lemma g_first_None:
  assumes "gorm_sound g" "g_first g key P t = Inr None"
  shows "\<forall>x\<in>set t. \<not> P x"
proof -
  obtain rows where f: "g_find g P t = Inr rows" and s: "sort_key key rows = []"
    using assms(2) by (cases "g_find g P t") (auto simp: g_first_def split: list.splits)
  have "rows = []" using s by (metis length_0_conv length_sort)
  with gorm_findD(2) [OF assms(1) f] show ?thesis by auto
qed

lemma g_first_reliable:
  assumes "gorm_reliable g"
  shows "\<exists>r. g_first g key P t = Inr r"
  using assms by (auto simp: gorm_reliable_def g_first_def) (metis map_sum.simps(2))

subsection \<open>Insert or update\<close>

text \<open>
  An insert with \<open>ON CONFLICT (key) DO UPDATE\<close>: the key is physical, so a soft-deleted row
  conflicts as well, and only the assigned columns change.
\<close>

definition upsert :: "('r \<Rightarrow> string) \<Rightarrow> ('r \<Rightarrow> 'r \<Rightarrow> 'r) \<Rightarrow> 'r \<Rightarrow> 'r list \<Rightarrow> 'r list" where
  "upsert key assign row t =
     (if \<exists>r\<in>set t. key r = key row then map (\<lambda>r. if key r = key row then assign row r else r) t
      else t @ [row])"

lemma upsert_keys:
  assumes "distinct (map key t)" and "\<And>r. key (assign row r) = key r"
  shows "distinct (map key (upsert key assign row t))" "key ` set (upsert key assign row t) = insert (key row) (key ` set t)"
proof -
  have same: "map key (map (\<lambda>r. if key r = key row then assign row r else r) t) = map key t"
    using assms(2) by simp
  show "distinct (map key (upsert key assign row t))"
  proof (cases "\<exists>r\<in>set t. key r = key row")
    case True
    then have "upsert key assign row t = map (\<lambda>r. if key r = key row then assign row r else r) t" by (simp add: upsert_def)
    then show ?thesis using assms(1) by (simp only: same)
  qed (use assms(1) in \<open>auto simp: upsert_def\<close>)
  show "key ` set (upsert key assign row t) = insert (key row) (key ` set t)"
  proof (cases "\<exists>r\<in>set t. key r = key row")
    case True
    then have eq: "upsert key assign row t = map (\<lambda>r. if key r = key row then assign row r else r) t" by (simp add: upsert_def)
    have "key ` set (upsert key assign row t) = key ` set t"
      using arg_cong [OF same, of set] unfolding eq set_map .
    moreover obtain r where "r \<in> set t" "key row = key r" using True by auto
    ultimately show ?thesis by auto
  qed (auto simp: upsert_def)
qed

text \<open>The row of a key, as a finite map sees the table.\<close>

definition row_of :: "('r \<Rightarrow> string) \<Rightarrow> 'r list \<Rightarrow> string \<Rightarrow> 'r option" where
  "row_of key t k = find (\<lambda>r. key r = k) t"

lemma row_of_upsert:
  assumes "\<And>r. key (assign row r) = key r"
  shows "row_of key (upsert key assign row t) =
    (row_of key t)(key row \<mapsto> (case row_of key t (key row) of None \<Rightarrow> row | Some r \<Rightarrow> assign row r))"
proof -
  let ?f = "\<lambda>r. if key r = key row then assign row r else r"
  have upd: "find (\<lambda>r. key r = k) (map ?f t) = map_option ?f (find (\<lambda>r. key r = k) t)" for k
    by (induction t) (auto simp: assms)
  have app: "find P (t @ [x]) = (case find P t of None \<Rightarrow> if P x then Some x else None | Some r \<Rightarrow> Some r)" for P x
    by (induction t) auto
  show ?thesis
  proof (cases "\<exists>r\<in>set t. key r = key row")
    case True
    then have "find (\<lambda>r. key r = key row) t \<noteq> None" by (auto simp: find_None_iff)
    then obtain r0 where r0: "find (\<lambda>r. key r = key row) t = Some r0" by auto
    have "map_option ?f (find (\<lambda>r. key r = k) t) = ((row_of key t)(key row \<mapsto> assign row r0)) k" for k
    proof (cases "k = key row")
      case True
      then show ?thesis using r0 by (auto simp: find_Some_iff)
    next
      case False
      show ?thesis
      proof (cases "find (\<lambda>r. key r = k) t")
        case (Some r)
        then have "key r = k" by (auto simp: find_Some_iff)
        then show ?thesis using False Some by (simp add: row_of_def)
      qed (use False in \<open>simp add: row_of_def\<close>)
    qed
    then show ?thesis using True r0 by (simp add: upsert_def row_of_def upd fun_eq_iff)
  next
    case False
    then have "find (\<lambda>r. key r = key row) t = None" by (simp add: find_None_iff)
    then show ?thesis using False by (auto simp: upsert_def row_of_def app fun_eq_iff split: option.splits)
  qed
qed

end
