(* ===== verification/Versions.thy ===== *)
theory Versions
  imports Store "HOL-Library.Product_Lexorder"
begin

text \<open>
  Backup versions: the table of \<open>backend/app/models/backup_version.go\<close> and the repository of
  \<open>backend/app/repo/backup_version_repo.go\<close>.
\<close>

record BackupFileVersion =
  VID :: nat
  VDeviceID :: string
  VFileID :: string
  VLogicalPath :: string
  VFileName :: string
  VStoredName :: string
  VVersion :: int
  VSize :: int
  VCreatedAt :: time

type_synonym version_table = "BackupFileVersion list"

definition same_file :: "string \<Rightarrow> string \<Rightarrow> BackupFileVersion \<Rightarrow> bool" where
  "same_file deviceID logicalPath v \<longleftrightarrow> VDeviceID v = deviceID \<and> VLogicalPath v = logicalPath"

definition same_file_id :: "string \<Rightarrow> string \<Rightarrow> BackupFileVersion \<Rightarrow> bool" where
  "same_file_id deviceID fileID v \<longleftrightarrow> VDeviceID v = deviceID \<and> VFileID v = fileID"

definition max_version :: "BackupFileVersion list \<Rightarrow> int option" where \<comment> \<open>\<open>MAX(version)\<close>, NULL on no row\<close>
  "max_version rows = (if rows = [] then None else Some (Max (VVersion ` set rows)))"

definition NextVersion ::
    "BackupFileVersion gorm \<Rightarrow> string \<Rightarrow> string \<Rightarrow> version_table \<Rightarrow> (db_error, int) res" where
  "NextVersion db deviceID logicalPath t =
     (case g_find db (same_file deviceID logicalPath) t of
        Inl e \<Rightarrow> Inl e
      | Inr rows \<Rightarrow> (case max_version rows of None \<Rightarrow> Inr 1 | Some m \<Rightarrow> Inr (m + 1)))"

text \<open>A row without key gets the next automatic one and the time of its creation.\<close>

definition Create ::
    "BackupFileVersion gorm \<Rightarrow> nat \<Rightarrow> time \<Rightarrow> BackupFileVersion \<Rightarrow> version_table \<Rightarrow> (db_error, version_table) res" where
  "Create db auto_id now v t = g_exec db (\<lambda>t. t @ [v\<lparr>VID := auto_id, VCreatedAt := now\<rparr>]) t"

definition ListVersions ::
    "BackupFileVersion gorm \<Rightarrow> string \<Rightarrow> string \<Rightarrow> version_table \<Rightarrow> (db_error, BackupFileVersion list) res" where
  "ListVersions db deviceID logicalPath t = g_ordered db VVersion (same_file deviceID logicalPath) t"

text \<open>\<open>First\<close> orders by the given column and then by the primary key.\<close>

definition Get ::
    "BackupFileVersion gorm \<Rightarrow> string \<Rightarrow> string \<Rightarrow> int \<Rightarrow> version_table \<Rightarrow> (db_error, BackupFileVersion option) res" where
  "Get db deviceID logicalPath version t =
     (if version > 0
      then g_first db VID (\<lambda>v. same_file deviceID logicalPath v \<and> VVersion v = version) t
      else g_first db (\<lambda>v. (- VVersion v, VID v)) (same_file deviceID logicalPath) t)"

definition GetByID ::
    "BackupFileVersion gorm \<Rightarrow> nat \<Rightarrow> version_table \<Rightarrow> (db_error, BackupFileVersion option) res" where
  "GetByID db i t = g_first db VID (\<lambda>v. VID v = i) t"

definition ListByFileID ::
    "BackupFileVersion gorm \<Rightarrow> string \<Rightarrow> string \<Rightarrow> version_table \<Rightarrow> (db_error, BackupFileVersion list) res" where
  "ListByFileID db deviceID fileID t = g_ordered db (\<lambda>v. - VVersion v) (same_file_id deviceID fileID) t"

definition GetLatestByFileID ::
    "BackupFileVersion gorm \<Rightarrow> string \<Rightarrow> string \<Rightarrow> version_table \<Rightarrow> (db_error, BackupFileVersion option) res" where
  "GetLatestByFileID db deviceID fileID t =
     g_first db (\<lambda>v. (- VVersion v, VID v)) (same_file_id deviceID fileID) t"

subsection \<open>The version store as an interface\<close>

text \<open>
  What the backup service relies on: a number above all versions the file has, and an append that
  keeps the row it is given.  The number is the least one that makes the history gapless.
\<close>

definition history :: "string \<Rightarrow> string \<Rightarrow> version_table \<Rightarrow> int list" where
  "history d p t = map VVersion (filter (same_file d p) t)"

definition gapless :: "int list \<Rightarrow> bool" where
  "gapless vs \<longleftrightarrow> vs = map int [1..<length vs + 1]"

locale version_store =
  fixes next_version :: "string \<Rightarrow> string \<Rightarrow> version_table \<Rightarrow> (db_error, int) res"
    and create :: "nat \<Rightarrow> time \<Rightarrow> BackupFileVersion \<Rightarrow> version_table \<Rightarrow> (db_error, version_table) res"
  assumes next_first: "history d p t = [] \<Longrightarrow> next_version d p t = Inr n \<Longrightarrow> n = 1"
    and next_above: "history d p t \<noteq> [] \<Longrightarrow> next_version d p t = Inr n \<Longrightarrow> n = Max (set (history d p t)) + 1"
    and create_appends: "create i now v t = Inr t' \<Longrightarrow> t' = t @ [v\<lparr>VID := i, VCreatedAt := now\<rparr>]"
begin

lemma next_gapless:
  assumes "gapless (history d p t)" "next_version d p t = Inr n"
  shows "n = int (length (history d p t)) + 1"
proof (cases "history d p t = []")
  case False
  let ?k = "length (history d p t)"
  have "set (history d p t) = int ` {1..<?k + 1}"
    using assms(1) unfolding gapless_def by (metis list.set_map set_upt)
  also have "\<dots> = {1..int ?k}"
    by (auto simp: image_iff) (metis atLeastLessThan_iff int_one_le_iff_zero_less less_Suc_eq_le nat_int
        nonneg_int_cases One_nat_def Suc_leI of_nat_0_less_iff of_nat_le_iff zero_le_one order_trans)
  finally have s: "set (history d p t) = {1..int ?k}" .
  have "1 \<le> int ?k" using False by (cases "history d p t") simp_all
  then have "Max {1..int ?k} = int ?k" by (intro Max_eqI) auto
  with s have "Max (set (history d p t)) = int ?k" by simp
  then show ?thesis using next_above [OF False assms(2)] by simp
qed (use next_first assms in auto)

lemma record_next:
  assumes ok: "\<And>d p. gapless (history d p t)"
    and n: "next_version d p t = Inr n" and c: "create i now v t = Inr t'"
    and v: "VDeviceID v = d" "VLogicalPath v = p" "VVersion v = n"
  shows "history d p t' = history d p t @ [n]" "gapless (history d' p' t')"
proof -
  have t': "t' = t @ [v\<lparr>VID := i, VCreatedAt := now\<rparr>]" by (rule create_appends [OF c])
  show h: "history d p t' = history d p t @ [n]"
    using v by (simp add: t' history_def same_file_def)
  show "gapless (history d' p' t')"
  proof (cases "d' = d \<and> p' = p")
    case True
    then show ?thesis
      using h ok [of d p] next_gapless [OF ok n] by (auto simp: gapless_def)
  next
    case False
    then have "history d' p' t' = history d' p' t" using v by (auto simp: t' history_def same_file_def)
    with ok show ?thesis by simp
  qed
qed

end

text \<open>Every sound database engine makes the repository such a store.\<close>

locale version_database =
  fixes db :: "BackupFileVersion gorm"
  assumes sound: "gorm_sound db"

lemma NextVersion_value:
  assumes "gorm_sound db" "NextVersion db d p t = Inr n"
  shows "n = (if history d p t = [] then 1 else Max (set (history d p t)) + 1)"
proof -
  obtain rows where f: "g_find db (same_file d p) t = Inr rows"
    using assms(2) by (auto simp: NextVersion_def split: sum.splits)
  have s: "set rows = {r \<in> set t. same_file d p r}" by (rule gorm_findD [OF assms(1) f])
  have m: "mset rows = mset (filter (same_file d p) t)" by (rule gorm_findD [OF assms(1) f])
  have "rows = [] \<longleftrightarrow> history d p t = []"
    using m by (metis history_def map_is_Nil_conv mset_zero_iff mset_zero_iff_right)
  moreover have "VVersion ` set rows = set (history d p t)" by (simp add: s history_def)
  ultimately show ?thesis
    using assms(2) f by (auto simp: NextVersion_def max_version_def)
qed

lemma repository_is_version_store:
  assumes sound: "gorm_sound db"
  shows "version_store (NextVersion db) (Create db)"
proof
  show "n = 1" if "history d p t = []" "NextVersion db d p t = Inr n" for d p t n
    using NextVersion_value [OF sound that(2)] that(1) by simp
  show "n = Max (set (history d p t)) + 1" if "history d p t \<noteq> []" "NextVersion db d p t = Inr n" for d p t n
    using NextVersion_value [OF sound that(2)] that(1) by simp
  show "t' = t @ [v\<lparr>VID := i, VCreatedAt := now\<rparr>]" if "Create db i now v t = Inr t'" for i now v t t'
    using gorm_execD [OF sound that [unfolded Create_def]] .
qed

sublocale version_database \<subseteq> store: version_store "NextVersion db" "Create db"
  by (rule repository_is_version_store [OF sound])

interpretation memory_versions: version_database memory_gorm
  by unfold_locales simp

end
