(* ===== verification/Backup.thy ===== *)
theory Backup
  imports Versions
begin

text \<open>
  The backup sessions of the backend: \<open>backend/app/services/backup_service.go\<close>.  The service keeps the
  sessions in memory; the storage directory is a map from paths to file contents, the version table is the one of
  theory \<open>Versions\<close>.  Each operation holds the service's mutex, so it is one step.  Sizes and
  counters (\<open>int64\<close>) are integers.
\<close>

type_synonym files = "string \<Rightarrow> byte list option"

subsection \<open>Data\<close>

datatype TransferDirection = DirectionUpload | DirectionDownload

datatype SessionStatus = SessionPending | SessionActive | SessionCompleted | SessionError

record BackupUploadInitRequest =
  up_FileName :: string
  up_FileSize :: int
  up_Checksum :: string
  up_LogicalPath :: string
  up_FileID :: string

record BackupDownloadInitRequest =
  down_FileName :: string

record BackupSession =
  sess_ID :: string
  sess_Token :: string
  sess_DeviceID :: string
  sess_FileID :: string
  sess_LogicalPath :: string
  sess_FileName :: string
  sess_FileSize :: int
  sess_Checksum :: string
  sess_Direction :: TransferDirection
  sess_Status :: SessionStatus
  sess_TempPath :: string
  sess_FinalPath :: string
  sess_BytesDone :: int
  sess_CreatedAt :: time
  sess_UpdatedAt :: time

record BackupSessionResponse =
  resp_SessionID :: string
  resp_Token :: string
  resp_FileName :: string
  resp_FileSize :: int
  resp_Offset :: int
  resp_ChunkSize :: int
  resp_TCPHost :: string
  resp_TCPPort :: int
  resp_Direction :: TransferDirection
  resp_Status :: SessionStatus

record BackupService =
  storageDir :: string
  chunkSize :: int
  tcpHost :: string
  tcpPort :: int
  sessions :: "string \<Rightarrow> BackupSession option"
  has_versions :: bool

record backup_config =
  cfg_StoragePath :: string
  cfg_ChunkSize :: int
  cfg_BackupHost :: string
  cfg_BackupPort :: int
  cfg_TCPHost :: string
  cfg_TCPPort :: int

datatype backup_error =
    CreateBackupDir | MissingDeviceID | InvalidFileMetadata | MkdirDeviceDir | CreateTempFile
  | StatTempFile | MissingDownloadParameters | StatFile | ErrSessionNotFound | ErrInvalidSession
  | ErrDirectionMismatch | MissingTempPath | FinalizeRename | ComputeNextVersion db_error
  | StoreBackupVersion db_error

text \<open>
  The environment of one operation: which system calls succeed, the successive readings of the clock and of the
  random source.
\<close>

record backup_io =
  mkdir_ok :: bool
  stat_ok :: bool
  create_ok :: bool
  rename_ok :: "nat \<Rightarrow> bool"
  clock :: "nat \<Rightarrow> time"
  random :: "nat \<Rightarrow> byte list option"
  auto_id :: nat

subsection \<open>Operations\<close>

definition NewBackupService :: "backup_io \<Rightarrow> backup_config \<Rightarrow> bool \<Rightarrow> (backup_error, BackupService) res" where
  "NewBackupService io cfg with_versions =
     (let storage = (if cfg_StoragePath cfg = [] then ''backups'' else cfg_StoragePath cfg)
      in if \<not> mkdir_ok io then Inl CreateBackupDir
         else Inr \<lparr>storageDir = storage,
                   chunkSize = (if cfg_ChunkSize cfg \<le> 0 then 512 * 1024 else cfg_ChunkSize cfg),
                   tcpHost = (if cfg_BackupHost cfg = [] then cfg_TCPHost cfg else cfg_BackupHost cfg),
                   tcpPort = (if cfg_BackupPort cfg \<le> 0 then cfg_TCPPort cfg + 1 else cfg_BackupPort cfg),
                   sessions = (\<lambda>_. None), has_versions = with_versions\<rparr>)"

definition newToken :: "byte list option \<Rightarrow> time \<Rightarrow> string" where
  "newToken rnd nanos = (case rnd of None \<Rightarrow> show_int nanos | Some b \<Rightarrow> EncodeToString b)"

definition newID :: "string \<Rightarrow> byte list option \<Rightarrow> time \<Rightarrow> string" where
  "newID pre rnd nanos = pre @ ''-'' @ newToken rnd nanos"

definition toResponse :: "BackupService \<Rightarrow> BackupSession \<Rightarrow> BackupSessionResponse" where
  "toResponse s session =
     \<lparr>resp_SessionID = sess_ID session, resp_Token = sess_Token session,
      resp_FileName = sess_FileName session, resp_FileSize = sess_FileSize session,
      resp_Offset = sess_BytesDone session, resp_ChunkSize = chunkSize s, resp_TCPHost = tcpHost s,
      resp_TCPPort = tcpPort s, resp_Direction = sess_Direction session, resp_Status = sess_Status session\<rparr>"

definition upload_path :: "BackupService \<Rightarrow> string \<Rightarrow> string \<Rightarrow> time \<Rightarrow> string" where
  "upload_path s deviceID safeName now =
     JoinPath [storageDir s, deviceID, show_int (now div second) @ ''_'' @ safeName]"

definition upload_session ::
    "backup_io \<Rightarrow> string \<Rightarrow> BackupUploadInitRequest \<Rightarrow> string \<Rightarrow> int \<Rightarrow> BackupSession" where
  "upload_session io deviceID req finalPath offset =
     (let safeName = Base (up_FileName req)
      in \<lparr>sess_ID = newID ''up'' (random io 0) (clock io 1),
          sess_Token = newToken (random io 1) (clock io 2), sess_DeviceID = deviceID,
          sess_FileID = up_FileID req,
          sess_LogicalPath = (if up_LogicalPath req = [] then safeName else up_LogicalPath req),
          sess_FileName = safeName, sess_FileSize = up_FileSize req, sess_Checksum = up_Checksum req,
          sess_Direction = DirectionUpload, sess_Status = SessionActive,
          sess_TempPath = finalPath @ ''.part'', sess_FinalPath = finalPath, sess_BytesDone = offset,
          sess_CreatedAt = clock io 3, sess_UpdatedAt = clock io 4\<rparr>)"

definition PrepareUpload ::
    "backup_io \<Rightarrow> string \<Rightarrow> BackupUploadInitRequest \<Rightarrow> BackupService \<Rightarrow> files \<Rightarrow>
     (backup_error, BackupSessionResponse) res \<times> BackupService \<times> files" where
  "PrepareUpload io deviceID req s fs =
     (if deviceID = [] then (Inl MissingDeviceID, s, fs)
      else if up_FileName req = [] \<or> up_FileSize req \<le> 0 then (Inl InvalidFileMetadata, s, fs)
      else
        let finalPath = upload_path s deviceID (Base (up_FileName req)) (clock io 0);
            tempPath = finalPath @ ''.part''
        in if \<not> mkdir_ok io then (Inl MkdirDeviceDir, s, fs)
           else if \<not> stat_ok io then (Inl StatTempFile, s, fs)
           else if fs tempPath = None \<and> \<not> create_ok io then (Inl CreateTempFile, s, fs)
           else
             let offset = (case fs tempPath of None \<Rightarrow> 0 | Some b \<Rightarrow> int (length b));
                 fs' = (if fs tempPath = None then fs(tempPath \<mapsto> []) else fs);
                 offset' = (if offset > up_FileSize req \<and> up_FileSize req > 0 then up_FileSize req else offset);
                 session = upload_session io deviceID req finalPath offset';
                 s' = s\<lparr>sessions := (sessions s)(sess_ID session \<mapsto> session)\<rparr>
             in (Inr (toResponse s' session), s', fs'))"

definition PrepareDownload ::
    "backup_io \<Rightarrow> string \<Rightarrow> BackupDownloadInitRequest \<Rightarrow> BackupService \<Rightarrow> files \<Rightarrow>
     (backup_error, BackupSessionResponse) res \<times> BackupService" where
  "PrepareDownload io deviceID req s fs =
     (if deviceID = [] \<or> down_FileName req = [] then (Inl MissingDownloadParameters, s)
      else
        let safeName = Base (down_FileName req);
            finalPath = JoinPath [storageDir s, deviceID, safeName]
        in case (if stat_ok io then fs finalPath else None) of
             None \<Rightarrow> (Inl StatFile, s)
           | Some content \<Rightarrow>
               let session =
                     \<lparr>sess_ID = newID ''down'' (random io 0) (clock io 0),
                      sess_Token = newToken (random io 1) (clock io 1), sess_DeviceID = deviceID,
                      sess_FileID = [], sess_LogicalPath = [], sess_FileName = safeName,
                      sess_FileSize = int (length content), sess_Checksum = [],
                      sess_Direction = DirectionDownload, sess_Status = SessionActive,
                      sess_TempPath = [], sess_FinalPath = finalPath, sess_BytesDone = 0,
                      sess_CreatedAt = clock io 2, sess_UpdatedAt = clock io 3\<rparr>;
                   s' = s\<lparr>sessions := (sessions s)(sess_ID session \<mapsto> session)\<rparr>
               in (Inr (toResponse s' session), s'))"

definition GetSession :: "string \<Rightarrow> BackupService \<Rightarrow> (backup_error, BackupSessionResponse) res" where
  "GetSession i s =
     (case sessions s i of None \<Rightarrow> Inl ErrSessionNotFound | Some sess \<Rightarrow> Inr (toResponse s sess))"

definition ValidateSession ::
    "string \<Rightarrow> string \<Rightarrow> TransferDirection \<Rightarrow> BackupService \<Rightarrow> (backup_error, BackupSession) res" where
  "ValidateSession i token direction s =
     (case sessions s i of
        None \<Rightarrow> Inl ErrSessionNotFound
      | Some sess \<Rightarrow>
          if sess_Token sess \<noteq> token then Inl ErrInvalidSession
          else if sess_Direction sess \<noteq> direction then Inl ErrDirectionMismatch
          else Inr sess)"

definition Advance :: "time \<Rightarrow> string \<Rightarrow> int \<Rightarrow> BackupService \<Rightarrow> (backup_error, int) res \<times> BackupService" where
  "Advance now i delta s =
     (case sessions s i of
        None \<Rightarrow> (Inl ErrSessionNotFound, s)
      | Some sess \<Rightarrow>
          let sess' = sess\<lparr>sess_BytesDone := sess_BytesDone sess + delta, sess_UpdatedAt := now\<rparr>
          in (Inr (sess_BytesDone sess'), s\<lparr>sessions := (sessions s)(i \<mapsto> sess')\<rparr>))"

definition CurrentOffset :: "string \<Rightarrow> BackupService \<Rightarrow> (backup_error, int) res" where
  "CurrentOffset i s =
     (case sessions s i of None \<Rightarrow> Inl ErrSessionNotFound | Some sess \<Rightarrow> Inr (sess_BytesDone sess))"

definition complete :: "time \<Rightarrow> BackupSession \<Rightarrow> BackupSession" where
  "complete now sess =
     sess\<lparr>sess_Status := SessionCompleted, sess_BytesDone := sess_FileSize sess, sess_UpdatedAt := now\<rparr>"

definition MarkCompleted :: "time \<Rightarrow> string \<Rightarrow> BackupService \<Rightarrow> backup_error option \<times> BackupService" where
  "MarkCompleted now i s =
     (case sessions s i of
        None \<Rightarrow> (Some ErrSessionNotFound, s)
      | Some sess \<Rightarrow> (None, s\<lparr>sessions := (sessions s)(i \<mapsto> complete now sess)\<rparr>))"

definition Rename :: "bool \<Rightarrow> string \<Rightarrow> string \<Rightarrow> files \<Rightarrow> files option" where
  "Rename ok src dst fs =
     (case fs src of
        None \<Rightarrow> None
      | Some b \<Rightarrow> if ok then Some ((fs(src := None))(dst \<mapsto> b)) else None)"

definition rename_temp :: "backup_io \<Rightarrow> BackupSession \<Rightarrow> files \<Rightarrow> files option" where
  "rename_temp io sess fs =
     (case Rename (rename_ok io 0) (sess_TempPath sess) (sess_FinalPath sess) fs of
        Some fs' \<Rightarrow> Some fs'
      | None \<Rightarrow>
          if HasSuffix (sess_TempPath sess) ''.path''
          then Rename (rename_ok io 1) (sess_TempPath sess) (sess_FinalPath sess) fs
          else
            let alt = sess_FinalPath sess @ ''.path''
            in if HasSuffix alt ''.path'' then
                 (if stat_ok io \<and> fs alt \<noteq> None then Rename (rename_ok io 2) alt (sess_FinalPath sess) fs else None)
               else None)"

definition new_version :: "BackupSession \<Rightarrow> int \<Rightarrow> BackupFileVersion" where
  "new_version sess nextVer =
     \<lparr>VID = 0, VDeviceID = sess_DeviceID sess, VFileID = sess_FileID sess,
      VLogicalPath = sess_LogicalPath sess, VFileName = sess_FileName sess,
      VStoredName = Base (sess_FinalPath sess), VVersion = nextVer, VSize = sess_FileSize sess,
      VCreatedAt = 0\<rparr>"

definition FinalizeUpload ::
    "BackupFileVersion gorm \<Rightarrow> backup_io \<Rightarrow> string \<Rightarrow> BackupService \<Rightarrow> files \<Rightarrow> version_table \<Rightarrow>
     backup_error option \<times> BackupService \<times> files \<times> version_table" where
  "FinalizeUpload db io i s fs t =
     (case sessions s i of
        None \<Rightarrow> (Some ErrSessionNotFound, s, fs, t)
      | Some sess \<Rightarrow>
          if sess_Direction sess \<noteq> DirectionUpload then (Some ErrDirectionMismatch, s, fs, t)
          else if sess_TempPath sess = [] then (Some MissingTempPath, s, fs, t)
          else case rename_temp io sess fs of
                 None \<Rightarrow> (Some FinalizeRename, s, fs, t)
               | Some fs' \<Rightarrow>
                   let sess' = complete (clock io 0) sess;
                       s' = s\<lparr>sessions := (sessions s)(i \<mapsto> sess')\<rparr>
                   in if has_versions s \<and> sess_LogicalPath sess' \<noteq> [] then
                        (case NextVersion db (sess_DeviceID sess') (sess_LogicalPath sess') t of
                           Inl e \<Rightarrow> (Some (ComputeNextVersion e), s', fs', t)
                         | Inr nextVer \<Rightarrow>
                             (case Create db (auto_id io) (clock io 1) (new_version sess' nextVer) t of
                                Inl e \<Rightarrow> (Some (StoreBackupVersion e), s', fs', t)
                              | Inr t' \<Rightarrow> (None, s', fs', t')))
                      else (None, s', fs', t))"

subsection \<open>Where uploads are stored\<close>

lemma plain_elem_no_slash: "plain_elem x \<Longrightarrow> CHR ''/'' \<notin> set x"
  by (simp add: plain_elem_def)

lemma stored_name_plain:
  assumes "CHR ''/'' \<notin> set name"
  shows "plain_elem (show_int n @ ''_'' @ name)"
proof -
  have "CHR ''/'' \<notin> set (show_int n)" using set_show_int [of n] by (auto simp: hex_digits_def)
  moreover have "show_int n @ ''_'' @ name \<noteq> y" if "CHR ''_'' \<notin> set y" for y using that by auto
  then have "show_int n @ ''_'' @ name \<noteq> ''.''" "show_int n @ ''_'' @ name \<noteq> ''..''" by simp_all
  ultimately show ?thesis using assms by (simp add: plain_elem_def)
qed

lemma Join_append_elem: "xs \<noteq> [] \<Longrightarrow> Join (xs @ [y]) sep = Join xs sep @ sep @ y"
  by (induction xs rule: induct_list012) simp_all

lemma Join_nest: "xs \<noteq> [] \<Longrightarrow> ys \<noteq> [] \<Longrightarrow> Join (Join xs sep # ys) sep = Join (xs @ ys) sep"
  by (induction xs rule: induct_list012) (auto simp: neq_Nil_conv)

lemma JoinPath_plain:
  assumes "cs \<noteq> []" "\<forall>c\<in>set (cs @ ds). plain_elem c"
  shows "JoinPath (Join cs ''/'' # ds) = Join (cs @ ds) ''/''"
proof -
  have "Join cs ''/'' \<noteq> []" using assms Join_eq_Nil [of cs] by (auto simp: plain_elem_def)
  moreover have "Join (Join cs ''/'' # ds) ''/'' = Join (cs @ ds) ''/''"
    using assms by (cases "ds = []") (simp_all add: Join_nest)
  moreover have "Clean (Join (cs @ ds) ''/'') = Join (cs @ ds) ''/''"
    using assms by (intro Clean_plain_rel) auto
  ultimately show ?thesis by (simp add: JoinPath_def Let_def)
qed

text \<open>A relative path that climbs out of its last directory.\<close>

lemma Clean_dotdot:
  assumes "\<forall>c\<in>set (cs @ [d, e]). plain_elem c"
  shows "Clean (Join (cs @ [d, ''..'', e]) ''/'') = Join (cs @ [e]) ''/''"
proof -
  let ?xs = "cs @ [d, ''..'', e]"
  have ns: "\<forall>c\<in>set ?xs. CHR ''/'' \<notin> set c" and ne: "\<forall>c\<in>set ?xs. c \<noteq> []"
    using assms by (auto simp: plain_elem_def)
  have split: "Split (CHR ''/'') (Join ?xs ''/'') = ?xs" using Split_Join [OF _ ns] by simp
  have "hd ?xs \<in> set ?xs" by (rule hd_in_set) simp
  then have "hd (hd ?xs) \<noteq> CHR ''/''" "hd ?xs \<noteq> []" using ne ns by (metis hd_in_set)+
  then have r: "hd (Join ?xs ''/'') \<noteq> CHR ''/''"
    using hd_Join [of ?xs "''/''"] by simp
  have j: "Join ?xs ''/'' \<noteq> []" using Join_eq_Nil [OF ne] by blast
  have "d \<noteq> ''..''" using assms by (simp add: plain_elem_def)
  then have "foldl (clean_push False) [] ?xs = rev (cs @ [e])"
    using assms by (simp add: foldl_clean_push_plain clean_push_plain) (simp add: clean_push_def)
  moreover have "\<forall>c\<in>set (cs @ [e]). c \<noteq> []" using assms by (auto simp: plain_elem_def)
  then have "Join (cs @ [e]) ''/'' \<noteq> []" using Join_eq_Nil [of "cs @ [e]"] by blast
  ultimately show ?thesis using j r by (simp add: Clean_def Let_def split)
qed

lemma PrepareUpload_success:
  assumes "PrepareUpload io dev req s fs = (Inr r, s', fs')"
  defines "path \<equiv> upload_path s dev (Base (up_FileName req)) (clock io 0)"
  shows "dev \<noteq> [] \<and> up_FileName req \<noteq> [] \<and> up_FileSize req > 0 \<and>
    fs' = (if fs (path @ ''.part'') = None then fs(path @ ''.part'' \<mapsto> []) else fs) \<and>
    (\<exists>offset. 0 \<le> offset \<and> offset \<le> up_FileSize req \<and>
      s' = s\<lparr>sessions := (sessions s)(newID ''up'' (random io 0) (clock io 1)
              \<mapsto> upload_session io dev req path offset)\<rparr> \<and>
      r = toResponse s (upload_session io dev req path offset))"
proof -
  let ?off = "case fs (path @ ''.part'') of None \<Rightarrow> 0 | Some b \<Rightarrow> int (length b)"
  let ?offset = "if ?off > up_FileSize req \<and> up_FileSize req > 0 then up_FileSize req else ?off"
  let ?sess = "upload_session io dev req path ?offset"
  have g: "dev \<noteq> []" "up_FileName req \<noteq> []" "up_FileSize req > 0" "mkdir_ok io" "stat_ok io"
    "\<not> (fs (path @ ''.part'') = None \<and> \<not> create_ok io)"
    using assms(1) by (auto simp: PrepareUpload_def Let_def path_def split: if_splits)
  then have "PrepareUpload io dev req s fs =
      (Inr (toResponse (s\<lparr>sessions := (sessions s)(sess_ID ?sess \<mapsto> ?sess)\<rparr>) ?sess),
       s\<lparr>sessions := (sessions s)(sess_ID ?sess \<mapsto> ?sess)\<rparr>,
       if fs (path @ ''.part'') = None then fs(path @ ''.part'' \<mapsto> []) else fs)"
    unfolding PrepareUpload_def Let_def path_def by (simp only: if_False if_True not_le simp_thms) simp
  moreover have "sess_ID ?sess = newID ''up'' (random io 0) (clock io 1)"
    "toResponse (s\<lparr>sessions := m\<rparr>) x = toResponse s x" for m x
    by (simp_all add: upload_session_def Let_def toResponse_def)
  moreover have "0 \<le> ?offset" "?offset \<le> up_FileSize req" using g(3) by (auto split: option.splits)
  ultimately show ?thesis using g assms(1) by (intro conjI exI [of _ ?offset]) auto
qed

lemma upload_session_fields [simp]:
  "sess_ID (upload_session io dev req path off) = newID ''up'' (random io 0) (clock io 1)"
  "sess_Token (upload_session io dev req path off) = newToken (random io 1) (clock io 2)"
  "sess_DeviceID (upload_session io dev req path off) = dev"
  "sess_FileID (upload_session io dev req path off) = up_FileID req"
  "sess_LogicalPath (upload_session io dev req path off) =
     (if up_LogicalPath req = [] then Base (up_FileName req) else up_LogicalPath req)"
  "sess_FileName (upload_session io dev req path off) = Base (up_FileName req)"
  "sess_FileSize (upload_session io dev req path off) = up_FileSize req"
  "sess_Direction (upload_session io dev req path off) = DirectionUpload"
  "sess_TempPath (upload_session io dev req path off) = path @ ''.part''"
  "sess_FinalPath (upload_session io dev req path off) = path"
  by (simp_all add: upload_session_def Let_def)

lemma toResponse_ids [simp]:
  "resp_SessionID (toResponse s x) = sess_ID x" "resp_Token (toResponse s x) = sess_Token x"
  "resp_FileSize (toResponse s x) = sess_FileSize x" "resp_FileName (toResponse s x) = sess_FileName x"
  "resp_ChunkSize (toResponse s x) = chunkSize s"
  by (simp_all add: toResponse_def)

lemma complete_fields [simp]:
  "sess_ID (complete now x) = sess_ID x" "sess_Token (complete now x) = sess_Token x"
  "sess_DeviceID (complete now x) = sess_DeviceID x" "sess_FileID (complete now x) = sess_FileID x"
  "sess_LogicalPath (complete now x) = sess_LogicalPath x" "sess_FileName (complete now x) = sess_FileName x"
  "sess_FileSize (complete now x) = sess_FileSize x" "sess_Direction (complete now x) = sess_Direction x"
  "sess_TempPath (complete now x) = sess_TempPath x" "sess_FinalPath (complete now x) = sess_FinalPath x"
  "sess_Status (complete now x) = SessionCompleted" "sess_BytesDone (complete now x) = sess_FileSize x"
  by (simp_all add: complete_def)

lemma PrepareUpload_session:
  assumes "PrepareUpload io dev req s fs = (Inr r, s', fs')"
  defines "path \<equiv> upload_path s dev (Base (up_FileName req)) (clock io 0)"
  obtains off where "resp_SessionID r = newID ''up'' (random io 0) (clock io 1)"
    "resp_Token r = newToken (random io 1) (clock io 2)"
    "s' = s\<lparr>sessions := (sessions s)(resp_SessionID r \<mapsto> upload_session io dev req path off)\<rparr>"
    "fs' = (if fs (path @ ''.part'') = None then fs(path @ ''.part'' \<mapsto> []) else fs)"
    "dev \<noteq> []" "up_FileName req \<noteq> []" "0 < up_FileSize req" "0 \<le> off" "off \<le> up_FileSize req"
    "r = toResponse s (upload_session io dev req path off)"
  using PrepareUpload_success [OF assms(1), folded path_def] by auto

lemma upload_path_plain:
  assumes "storageDir s = Join cs ''/''" "cs \<noteq> []" "\<forall>c\<in>set cs. plain_elem c" "plain_elem dev"
    and "CHR ''/'' \<notin> set name"
  shows "upload_path s dev name now =
    storageDir s @ ''/'' @ dev @ ''/'' @ show_int (now div second) @ ''_'' @ name"
proof -
  let ?f = "show_int (now div second) @ ''_'' @ name"
  have "JoinPath (Join cs ''/'' # [dev, ?f]) = Join (cs @ [dev, ?f]) ''/''"
    using assms stored_name_plain [OF assms(5)] by (intro JoinPath_plain) auto
  also have "Join (cs @ [dev, ?f]) ''/'' = Join cs ''/'' @ ''/'' @ dev @ ''/'' @ ?f"
    using Join_append_elem [of "cs @ [dev]" ?f "''/''"] Join_append_elem [of cs dev "''/''"] assms(2) by simp
  finally show ?thesis by (simp add: upload_path_def assms(1))
qed


text \<open>A request with a fixed environment, used to instantiate the properties.\<close>

definition sample_io :: backup_io where
  "sample_io = \<lparr>mkdir_ok = True, stat_ok = True, create_ok = True, rename_ok = (\<lambda>_. True),
     clock = (\<lambda>i. 5 * second), random = (\<lambda>i. Some [of_nat i]), auto_id = 1\<rparr>"

definition sample_service :: BackupService where
  "sample_service = \<lparr>storageDir = ''backups'', chunkSize = 2, tcpHost = ''h'', tcpPort = 1,
     sessions = (\<lambda>_. None), has_versions = True\<rparr>"

definition sample_request :: BackupUploadInitRequest where
  "sample_request = \<lparr>up_FileName = ''a.txt'', up_FileSize = 3, up_Checksum = [], up_LogicalPath = ''/home/a.txt'',
     up_FileID = ''f1''\<rparr>"

lemma sample_names:
  "plain_elem ''backups''" "plain_elem ''d''" "Base (up_FileName sample_request) = ''a.txt''"
  "show_int 5 = ''5''" "Join [''backups''] ''/'' = ''backups''"
proof -
  show "Base (up_FileName sample_request) = ''a.txt''"
    by (simp add: sample_request_def Base_plain)
  show "show_int 5 = ''5''" by (simp add: show_int_def show_nat.simps [of 5] digit_def hex_digits_def)
qed (simp_all add: plain_elem_def)

lemma sample_upload:
  assumes "dev \<noteq> []"
  shows "\<exists>r s' fs'. PrepareUpload sample_io dev sample_request sample_service (\<lambda>_. None) = (Inr r, s', fs')"
  using assms by (simp add: PrepareUpload_def Let_def sample_io_def sample_request_def)


text \<open>
  A device that logs in under the id \<open>..\<close> stores its uploads outside the storage directory, in the
  parent of it: the device id is not checked before it becomes a path element.
\<close>
theorem dotdot_device_escapes_storage:
  assumes run: "PrepareUpload io ''..'' req s fs = (Inr r, s', fs')"
    and storage: "storageDir s = Join (cs @ [c]) ''/''" "\<forall>x\<in>set (cs @ [c]). plain_elem x"
    and name: "Base (up_FileName req) \<noteq> ''/''"
  shows "\<exists>sess name. sessions s' (resp_SessionID r) = Some sess \<and>
    sess_FinalPath sess = Join (cs @ [name]) ''/'' \<and> CHR ''/'' \<notin> set name"
proof -
  let ?n = "show_int (clock io 0 div second) @ ''_'' @ Base (up_FileName req)"
  let ?path = "upload_path s ''..'' (Base (up_FileName req)) (clock io 0)"
  obtain off where id: "s' = s\<lparr>sessions := (sessions s)(resp_SessionID r \<mapsto> upload_session io ''..'' req ?path off)\<rparr>"
    and "up_FileName req \<noteq> []"
    using run by (rule PrepareUpload_session)
  then have base: "CHR ''/'' \<notin> set (Base (up_FileName req))" using name by (intro Base_no_slash)
  have plain: "plain_elem ?n" by (rule stored_name_plain [OF base])
  have ne: "Join (cs @ [c]) ''/'' \<noteq> []" using storage(2) Join_eq_Nil [of "cs @ [c]"] by (auto simp: plain_elem_def)
  have "Join [Join (cs @ [c]) ''/'', ''..'', ?n] ''/'' = Join (cs @ [c, ''..'', ?n]) ''/''"
    using Join_nest [of "cs @ [c]" "[''..'', ?n]" "''/''"] by simp
  then have "?path = Clean (Join (cs @ [c, ''..'', ?n]) ''/'')"
    using ne by (simp add: upload_path_def JoinPath_def Let_def storage(1))
  also have "\<dots> = Join (cs @ [?n]) ''/''" using storage(2) plain by (intro Clean_dotdot) auto
  finally have "?path = Join (cs @ [?n]) ''/''" .
  moreover have "CHR ''/'' \<notin> set ?n" using plain by (rule plain_elem_no_slash)
  ultimately show ?thesis
    using id by (intro exI [of _ "upload_session io ''..'' req ?path off"] exI [of _ ?n]) simp
qed

theorem dotdot_device_escapes_storage_witness:
  "\<exists>r s' fs' sess name.
     PrepareUpload sample_io ''..'' sample_request sample_service (\<lambda>_. None) = (Inr r, s', fs') \<and>
     sessions s' (resp_SessionID r) = Some sess \<and> sess_FinalPath sess = name \<and> CHR ''/'' \<notin> set name"
proof -
  obtain r s' fs' where run: "PrepareUpload sample_io ''..'' sample_request sample_service (\<lambda>_. None) = (Inr r, s', fs')"
    using sample_upload [of "''..''"] by blast
  have st: "storageDir sample_service = Join ([] @ [''backups'']) ''/''" by (simp add: sample_service_def)
  have "Base (up_FileName sample_request) \<noteq> ''/''" unfolding sample_names by simp
  then show ?thesis
    using dotdot_device_escapes_storage [OF run st] run sample_names(1) by fastforce
qed

subsection \<open>Finishing an upload\<close>

lemma Rename_Some:
  "Rename ok src dst fs = Some fs' \<longleftrightarrow> (\<exists>b. ok \<and> fs src = Some b \<and> fs' = (fs(src := None))(dst \<mapsto> b))"
  by (auto simp: Rename_def split: option.splits)

lemma HasSuffix_append [simp]: "HasSuffix (a @ s) s"
  by (simp add: HasSuffix_def)

lemma part_not_path [simp]: "\<not> HasSuffix (p @ ''.part'') ''.path''"
  by (simp add: HasSuffix_def)

lemma FinalizeUpload_cases:
  assumes "FinalizeUpload db io i s fs t = (None, s', fs', t')"
  obtains sess where "sessions s i = Some sess" "sess_Direction sess = DirectionUpload"
    "sess_TempPath sess \<noteq> []" "rename_temp io sess fs = Some fs'"
    "s' = s\<lparr>sessions := (sessions s)(i \<mapsto> complete (clock io 0) sess)\<rparr>"
    "if has_versions s \<and> sess_LogicalPath sess \<noteq> [] then
       \<exists>n. NextVersion db (sess_DeviceID sess) (sess_LogicalPath sess) t = Inr n \<and>
           Create db (auto_id io) (clock io 1) (new_version sess n) t = Inr t'
     else t' = t"
proof -
  have nv: "new_version (complete now x) n = new_version x n" for now x n by (simp add: new_version_def)
  show ?thesis
    using assms that unfolding FinalizeUpload_def Let_def
    by (auto simp: nv split: option.splits if_splits sum.splits)
qed

lemma rename_temp_plain:
  assumes "rename_temp io sess fs = Some fs'" "fs (sess_TempPath sess) = Some b" "rename_ok io 0"
  shows "fs' = (fs(sess_TempPath sess := None))(sess_FinalPath sess \<mapsto> b)"
  using assms by (simp add: rename_temp_def Rename_def)

lemma FinalizeUpload_succeeds:
  assumes "gorm_reliable db" "sessions s i = Some sess" "sess_Direction sess = DirectionUpload"
    "sess_TempPath sess \<noteq> []" "fs (sess_TempPath sess) \<noteq> None" "rename_ok io 0"
  shows "\<exists>s' fs' t'. FinalizeUpload db io i s fs t = (None, s', fs', t')"
proof -
  obtain rows where "g_find db (same_file (sess_DeviceID sess) (sess_LogicalPath sess)) t = Inr rows"
    using assms(1) by (rule gorm_findE)
  then show ?thesis
    using assms by (auto simp: FinalizeUpload_def rename_temp_def Rename_def NextVersion_def Create_def
        gorm_exec_reliable Let_def split: option.splits)
qed

lemma finalize_effect:
  assumes db: "gorm_sound db"
    and run: "FinalizeUpload db io i s fs t = (None, s', fs', t')"
    and sess: "sessions s i = Some sess" and temp: "fs (sess_TempPath sess) = Some content" "rename_ok io 0"
    and ver: "has_versions s" "sess_LogicalPath sess \<noteq> []"
    and hist: "\<And>d p. gapless (history d p t)"
  shows "fs' = (fs(sess_TempPath sess := None))(sess_FinalPath sess \<mapsto> content) \<and>
    sessions s' i = Some (complete (clock io 0) sess) \<and>
    (\<exists>row. t' = t @ [row] \<and> VSize row = sess_FileSize sess \<and> VStoredName row = Base (sess_FinalPath sess)) \<and>
    history (sess_DeviceID sess) (sess_LogicalPath sess) t' =
      history (sess_DeviceID sess) (sess_LogicalPath sess) t @
        [int (length (history (sess_DeviceID sess) (sess_LogicalPath sess) t)) + 1] \<and>
    (\<forall>d p. gapless (history d p t'))"
proof -
  let ?d = "sess_DeviceID sess" and ?p = "sess_LogicalPath sess"
  obtain n where ren: "rename_temp io sess fs = Some fs'"
    and s': "s' = s\<lparr>sessions := (sessions s)(i \<mapsto> complete (clock io 0) sess)\<rparr>"
    and n: "NextVersion db ?d ?p t = Inr n"
    and c: "Create db (auto_id io) (clock io 1) (new_version sess n) t = Inr t'"
    using run by (rule FinalizeUpload_cases) (use sess ver in auto)
  have store: "version_store (NextVersion db) (Create db)" by (rule repository_is_version_store [OF db])
  have "history ?d ?p t' = history ?d ?p t @ [n]" "\<And>d p. gapless (history d p t')"
    using version_store.record_next [OF store hist n c] by (simp_all add: new_version_def)
  moreover have "n = int (length (history ?d ?p t)) + 1"
    by (rule version_store.next_gapless [OF store hist n])
  moreover have "t' = t @ [(new_version sess n)\<lparr>VID := auto_id io, VCreatedAt := clock io 1\<rparr>]"
    by (rule version_store.create_appends [OF store c])
  then have "\<exists>row. t' = t @ [row] \<and> VSize row = sess_FileSize sess \<and> VStoredName row = Base (sess_FinalPath sess)"
    by (simp add: new_version_def)
  ultimately show ?thesis
    using rename_temp_plain [OF ren temp] by (simp add: s')
qed

text \<open>
  C13: when \<open>FinalizeUpload\<close> reports success and the temporary file could be renamed, the session's
  final file holds exactly what was written to the temporary file, the temporary file is gone, every
  other file is unchanged, one row with the announced size is added to the version table, and the version history of that device and path, gapless before, is one longer and
  gapless after: its new number is one more than the number of versions before.
\<close>
theorem finalize_appends_next_version:
  assumes db: "gorm_sound db"
    and run: "FinalizeUpload db io i s fs t = (None, s', fs', t')"
    and sess: "sessions s i = Some sess" and temp: "fs (sess_TempPath sess) = Some content" "rename_ok io 0"
    and ver: "has_versions s" "sess_LogicalPath sess \<noteq> []"
    and hist: "\<And>d p. gapless (history d p t)"
  shows "fs' = (fs(sess_TempPath sess := None))(sess_FinalPath sess \<mapsto> content) \<and>
    sessions s' i = Some (complete (clock io 0) sess) \<and>
    (\<exists>row. t' = t @ [row] \<and> VSize row = sess_FileSize sess \<and> VStoredName row = Base (sess_FinalPath sess)) \<and>
    history (sess_DeviceID sess) (sess_LogicalPath sess) t' =
      history (sess_DeviceID sess) (sess_LogicalPath sess) t @
        [int (length (history (sess_DeviceID sess) (sess_LogicalPath sess) t)) + 1] \<and>
    (\<forall>d p. gapless (history d p t'))"
  by (rule finalize_effect [OF db run sess temp ver hist])

theorem finalize_appends_next_version_witness:
  "\<exists>s' fs' t'. FinalizeUpload memory_gorm sample_io ''u''
       (sample_service\<lparr>sessions := [''u'' \<mapsto> upload_session sample_io ''d'' sample_request ''x'' 0]\<rparr>)
       [''x.part'' \<mapsto> [7, 8]] [] = (None, s', fs', t') \<and>
     fs' ''x'' = Some [7, 8] \<and> history ''d'' ''/home/a.txt'' t' = [1]"
proof -
  let ?sess = "upload_session sample_io ''d'' sample_request ''x'' 0"
  let ?s = "sample_service\<lparr>sessions := [''u'' \<mapsto> ?sess]\<rparr>"
  let ?fs = "[''x.part'' \<mapsto> [7, 8]] :: files"
  obtain s' fs' t' where run: "FinalizeUpload memory_gorm sample_io ''u'' ?s ?fs [] = (None, s', fs', t')"
    using FinalizeUpload_succeeds [of memory_gorm ?s "''u''" ?sess ?fs sample_io "[]"]
    by (auto simp: sample_io_def)
  have "fs' = (?fs(sess_TempPath ?sess := None))(sess_FinalPath ?sess \<mapsto> [7, 8]) \<and>
    sessions s' ''u'' = Some (complete (clock sample_io 0) ?sess) \<and>
    (\<exists>row. t' = [] @ [row] \<and> VSize row = sess_FileSize ?sess \<and> VStoredName row = Base (sess_FinalPath ?sess)) \<and>
    history (sess_DeviceID ?sess) (sess_LogicalPath ?sess) t' =
      history (sess_DeviceID ?sess) (sess_LogicalPath ?sess) [] @
        [int (length (history (sess_DeviceID ?sess) (sess_LogicalPath ?sess) [])) + 1] \<and>
    (\<forall>d p. gapless (history d p t'))"
    by (rule finalize_appends_next_version [OF _ run])
      (simp_all add: sample_io_def sample_service_def sample_request_def history_def gapless_def)
  with run show ?thesis by (auto simp: sample_request_def history_def)
qed



end
