(* ===== verification/Protocol.thy ===== *)
theory Protocol
  imports Prelude
begin

text \<open>
  The binary protocol of \<open>network/\<close>: the frame encoders and the decoder of
  \<open>protocol_message.c\<close>, the Go view of a decoded frame (\<open>types.go\<close>) and the Go client methods
  that call the encoders (\<open>client.go\<close>).  A send yields the bytes it puts on the wire, or
  nothing when the C function returns an error; a receive consumes a prefix of the stream.
\<close>

type_synonym bytes = "byte list"

subsection \<open>Constants of protocol.h\<close>

definition MSG_LOGIN :: byte where "MSG_LOGIN = 0x01"
definition MSG_COMMAND :: byte where "MSG_COMMAND = 0x02"
definition MSG_FILE_META :: byte where "MSG_FILE_META = 0x03"
definition MSG_FILE_CHUNK :: byte where "MSG_FILE_CHUNK = 0x04"
definition MSG_FILE_DONE :: byte where "MSG_FILE_DONE = 0x05"
definition MSG_ACK :: byte where "MSG_ACK = 0x06"
definition MSG_ERROR :: byte where "MSG_ERROR = 0x7F"

lemmas msg_types = MSG_LOGIN_def MSG_COMMAND_def MSG_FILE_META_def MSG_FILE_CHUNK_def
  MSG_FILE_DONE_def MSG_ACK_def MSG_ERROR_def

definition PROTOCOL_MAX_PAYLOAD :: nat where "PROTOCOL_MAX_PAYLOAD = 1048576"
definition PROTOCOL_MAX_DEVICE_ID :: nat where "PROTOCOL_MAX_DEVICE_ID = 255"
definition PROTOCOL_MAX_TOKEN :: nat where "PROTOCOL_MAX_TOKEN = 1024"
definition PROTOCOL_MAX_SESSION :: nat where "PROTOCOL_MAX_SESSION = 128"
definition PROTOCOL_MAX_FILENAME :: nat where "PROTOCOL_MAX_FILENAME = 512"
definition PROTOCOL_MAX_MESSAGE :: nat where "PROTOCOL_MAX_MESSAGE = 4096"

lemmas protocol_limits = PROTOCOL_MAX_PAYLOAD_def PROTOCOL_MAX_DEVICE_ID_def PROTOCOL_MAX_TOKEN_def
  PROTOCOL_MAX_SESSION_def PROTOCOL_MAX_FILENAME_def PROTOCOL_MAX_MESSAGE_def

subsection \<open>Network byte order\<close>

text \<open>A number too large for the field is cut to its low bytes, as the C casts do.\<close>

definition be16 :: "nat \<Rightarrow> bytes" where
  "be16 n = [of_nat (n div 256), of_nat n]"

definition be32 :: "nat \<Rightarrow> bytes" where
  "be32 n = [of_nat (n div 16777216), of_nat (n div 65536), of_nat (n div 256), of_nat n]"

definition be64 :: "nat \<Rightarrow> bytes" where
  "be64 n = be32 (n div 4294967296) @ be32 n"

definition from_be :: "bytes \<Rightarrow> nat" where
  "from_be bs = foldl (\<lambda>a b. a * 256 + unat b) 0 bs"

lemma unat_byte [simp]: "unat (of_nat n :: byte) = n mod 256"
  by (simp add: unat_of_nat)

lemma length_be [simp]: "length (be16 n) = 2" "length (be32 n) = 4" "length (be64 n) = 8"
  by (simp_all add: be16_def be32_def be64_def)

lemma from_be16 [simp]: "from_be (be16 n) = n mod 65536"
  using mod_mult2_eq [of n 256 256] by (simp add: from_be_def be16_def)

lemma from_be32 [simp]: "from_be (be32 n) = n mod 4294967296"
proof -
  have "n mod 4294967296 = 65536 * (n div 65536 mod 65536) + n mod 65536"
    using mod_mult2_eq [of n 65536 65536] by simp
  also have "n mod 65536 = 256 * (n div 256 mod 256) + n mod 256"
    using mod_mult2_eq [of n 256 256] by simp
  also have "n div 65536 mod 65536 = 256 * (n div 16777216 mod 256) + n div 65536 mod 256"
    using mod_mult2_eq [of "n div 65536" 256 256] by (simp add: div_mult2_eq [symmetric])
  finally show ?thesis by (simp add: from_be_def be32_def)
qed

lemma foldl_be: "foldl (\<lambda>a b. a * 256 + unat b) c bs = c * 256 ^ length bs + from_be bs" for bs :: bytes
proof (induction bs arbitrary: c)
  case Nil
  then show ?case by (simp add: from_be_def)
next
  case (Cons b bs)
  have "from_be (b # bs) = unat b * 256 ^ length bs + from_be bs"
    using Cons [of "unat b"] by (simp add: from_be_def)
  then show ?case using Cons [of "c * 256 + unat b"] by (simp add: algebra_simps)
qed

lemma from_be_append: "from_be (xs @ ys) = from_be xs * 256 ^ length ys + from_be ys"
  using foldl_be [of "from_be xs" ys] by (simp add: from_be_def)

lemma from_be64 [simp]: "from_be (be64 n) = n mod 18446744073709551616"
  using mod_mult2_eq [of n 4294967296 4294967296]
  by (simp add: be64_def from_be_append)

subsection \<open>Sending (protocol_message.c)\<close>

text \<open>A Go string handed to C ends at its first NUL byte (\<open>C.CString\<close>, \<open>strlen\<close>).\<close>

definition cstr :: "bytes \<Rightarrow> bytes" where
  "cstr s = takeWhile (\<lambda>b. b \<noteq> 0) s"

definition protocol_send_frame :: "byte \<Rightarrow> bytes \<Rightarrow> bytes option" where
  "protocol_send_frame ty payload =
     (if length payload > PROTOCOL_MAX_PAYLOAD then None
      else Some (ty # be32 (length payload) @ payload))"

definition protocol_send_login :: "bytes \<Rightarrow> bytes \<Rightarrow> bytes option" where
  "protocol_send_login device_id token =
     (let dev = cstr device_id; tok = cstr token
      in if length dev = 0 \<or> length dev > PROTOCOL_MAX_DEVICE_ID then None
         else if length tok = 0 \<or> length tok > PROTOCOL_MAX_TOKEN then None
         else protocol_send_frame MSG_LOGIN
                (of_nat (length dev) # be16 (length tok) @ dev @ tok))"

definition protocol_send_command :: "bytes \<Rightarrow> bytes option" where
  "protocol_send_command json =
     (if length json = 0 \<or> length json > PROTOCOL_MAX_PAYLOAD then None
      else protocol_send_frame MSG_COMMAND json)"

definition protocol_send_file_meta :: "bytes \<Rightarrow> 64 word \<Rightarrow> bytes option" where
  "protocol_send_file_meta file_name file_size =
     (let name = cstr file_name
      in if length name = 0 \<or> length name > PROTOCOL_MAX_FILENAME then None
         else protocol_send_frame MSG_FILE_META (be16 (length name) @ be64 (unat file_size) @ name))"

definition protocol_send_file_chunk :: "bytes \<Rightarrow> bytes \<Rightarrow> 32 word \<Rightarrow> bytes \<Rightarrow> bytes option" where
  "protocol_send_file_chunk session_id token offset chunk =
     (let sid = cstr session_id; tok = cstr token
      in if length chunk = 0 \<or> length chunk > PROTOCOL_MAX_PAYLOAD then None
         else if length sid > PROTOCOL_MAX_SESSION \<or> length tok > PROTOCOL_MAX_TOKEN then None
         else protocol_send_frame MSG_FILE_CHUNK
                ([of_nat (length sid), of_nat (length tok)] @ sid @ tok @
                 be32 (unat offset) @ be32 (length chunk) @ chunk))"

definition protocol_send_file_done :: "bytes \<Rightarrow> bytes \<Rightarrow> bytes option" where
  "protocol_send_file_done session_id token =
     (let sid = cstr session_id; tok = cstr token
      in if length sid > PROTOCOL_MAX_SESSION \<or> length tok > PROTOCOL_MAX_TOKEN then None
         else protocol_send_frame MSG_FILE_DONE
                ([of_nat (length sid), of_nat (length tok)] @ sid @ tok))"

definition protocol_send_ack :: "16 word \<Rightarrow> bytes \<Rightarrow> bytes option" where
  "protocol_send_ack status_code msg_text =
     (let m = cstr msg_text
      in if length m > PROTOCOL_MAX_MESSAGE then None
         else protocol_send_frame MSG_ACK (be16 (unat status_code) @ be16 (length m) @ m))"

subsection \<open>Receiving (protocol_message.c)\<close>

record protocol_message_t =
  c_type :: byte
  c_data :: bytes
  c_device_id :: bytes
  c_token :: bytes
  c_session_id :: bytes
  c_file_name :: bytes
  c_file_size :: "64 word"
  c_chunk_offset :: "32 word"
  c_chunk_len :: "32 word"
  c_status_code :: "16 word"
  c_status_msg :: bytes

definition zero_message :: "byte \<Rightarrow> bytes \<Rightarrow> protocol_message_t" where
  "zero_message ty data =
     \<lparr>c_type = ty, c_data = data, c_device_id = [], c_token = [], c_session_id = [],
      c_file_name = [], c_file_size = 0, c_chunk_offset = 0, c_chunk_len = 0,
      c_status_code = 0, c_status_msg = []\<rparr>"

definition slice :: "nat \<Rightarrow> nat \<Rightarrow> bytes \<Rightarrow> bytes" where
  "slice pos n p = take n (drop pos p)"

definition decode_login :: "bytes \<Rightarrow> protocol_message_t \<Rightarrow> protocol_message_t" where
  "decode_login p m =
     (if length p < 3 then m
      else let dev_len = unat (p ! 0); token_len = from_be (slice 1 2 p)
           in if length p < 3 + dev_len + token_len then m
              else if dev_len > PROTOCOL_MAX_DEVICE_ID \<or> token_len > PROTOCOL_MAX_TOKEN then m
              else m\<lparr>c_device_id := slice 3 dev_len p, c_token := slice (3 + dev_len) token_len p\<rparr>)"

definition decode_file_meta :: "bytes \<Rightarrow> protocol_message_t \<Rightarrow> protocol_message_t" where
  "decode_file_meta p m =
     (if length p < 2 + 8 then m
      else let name_len = from_be (slice 0 2 p)
           in if name_len > PROTOCOL_MAX_FILENAME then m
              else if length p < 2 + 8 + name_len then m
              else m\<lparr>c_file_size := of_nat (from_be (slice 2 8 p)),
                     c_file_name := slice 10 name_len p\<rparr>)"

definition decode_file_chunk :: "bytes \<Rightarrow> protocol_message_t \<Rightarrow> protocol_message_t" where
  "decode_file_chunk p m =
     (if length p < 2 then m
      else let sid_len = unat (p ! 0); tok_len = unat (p ! 1); pos = 2 + sid_len + tok_len
           in if sid_len > PROTOCOL_MAX_SESSION \<or> tok_len > PROTOCOL_MAX_TOKEN then m
              else if length p < pos + 8 then m
              else m\<lparr>c_session_id := slice 2 sid_len p, c_token := slice (2 + sid_len) tok_len p,
                     c_chunk_offset := of_nat (from_be (slice pos 4 p)),
                     c_chunk_len := of_nat (from_be (slice (pos + 4) 4 p))\<rparr>)"

definition decode_file_done :: "bytes \<Rightarrow> protocol_message_t \<Rightarrow> protocol_message_t" where
  "decode_file_done p m =
     (if length p < 2 then m
      else let sid_len = unat (p ! 0); tok_len = unat (p ! 1)
           in if sid_len > PROTOCOL_MAX_SESSION \<or> tok_len > PROTOCOL_MAX_TOKEN then m
              else if length p < 2 + sid_len + tok_len then m
              else m\<lparr>c_session_id := slice 2 sid_len p, c_token := slice (2 + sid_len) tok_len p\<rparr>)"

text \<open>The status code is stored before the message length is checked.\<close>

definition decode_ack :: "bytes \<Rightarrow> protocol_message_t \<Rightarrow> protocol_message_t" where
  "decode_ack p m =
     (if length p < 4 then m
      else let m1 = m\<lparr>c_status_code := of_nat (from_be (slice 0 2 p))\<rparr>;
               mlen = from_be (slice 2 2 p)
           in if mlen > PROTOCOL_MAX_MESSAGE then m1
              else if length p < 4 + mlen then m1
              else m1\<lparr>c_status_msg := slice 4 mlen p\<rparr>)"

definition decode_payload :: "byte \<Rightarrow> bytes \<Rightarrow> protocol_message_t" where
  "decode_payload ty p =
     (let m = zero_message ty p
      in if ty = MSG_LOGIN then decode_login p m
         else if ty = MSG_FILE_META then decode_file_meta p m
         else if ty = MSG_FILE_CHUNK then decode_file_chunk p m
         else if ty = MSG_FILE_DONE then decode_file_done p m
         else if ty = MSG_ACK \<or> ty = MSG_ERROR then decode_ack p m
         else m)"

definition protocol_recv_message :: "bytes \<Rightarrow> (protocol_message_t \<times> bytes) option" where
  "protocol_recv_message s =
     (if length s < 5 then None
      else let payload_len = from_be (slice 1 4 s)
           in if payload_len > PROTOCOL_MAX_PAYLOAD then None
              else if length s < 5 + payload_len then None
              else Some (decode_payload (s ! 0) (slice 5 payload_len s), drop (5 + payload_len) s))"

subsection \<open>The Go view of a frame (types.go)\<close>

record ProtocolMessage =
  Type :: byte
  Raw :: bytes
  DeviceID :: bytes
  Token :: bytes
  SessionID :: bytes
  CommandJSON :: bytes
  FileName :: bytes
  FileSize :: "64 word"
  ChunkOffset :: "32 word"
  ChunkLen :: "32 word"
  ChunkData :: "bytes option"
  StatusCode :: "16 word"
  StatusMsg :: bytes

definition convertProtocolMessage :: "protocol_message_t \<Rightarrow> ProtocolMessage" where
  "convertProtocolMessage m =
     (let raw = c_data m;
          pm = \<lparr>Type = c_type m, Raw = raw, DeviceID = cstr (c_device_id m),
                Token = cstr (c_token m), SessionID = cstr (c_session_id m), CommandJSON = [],
                FileName = cstr (c_file_name m), FileSize = c_file_size m,
                ChunkOffset = c_chunk_offset m, ChunkLen = c_chunk_len m, ChunkData = None,
                StatusCode = c_status_code m, StatusMsg = cstr (c_status_msg m)\<rparr>
      in if c_type m = MSG_COMMAND then pm\<lparr>CommandJSON := raw\<rparr>
         else if c_type m = MSG_FILE_CHUNK \<and> length raw \<ge> 2 then
           (let pos = 2 + unat (raw ! 0) + unat (raw ! 1) + 8
            in if pos \<le> length raw then pm\<lparr>ChunkData := Some (drop pos raw)\<rparr> else pm)
         else pm)"

definition recv_go :: "bytes \<Rightarrow> (ProtocolMessage \<times> bytes) option" where
  "recv_go s =
     map_option (\<lambda>(m, rest). (convertProtocolMessage m, rest)) (protocol_recv_message s)"

subsection \<open>The Go client (client.go)\<close>

text \<open>
  A client is a socket number; \<open>INVALID_SOCKET\<close> marks a closed one and \<open>None\<close> is the nil pointer.
  The system calls are arguments: what \<open>tcp_client_connect\<close> returns, whether \<open>tcp_close\<close>
  succeeds, whether \<open>tcp_send_all\<close> delivers a frame, what \<open>tcp_recv\<close> yields.
\<close>

definition INVALID_SOCKET :: int where "INVALID_SOCKET = -1"

record TCPClient =
  fd :: int

datatype net_error =
    InvalidHostOrPort | ConnectFailed | ClientNotOpen | CloseFailed | SendFailed | RecvFailed
  | EmptyPayload | SendLoginFailed | SendCommandFailed | SendFileMetaFailed | SendFileChunkFailed
  | SendFileDoneFailed | SendAckFailed | RecvMessageFailed

definition DialTCP :: "(string \<Rightarrow> int \<Rightarrow> int) \<Rightarrow> string \<Rightarrow> int \<Rightarrow> (net_error, TCPClient) res" where
  "DialTCP tcp_client_connect host port =
     (if host = [] \<or> port \<le> 0 then Inl InvalidHostOrPort
      else let s = tcp_client_connect host port
           in if s = INVALID_SOCKET then Inl ConnectFailed else Inr \<lparr>fd = s\<rparr>)"

definition IsOpen :: "TCPClient option \<Rightarrow> bool" where
  "IsOpen c = (case c of None \<Rightarrow> False | Some cl \<Rightarrow> fd cl \<noteq> INVALID_SOCKET)"

definition Equal :: "TCPClient option \<Rightarrow> TCPClient option \<Rightarrow> bool" where
  "Equal c other = (case (c, other) of (Some a, Some b) \<Rightarrow> fd a = fd b | _ \<Rightarrow> False)"

definition Close :: "bool \<Rightarrow> TCPClient option \<Rightarrow> net_error option \<times> TCPClient option" where
  "Close tcp_close_ok c =
     (if \<not> IsOpen c then (Some ClientNotOpen, c)
      else if \<not> tcp_close_ok then (Some CloseFailed, c)
      else (None, map_option (fd_update (\<lambda>_. INVALID_SOCKET)) c))"

definition Write :: "(bytes \<Rightarrow> int) \<Rightarrow> TCPClient option \<Rightarrow> bytes \<Rightarrow> (net_error, int) res" where
  "Write tcp_send c data =
     (if \<not> IsOpen c then Inl ClientNotOpen
      else if length data = 0 then Inr 0
      else let written = tcp_send data in if written < 0 then Inl SendFailed else Inr written)"

text \<open>One \<open>tcp_recv\<close> returns at most the number of bytes it is given room for.\<close>

definition Read :: "(nat \<Rightarrow> bytes option) \<Rightarrow> TCPClient option \<Rightarrow> nat \<Rightarrow> (net_error, bytes) res" where
  "Read tcp_recv c buf_len =
     (if \<not> IsOpen c then Inl ClientNotOpen
      else if buf_len = 0 then Inr []
      else case tcp_recv buf_len of None \<Rightarrow> Inl RecvFailed | Some bs \<Rightarrow> Inr (take buf_len bs))"

text \<open>
  The \<open>i\<close>th call of \<open>tcp_recv\<close> is \<open>tcp_recv i\<close>.  The result is the bytes read so far and the
  error, if there was one.
\<close>

function ReadFull_from ::
    "(nat \<Rightarrow> nat \<Rightarrow> bytes option) \<Rightarrow> TCPClient option \<Rightarrow> nat \<Rightarrow> nat \<Rightarrow> bytes \<Rightarrow> bytes \<times> net_error option" where
  "ReadFull_from tcp_recv c i buf_len got =
     (if length got < buf_len then
        (case Read (tcp_recv i) c (buf_len - length got) of
           Inl e \<Rightarrow> (got, Some e)
         | Inr bs \<Rightarrow> if bs = [] then (got, None) else ReadFull_from tcp_recv c (Suc i) buf_len (got @ bs))
      else (got, None))"
  by auto
termination
  by (relation "measure (\<lambda>(r, c, i, n, got). n - length got)")
    (auto simp: Read_def split: if_splits option.splits intro!: diff_less_mono2)

declare ReadFull_from.simps [simp del]

definition ReadFull ::
    "(nat \<Rightarrow> nat \<Rightarrow> bytes option) \<Rightarrow> TCPClient option \<Rightarrow> nat \<Rightarrow> bytes \<times> net_error option" where
  "ReadFull tcp_recv c buf_len = ReadFull_from tcp_recv c 0 buf_len []"

definition send_via :: "bool \<Rightarrow> net_error \<Rightarrow> bytes option \<Rightarrow> (net_error, bytes) res" where
  "send_via sent e r = (case r of None \<Rightarrow> Inl e | Some bs \<Rightarrow> if sent then Inr bs else Inl e)"

definition SendLogin :: "bool \<Rightarrow> TCPClient option \<Rightarrow> bytes \<Rightarrow> bytes \<Rightarrow> (net_error, bytes) res" where
  "SendLogin sent c deviceID token =
     (if \<not> IsOpen c then Inl ClientNotOpen
      else send_via sent SendLoginFailed (protocol_send_login deviceID token))"

definition SendCommand :: "bool \<Rightarrow> TCPClient option \<Rightarrow> bytes \<Rightarrow> (net_error, bytes) res" where
  "SendCommand sent c jsonPayload =
     (if \<not> IsOpen c then Inl ClientNotOpen
      else if length jsonPayload = 0 then Inl EmptyPayload
      else send_via sent SendCommandFailed (protocol_send_command jsonPayload))"

definition SendFileMeta :: "bool \<Rightarrow> TCPClient option \<Rightarrow> bytes \<Rightarrow> 64 word \<Rightarrow> (net_error, bytes) res" where
  "SendFileMeta sent c name sz =
     (if \<not> IsOpen c then Inl ClientNotOpen
      else send_via sent SendFileMetaFailed (protocol_send_file_meta name sz))"

text \<open>An empty chunk is reported as sent without any byte on the wire.\<close>

definition SendFileChunkWithSession ::
    "bool \<Rightarrow> TCPClient option \<Rightarrow> bytes \<Rightarrow> bytes \<Rightarrow> 32 word \<Rightarrow> bytes \<Rightarrow> (net_error, bytes) res" where
  "SendFileChunkWithSession sent c sessionID token offset data =
     (if \<not> IsOpen c then Inl ClientNotOpen
      else if length data = 0 then Inr []
      else send_via sent SendFileChunkFailed (protocol_send_file_chunk sessionID token offset data))"

definition SendFileDoneWithSession ::
    "bool \<Rightarrow> TCPClient option \<Rightarrow> bytes \<Rightarrow> bytes \<Rightarrow> (net_error, bytes) res" where
  "SendFileDoneWithSession sent c sessionID token =
     (if \<not> IsOpen c then Inl ClientNotOpen
      else send_via sent SendFileDoneFailed (protocol_send_file_done sessionID token))"

definition SendAck :: "bool \<Rightarrow> TCPClient option \<Rightarrow> 16 word \<Rightarrow> bytes \<Rightarrow> (net_error, bytes) res" where
  "SendAck sent c code msg =
     (if \<not> IsOpen c then Inl ClientNotOpen
      else send_via sent SendAckFailed (protocol_send_ack code msg))"

text \<open>A receive reads the stream that is still to come; a stream cut short is an error.\<close>

definition RecvProtocolMessage ::
    "TCPClient option \<Rightarrow> bytes \<Rightarrow> (net_error, ProtocolMessage \<times> bytes) res" where
  "RecvProtocolMessage c s =
     (if \<not> IsOpen c then Inl ClientNotOpen
      else case recv_go s of None \<Rightarrow> Inl RecvMessageFailed | Some r \<Rightarrow> Inr r)"

subsection \<open>Frames and what the receiver makes of them\<close>

datatype frame =
    FLogin bytes bytes
  | FCommand bytes
  | FFileMeta bytes "64 word"
  | FFileChunk bytes bytes "32 word" bytes
  | FFileDone bytes bytes
  | FAck "16 word" bytes

fun send_frame :: "frame \<Rightarrow> bytes option" where
  "send_frame (FLogin d t) = protocol_send_login d t"
| "send_frame (FCommand j) = protocol_send_command j"
| "send_frame (FFileMeta n sz) = protocol_send_file_meta n sz"
| "send_frame (FFileChunk s t off d) = protocol_send_file_chunk s t off d"
| "send_frame (FFileDone s t) = protocol_send_file_done s t"
| "send_frame (FAck c m) = protocol_send_ack c m"

definition frame_view :: "ProtocolMessage \<Rightarrow> frame option" where
  "frame_view m =
     (if Type m = MSG_LOGIN then Some (FLogin (DeviceID m) (Token m))
      else if Type m = MSG_COMMAND then Some (FCommand (CommandJSON m))
      else if Type m = MSG_FILE_META then Some (FFileMeta (FileName m) (FileSize m))
      else if Type m = MSG_FILE_CHUNK then
        (case ChunkData m of
           None \<Rightarrow> None
         | Some d \<Rightarrow>
             if unat (ChunkLen m) = length d
             then Some (FFileChunk (SessionID m) (Token m) (ChunkOffset m) d) else None)
      else if Type m = MSG_FILE_DONE then Some (FFileDone (SessionID m) (Token m))
      else if Type m = MSG_ACK then Some (FAck (StatusCode m) (StatusMsg m))
      else None)"

definition recv_frame :: "bytes \<Rightarrow> (frame \<times> bytes) option" where
  "recv_frame s =
     (case recv_go s of
        None \<Rightarrow> None
      | Some (m, rest) \<Rightarrow> (case frame_view m of None \<Rightarrow> None | Some f \<Rightarrow> Some (f, rest)))"

definition nul_free :: "bytes \<Rightarrow> bool" where
  "nul_free s \<longleftrightarrow> 0 \<notin> set s"

text \<open>
  Strings that C can carry; the transfer frames store the token length in one byte.
\<close>

fun wire_frame :: "frame \<Rightarrow> bool" where
  "wire_frame (FLogin d t) = (nul_free d \<and> nul_free t)"
| "wire_frame (FCommand j) = True"
| "wire_frame (FFileMeta n sz) = nul_free n"
| "wire_frame (FFileChunk s t off d) = (nul_free s \<and> nul_free t \<and> length t < 256)"
| "wire_frame (FFileDone s t) = (nul_free s \<and> nul_free t \<and> length t < 256)"
| "wire_frame (FAck c m) = nul_free m"

subsection \<open>What the receiver makes of a sent frame\<close>

lemma cstr_id [simp]: "nul_free s \<Longrightarrow> cstr s = s"
  by (auto simp: cstr_def nul_free_def takeWhile_eq_all_conv)

lemma nul_free_cstr [simp]: "nul_free (cstr s)"
  by (auto simp: cstr_def nul_free_def dest: set_takeWhileD)

lemma length_cstr: "length (cstr s) \<le> length s"
  by (simp add: cstr_def length_takeWhile_le)

lemma slice_mid:
  "length xs = k \<Longrightarrow> length ys = n \<Longrightarrow> slice k n (xs @ ys @ zs) = ys"
  by (auto simp: slice_def)

lemma slice_end:
  "length xs = k \<Longrightarrow> length ys = n \<Longrightarrow> slice k n (xs @ ys) = ys"
  by (auto simp: slice_def)

lemma drop_at: "length xs = k \<Longrightarrow> drop k (xs @ ys) = ys"
  by auto

lemma recv_sent_frame:
  assumes "protocol_send_frame ty payload = Some bs"
  shows "protocol_recv_message (bs @ rest) = Some (decode_payload ty payload, rest)"
proof -
  let ?n = "length payload"
  have len: "?n \<le> 1048576" and bs: "bs = [ty] @ be32 ?n @ payload"
    using assms by (auto simp: protocol_send_frame_def PROTOCOL_MAX_PAYLOAD_def split: if_splits)
  have "slice 1 4 (bs @ rest) = be32 ?n"
    using slice_mid [of "[ty]" 1 "be32 ?n" 4 "payload @ rest"] by (simp add: bs)
  moreover have "slice 5 ?n (bs @ rest) = payload"
    using slice_mid [of "[ty] @ be32 ?n" 5 payload ?n rest] by (simp add: bs)
  moreover have "drop (5 + ?n) (bs @ rest) = rest"
    by (rule drop_at) (simp add: bs)
  moreover have "(bs @ rest) ! 0 = ty" by (simp add: bs)
  ultimately show ?thesis
    using len by (simp add: protocol_recv_message_def PROTOCOL_MAX_PAYLOAD_def bs Let_def)
qed

lemmas view_simps = decode_payload_def msg_types protocol_limits zero_message_def
  convertProtocolMessage_def frame_view_def Let_def

lemma view_login:
  assumes "nul_free d" "nul_free t" "length d \<le> 255" "length t \<le> 1024"
  shows "frame_view (convertProtocolMessage
           (decode_payload MSG_LOGIN (of_nat (length d) # be16 (length t) @ d @ t))) = Some (FLogin d t)"
    (is "frame_view (convertProtocolMessage (decode_payload _ ?p)) = _")
proof -
  have "slice 1 2 ?p = be16 (length t)"
    using slice_mid [of "[of_nat (length d)]" 1 "be16 (length t)" 2 "d @ t"] by simp
  moreover have "slice 3 (length d) ?p = d"
    using slice_mid [of "of_nat (length d) # be16 (length t)" 3 d "length d" t] by simp
  moreover have "slice (3 + length d) (length t) ?p = t"
    using slice_end [of "of_nat (length d) # be16 (length t) @ d" "3 + length d" t "length t"] by simp
  ultimately show ?thesis
    using assms by (simp add: view_simps decode_login_def)
qed

lemma view_file_meta:
  assumes "nul_free n" "length n \<le> 512"
  shows "frame_view (convertProtocolMessage
           (decode_payload MSG_FILE_META (be16 (length n) @ be64 (unat sz) @ n))) = Some (FFileMeta n sz)"
    (is "frame_view (convertProtocolMessage (decode_payload _ ?p)) = _")
proof -
  have "slice 0 2 ?p = be16 (length n)"
    using slice_mid [of "[]" 0 "be16 (length n)" 2 "be64 (unat sz) @ n"] by simp
  moreover have "slice 2 8 ?p = be64 (unat sz)"
    using slice_mid [of "be16 (length n)" 2 "be64 (unat sz)" 8 n] by simp
  moreover have "slice 10 (length n) ?p = n"
    using slice_end [of "be16 (length n) @ be64 (unat sz)" 10 n "length n"] by simp
  moreover have "unat sz mod 18446744073709551616 = unat sz"
    using unsigned_less [of sz, where ?'a = nat] by simp
  ultimately show ?thesis
    using assms by (simp add: view_simps decode_file_meta_def)
qed

lemma view_file_done:
  assumes "nul_free s" "nul_free t" "length s \<le> 128" "length t < 256"
  shows "frame_view (convertProtocolMessage
           (decode_payload MSG_FILE_DONE ([of_nat (length s), of_nat (length t)] @ s @ t))) =
         Some (FFileDone s t)"
    (is "frame_view (convertProtocolMessage (decode_payload _ ?p)) = _")
proof -
  have "slice 2 (length s) ?p = s"
    by (rule slice_mid) simp_all
  moreover have "slice (2 + length s) (length t) ?p = t"
    using slice_end [of "[of_nat (length s), of_nat (length t)] @ s" "2 + length s" t "length t"] by simp
  ultimately show ?thesis
    using assms by (simp add: view_simps decode_file_done_def)
qed

lemma view_file_chunk:
  assumes "nul_free s" "nul_free t" "length s \<le> 128" "length t < 256" "length d \<le> 1048576"
  shows "frame_view (convertProtocolMessage
           (decode_payload MSG_FILE_CHUNK ([of_nat (length s), of_nat (length t)] @ s @ t @
              be32 (unat off) @ be32 (length d) @ d))) = Some (FFileChunk s t off d)"
    (is "frame_view (convertProtocolMessage (decode_payload _ ?p)) = _")
proof -
  let ?h = "[of_nat (length s), of_nat (length t)] @ s @ t" and ?pos = "2 + length s + length t"
  have "slice 2 (length s) ?p = s"
    by (rule slice_mid) simp_all
  moreover have "slice (2 + length s) (length t) ?p = t"
    using slice_mid [of "[of_nat (length s), of_nat (length t)] @ s" "2 + length s" t "length t"] by simp
  moreover have "slice ?pos 4 ?p = be32 (unat off)"
    using slice_mid [of ?h ?pos "be32 (unat off)" 4 "be32 (length d) @ d"] by simp
  moreover have "slice (?pos + 4) 4 ?p = be32 (length d)"
    using slice_mid [of "?h @ be32 (unat off)" "?pos + 4" "be32 (length d)" 4 d] by simp
  moreover have "drop (?pos + 8) ?p = d"
    using drop_at [of "?h @ be32 (unat off) @ be32 (length d)" "?pos + 8" d] by simp
  moreover have "unat off mod 4294967296 = unat off"
    using unsigned_less [of off, where ?'a = nat] by simp
  ultimately show ?thesis
    using assms by (simp add: view_simps decode_file_chunk_def unat_of_nat)
qed

lemma view_ack:
  assumes "nul_free m" "length m \<le> 4096"
  shows "frame_view (convertProtocolMessage
           (decode_payload MSG_ACK (be16 (unat c) @ be16 (length m) @ m))) = Some (FAck c m)"
    (is "frame_view (convertProtocolMessage (decode_payload _ ?p)) = _")
proof -
  have "slice 0 2 ?p = be16 (unat c)"
    using slice_mid [of "[]" 0 "be16 (unat c)" 2] by simp
  moreover have "slice 2 2 ?p = be16 (length m)"
    using slice_mid [of "be16 (unat c)" 2 "be16 (length m)" 2 m] by simp
  moreover have "slice 4 (length m) ?p = m"
    using slice_end [of "be16 (unat c) @ be16 (length m)" 4 m "length m"] by simp
  moreover have "unat c mod 65536 = unat c"
    using unsigned_less [of c, where ?'a = nat] by simp
  ultimately show ?thesis
    using assms by (simp add: view_simps decode_ack_def)
qed

lemma recv_frame_sent:
  assumes "protocol_send_frame ty payload = Some bs"
    and "frame_view (convertProtocolMessage (decode_payload ty payload)) = Some f"
  shows "recv_frame (bs @ rest) = Some (f, rest)"
  using recv_sent_frame [OF assms(1), of rest] assms(2) by (simp add: recv_frame_def recv_go_def)

lemma send_recv_frame:
  assumes "wire_frame f" and "send_frame f = Some bs"
  shows "recv_frame (bs @ rest) = Some (f, rest)"
proof (cases f)
  case (FLogin d t)
  then show ?thesis using assms
    by (auto simp: protocol_send_login_def protocol_limits Let_def split: if_splits
        intro!: recv_frame_sent view_login)
next
  case (FCommand j)
  then show ?thesis using assms
    by (auto simp: protocol_send_command_def view_simps split: if_splits intro!: recv_frame_sent)
next
  case (FFileMeta n sz)
  then show ?thesis using assms
    by (auto simp: protocol_send_file_meta_def protocol_limits Let_def split: if_splits
        intro!: recv_frame_sent view_file_meta)
next
  case (FFileChunk s t off d)
  then show ?thesis using assms view_file_chunk [of s t d off]
    by (auto simp: protocol_send_file_chunk_def protocol_limits Let_def split: if_splits
        intro!: recv_frame_sent)
next
  case (FFileDone s t)
  then show ?thesis using assms view_file_done [of s t]
    by (auto simp: protocol_send_file_done_def protocol_limits Let_def split: if_splits
        intro!: recv_frame_sent)
next
  case (FAck c m)
  then show ?thesis using assms view_ack [of m c]
    by (auto simp: protocol_send_ack_def protocol_limits Let_def split: if_splits
        intro!: recv_frame_sent)
qed

subsection \<open>A codec on a byte stream\<close>

text \<open>
  What the two ends of a connection rely on: a frame that was encoded is the first one the
  decoder finds, and the bytes behind it are left for the next read.  From this one law follows
  that any sequence of frames arrives as it was sent, however the frames are concatenated.
\<close>

fun encode_stream :: "('f \<Rightarrow> bytes option) \<Rightarrow> 'f list \<Rightarrow> bytes option" where
  "encode_stream enc [] = Some []"
| "encode_stream enc (f # fs) =
     (case enc f of None \<Rightarrow> None
      | Some bs \<Rightarrow> (case encode_stream enc fs of None \<Rightarrow> None | Some cs \<Rightarrow> Some (bs @ cs)))"

text \<open>The decoder is run until it finds no frame (or does not advance).\<close>

function decode_stream :: "(bytes \<Rightarrow> ('f \<times> bytes) option) \<Rightarrow> bytes \<Rightarrow> 'f list \<times> bytes" where
  "decode_stream dec s =
     (case dec s of None \<Rightarrow> ([], s)
      | Some (f, rest) \<Rightarrow>
          if length rest < length s then (let (fs, r) = decode_stream dec rest in (f # fs, r))
          else ([], s))"
  by auto
termination by (relation "measure (\<lambda>(d, s). length s)") auto

declare decode_stream.simps [simp del]

locale stream_codec =
  fixes enc :: "'f \<Rightarrow> bytes option"
    and dec :: "bytes \<Rightarrow> ('f \<times> bytes) option"
    and good :: "'f \<Rightarrow> bool"
  assumes dec_enc: "good f \<Longrightarrow> enc f = Some bs \<Longrightarrow> dec (bs @ rest) = Some (f, rest)"
    and enc_progress: "enc f = Some bs \<Longrightarrow> bs \<noteq> []"
    and dec_progress: "dec s = Some (f, rest) \<Longrightarrow> length rest < length s"
begin

lemma decode_encode_stream:
  assumes "\<And>f. f \<in> set fs \<Longrightarrow> good f" and "encode_stream enc fs = Some bs"
  shows "decode_stream dec (bs @ rest) = (let (gs, r) = decode_stream dec rest in (fs @ gs, r))"
  using assms
proof (induction fs arbitrary: bs)
  case Nil
  then show ?case by (simp add: case_prod_beta)
next
  case (Cons f fs)
  then obtain b c where b: "enc f = Some b" and c: "encode_stream enc fs = Some c" and bs: "bs = b @ c"
    by (auto split: option.splits)
  have "dec (bs @ rest) = Some (f, c @ rest)"
    using Cons.prems(1) b by (simp add: bs dec_enc)
  moreover have "decode_stream dec (c @ rest) = (let (gs, r) = decode_stream dec rest in (fs @ gs, r))"
    using Cons.IH [OF _ c] Cons.prems(1) by simp
  ultimately show ?case
    using dec_progress [of "bs @ rest" f "c @ rest"]
    by (subst decode_stream.simps) (simp add: case_prod_beta Let_def)
qed

lemma encode_stream_inj:
  assumes "\<And>f. f \<in> set fs \<union> set gs \<Longrightarrow> good f" and "encode_stream enc fs = Some bs" and "encode_stream enc gs = Some bs"
    and "dec [] = None"
  shows "fs = gs"
proof -
  have "decode_stream dec [] = ([], [])" using assms(4) by (subst decode_stream.simps) simp
  then show ?thesis
    using decode_encode_stream [of fs bs "[]"] decode_encode_stream [of gs bs "[]"] assms by (auto simp: Let_def)
qed

end

lemma protocol_recv_message_length:
  "protocol_recv_message s = Some (m, rest) \<Longrightarrow> length rest < length s"
  by (auto simp: protocol_recv_message_def Let_def split: if_splits)

lemma send_frame_nonempty:
  assumes "send_frame f = Some bs" shows "bs \<noteq> []"
  using assms
  by (cases f) (auto simp: protocol_send_login_def protocol_send_command_def protocol_send_file_meta_def
      protocol_send_file_chunk_def protocol_send_file_done_def protocol_send_ack_def
      protocol_send_frame_def Let_def split: if_splits)

interpretation wire: stream_codec send_frame recv_frame wire_frame
proof
  show "length rest < length s" if "recv_frame s = Some (f, rest)" for s f rest
    using that protocol_recv_message_length
    by (auto simp: recv_frame_def recv_go_def split: option.splits)
qed (simp_all add: send_recv_frame send_frame_nonempty)

subsection \<open>Bounds on what is decoded\<close>

lemma length_slice_le: "length (slice k n p) \<le> n"
  by (simp add: slice_def)

lemma decode_payload_type [simp]: "c_type (decode_payload ty p) = ty" "c_data (decode_payload ty p) = p"
  by (simp_all add: decode_payload_def decode_login_def decode_file_meta_def decode_file_chunk_def
      decode_file_done_def decode_ack_def zero_message_def Let_def)

text \<open>Every buffer of \<open>protocol_message_t\<close> holds one byte more than these limits.\<close>

definition fits_buffers :: "protocol_message_t \<Rightarrow> bool" where
  "fits_buffers m \<longleftrightarrow>
     length (c_device_id m) \<le> PROTOCOL_MAX_DEVICE_ID \<and> length (c_token m) \<le> PROTOCOL_MAX_TOKEN \<and>
     length (c_session_id m) \<le> PROTOCOL_MAX_SESSION \<and> length (c_file_name m) \<le> PROTOCOL_MAX_FILENAME \<and>
     length (c_status_msg m) \<le> PROTOCOL_MAX_MESSAGE"

lemma slice_bound: "\<not> n < k \<Longrightarrow> length (slice i k p) \<le> n"
  using length_slice_le [of i k p] by linarith

lemma fits_decode:
  assumes "fits_buffers m"
  shows "fits_buffers (decode_login p m)" "fits_buffers (decode_file_meta p m)"
    "fits_buffers (decode_file_chunk p m)" "fits_buffers (decode_file_done p m)"
    "fits_buffers (decode_ack p m)"
  using assms
  by (auto simp: fits_buffers_def decode_login_def decode_file_meta_def decode_file_chunk_def
      decode_file_done_def decode_ack_def Let_def slice_bound)

lemma fits_decode_payload: "fits_buffers (decode_payload ty p)"
proof -
  have "fits_buffers (zero_message t p)" for t by (simp add: fits_buffers_def zero_message_def)
  then show ?thesis by (simp add: decode_payload_def Let_def fits_decode)
qed

lemma transfer_token_one_byte:
  assumes "ty = MSG_FILE_CHUNK \<or> ty = MSG_FILE_DONE"
  shows "length (c_token (decode_payload ty p)) < 256"
proof -
  have "length (slice k (unat b) p) < 256" for k and b :: byte
    using length_slice_le [of k "unat b" p] unsigned_less [of b, where ?'a = nat] by simp
  with assms show ?thesis
    by (auto simp: decode_payload_def decode_file_chunk_def decode_file_done_def msg_types
        zero_message_def Let_def)
qed

lemma convert_fields [simp]:
  "Type (convertProtocolMessage m) = c_type m" "Raw (convertProtocolMessage m) = c_data m"
  "DeviceID (convertProtocolMessage m) = cstr (c_device_id m)"
  "Token (convertProtocolMessage m) = cstr (c_token m)"
  "SessionID (convertProtocolMessage m) = cstr (c_session_id m)"
  "FileName (convertProtocolMessage m) = cstr (c_file_name m)"
  "StatusMsg (convertProtocolMessage m) = cstr (c_status_msg m)"
  by (simp_all add: convertProtocolMessage_def Let_def)

lemma recv_go_cases:
  assumes "recv_go s = Some (m, rest)"
  obtains ty p hd where "m = convertProtocolMessage (decode_payload ty p)" "s = hd @ p @ rest"
    "length hd = 5" "length p \<le> PROTOCOL_MAX_PAYLOAD"
proof -
  let ?n = "from_be (slice 1 4 s)"
  have a: "?n \<le> PROTOCOL_MAX_PAYLOAD" "5 + ?n \<le> length s" "rest = drop (5 + ?n) s"
    "m = convertProtocolMessage (decode_payload (s ! 0) (slice 5 ?n s))"
    using assms by (auto simp: recv_go_def protocol_recv_message_def Let_def split: if_splits)
  have "drop (5 + ?n) s = drop ?n (drop 5 s)" by (simp add: add.commute)
  then have "s = take 5 s @ slice 5 ?n s @ rest"
    unfolding a(3) slice_def by (metis append_take_drop_id)
  then show ?thesis using that [of "s ! 0" "slice 5 ?n s" "take 5 s"] a by (simp add: slice_def)
qed

subsection \<open>Properties of the protocol\<close>

text \<open>
  C6: frames that were encoded by the \<open>protocol_send_*\<close> functions and written to a connection one
  behind another are decoded, by reading the connection to its end, as exactly the same frames in the
  same order with all their fields, provided the strings have no NUL byte and the token of a transfer
  frame is shorter than 256 bytes.
\<close>
theorem frame_stream_round_trip:
  assumes "\<And>f. f \<in> set fs \<Longrightarrow> wire_frame f" and "encode_stream send_frame fs = Some bs"
  shows "decode_stream recv_frame bs = (fs, [])"
proof -
  have "recv_frame [] = None" by (simp add: recv_frame_def recv_go_def protocol_recv_message_def)
  then have "decode_stream recv_frame [] = ([], [])" by (simp add: decode_stream.simps)
  then show ?thesis using wire.decode_encode_stream [OF assms, of "[]"] by simp
qed

theorem frame_stream_round_trip_witness:
  "decode_stream recv_frame
     (the (encode_stream send_frame [FLogin [100] [116, 46], FFileChunk [115] [116] 4096 [1, 0, 2], FAck 200 []])) =
   ([FLogin [100] [116, 46], FFileChunk [115] [116] 4096 [1, 0, 2], FAck 200 []], [])"
proof -
  let ?fs = "[FLogin [100] [116, 46], FFileChunk [115] [116] 4096 [1, 0, 2], FAck 200 []]"
  have "wire_frame f" if "f \<in> set ?fs" for f
    using that by (auto simp: nul_free_def)
  moreover obtain bs where "encode_stream send_frame ?fs = Some bs"
    by (simp add: protocol_send_login_def protocol_send_file_chunk_def protocol_send_ack_def
        protocol_send_frame_def protocol_limits cstr_def Let_def)
  ultimately show ?thesis using frame_stream_round_trip [of ?fs bs] by simp
qed

text \<open>
  C8: whatever bytes a peer sends, a message that is received at all fits the fixed buffers of
  \<open>protocol_message_t\<close>: device id, token, session id, file name and status message stay within their
  limits, the payload is at most 1 MB, and exactly the 5-byte header and the payload are consumed.
\<close>
theorem received_message_fits_buffers:
  assumes "RecvProtocolMessage c s = Inr (m, rest)"
  shows "length (DeviceID m) \<le> PROTOCOL_MAX_DEVICE_ID \<and> length (Token m) \<le> PROTOCOL_MAX_TOKEN \<and>
    length (SessionID m) \<le> PROTOCOL_MAX_SESSION \<and> length (FileName m) \<le> PROTOCOL_MAX_FILENAME \<and>
    length (StatusMsg m) \<le> PROTOCOL_MAX_MESSAGE \<and> length (Raw m) \<le> PROTOCOL_MAX_PAYLOAD \<and>
    (\<exists>header. length header = 5 \<and> s = header @ Raw m @ rest)"
proof -
  have "recv_go s = Some (m, rest)"
    using assms by (auto simp: RecvProtocolMessage_def split: if_splits option.splits)
  then obtain ty p header where m: "m = convertProtocolMessage (decode_payload ty p)"
    and s: "s = header @ p @ rest" "length header = 5" and p: "length p \<le> PROTOCOL_MAX_PAYLOAD"
    by (rule recv_go_cases)
  have "fits_buffers (decode_payload ty p)" by (rule fits_decode_payload)
  then show ?thesis
    using s p by (auto simp: m fits_buffers_def intro: order_trans [OF length_cstr])
qed

theorem received_message_fits_buffers_witness:
  "\<exists>m. RecvProtocolMessage (Some \<lparr>fd = 3\<rparr>) [1, 0, 0, 0, 5, 1, 0, 1, 65, 66, 9] = Inr (m, [9]) \<and>
     DeviceID m = [65] \<and> length (Token m) \<le> PROTOCOL_MAX_TOKEN"
proof -
  let ?s = "[1, 0, 0, 0, 5, 1, 0, 1, 65, 66, 9] :: bytes"
  let ?m = "convertProtocolMessage (decode_payload 1 [1, 0, 1, 65, 66])"
  have run: "RecvProtocolMessage (Some \<lparr>fd = 3\<rparr>) ?s = Inr (?m, [9])"
    by (simp add: RecvProtocolMessage_def IsOpen_def INVALID_SOCKET_def recv_go_def
        protocol_recv_message_def slice_def from_be_def protocol_limits Let_def)
  moreover have "DeviceID ?m = [65]"
    by (simp add: decode_payload_def decode_login_def msg_types slice_def from_be_def protocol_limits
        zero_message_def cstr_def Let_def)
  ultimately show ?thesis using received_message_fits_buffers [OF run] by auto
qed

text \<open>
  The transfer frames store the length of the token in a single byte although tokens of up to
  1024 bytes are accepted: for a token of 256 bytes or more \<open>protocol_send_file_chunk\<close> reports
  success, and the receiver gets a message whose token is not the one that was sent.
\<close>
theorem long_transfer_token_is_garbled:
  assumes "256 \<le> length (cstr token)"
    and "protocol_send_file_chunk session_id token offset chunk = Some bs"
  shows "\<exists>m. recv_go (bs @ rest) = Some (m, rest) \<and> Type m = MSG_FILE_CHUNK \<and> Token m \<noteq> cstr token"
proof -
  obtain p where sent: "protocol_send_frame MSG_FILE_CHUNK p = Some bs"
    using assms(2) by (auto simp: protocol_send_file_chunk_def Let_def split: if_splits)
  let ?m = "convertProtocolMessage (decode_payload MSG_FILE_CHUNK p)"
  have "length (Token ?m) < 256"
    using transfer_token_one_byte [of MSG_FILE_CHUNK p] length_cstr [of "c_token (decode_payload MSG_FILE_CHUNK p)"]
    by simp
  then have "Token ?m \<noteq> cstr token" using assms(1) by auto
  moreover have "recv_go (bs @ rest) = Some (?m, rest)"
    using recv_sent_frame [OF sent, of rest] by (simp add: recv_go_def)
  ultimately show ?thesis by auto
qed

theorem long_transfer_token_is_garbled_witness:
  "\<exists>bs m. protocol_send_file_chunk [115] (replicate 300 65) 0 [1] = Some bs \<and>
     recv_go (bs @ []) = Some (m, []) \<and> Token m \<noteq> replicate 300 65"
proof -
  have c: "cstr (replicate 300 65 :: bytes) = replicate 300 65"
    by (rule cstr_id) (simp add: nul_free_def)
  obtain bs where "protocol_send_file_chunk [115] (replicate 300 65) 0 [1] = Some bs"
    by (simp add: protocol_send_file_chunk_def c protocol_send_frame_def protocol_limits cstr_def [of "[115]"] Let_def)
  then show ?thesis
    using long_transfer_token_is_garbled [of "replicate 300 65" "[115]" 0 "[1]" bs "[]"] c by auto
qed

end
