(* ===== verification/FileTransfer.thy ===== *)
theory FileTransfer
  imports Backup Protocol
begin

text \<open>
  File transfer between agent and backend: the handlers of
  \<open>backend/app/controllers/protocol_backup.go\<close> on the one side, \<open>agent/internal/backup/backup.go\<close> and
  \<open>agent/internal/protocolclient/client.go\<close> on the other.  JSON encoding and decoding are arguments of the
  definitions that call them.
\<close>

subsection \<open>State of the controller that the transfer handlers use (protocol_controller.go)\<close>

record transfer_state =
  activeUpload :: "string \<Rightarrow> (string \<times> string) option"
  deviceTokens :: "string \<Rightarrow> string option"
  Backup_svc :: "BackupService option"
  storage :: files
  version_rows :: version_table

datatype ctl_error =
    Unauthorized | MissingDevice | BadJSON | BackupFailed backup_error | BackupDisabled
  | MissingSessionOrToken | NetFailed net_error | OpenFailed | SeekFailed | ReadFailed

definition isAuthorized :: "'b transfer_state_scheme \<Rightarrow> string \<Rightarrow> bool" where
  "isAuthorized c deviceID \<longleftrightarrow>
     deviceID \<noteq> [] \<and> (case deviceTokens c deviceID of None \<Rightarrow> False | Some tok \<Rightarrow> tok \<noteq> [])"

subsection \<open>Backend handlers (protocol_backup.go)\<close>

definition handleBackupInitUpload ::
    "(byte list \<Rightarrow> BackupUploadInitRequest option) \<Rightarrow> backup_io \<Rightarrow> string \<Rightarrow> byte list \<Rightarrow> 'b transfer_state_scheme \<Rightarrow>
     (ctl_error, BackupSessionResponse option) res \<times> 'b transfer_state_scheme" where
  "handleBackupInitUpload unmarshal io deviceID payload c =
     (if \<not> isAuthorized c deviceID then (Inl Unauthorized, c)
      else case Backup_svc c of
        None \<Rightarrow> (Inr None, c)
      | Some svc \<Rightarrow>
          if deviceID = [] then (Inl MissingDevice, c)
          else case unmarshal payload of
            None \<Rightarrow> (Inl BadJSON, c)
          | Some req \<Rightarrow>
              (case PrepareUpload io deviceID req svc (storage c) of
                 (Inl e, svc', fs') \<Rightarrow> (Inl (BackupFailed e), c\<lparr>Backup_svc := Some svc', storage := fs'\<rparr>)
               | (Inr resp, svc', fs') \<Rightarrow>
                   (Inr (Some resp),
                    c\<lparr>Backup_svc := Some svc', storage := fs',
                      activeUpload := (activeUpload c)(resp_SessionID resp \<mapsto> (resp_SessionID resp, resp_Token resp))\<rparr>)))"

definition handleBackupInitDownload ::
    "(byte list \<Rightarrow> BackupDownloadInitRequest option) \<Rightarrow> backup_io \<Rightarrow> string \<Rightarrow> byte list \<Rightarrow> 'b transfer_state_scheme \<Rightarrow>
     (ctl_error, BackupSessionResponse option) res \<times> 'b transfer_state_scheme" where
  "handleBackupInitDownload unmarshal io deviceID payload c =
     (if \<not> isAuthorized c deviceID then (Inl Unauthorized, c)
      else case Backup_svc c of
        None \<Rightarrow> (Inr None, c)
      | Some svc \<Rightarrow>
          if deviceID = [] then (Inl MissingDevice, c)
          else case unmarshal payload of
            None \<Rightarrow> (Inl BadJSON, c)
          | Some req \<Rightarrow>
              (case PrepareDownload io deviceID req svc (storage c) of
                 (Inl e, svc') \<Rightarrow> (Inl (BackupFailed e), c\<lparr>Backup_svc := Some svc'\<rparr>)
               | (Inr resp, svc') \<Rightarrow> (Inr (Some resp), c\<lparr>Backup_svc := Some svc'\<rparr>)))"

record BackupDownloadStartRequest =
  start_SessionID :: string
  start_Token :: string
  start_Offset :: "32 word"

text \<open>
  The successive results of \<open>Read\<close> on an open file, for a buffer of the given size: the chunks that are read,
  and whether the file ended (\<open>io.EOF\<close>) or a read failed after them.
\<close>

type_synonym reads = "nat \<Rightarrow> byte list \<Rightarrow> byte list list \<times> bool"

definition reads_ok :: "reads \<Rightarrow> bool" where
  "reads_ok rd \<longleftrightarrow>
     (\<forall>n content. 0 < n \<longrightarrow> snd (rd n content) \<and> concat (fst (rd n content)) = content \<and>
        (\<forall>x\<in>set (fst (rd n content)). x \<noteq> [] \<and> length x \<le> n))"

text \<open>
  The send loop: the frames that went out, the error that ended it.  \<open>sent k\<close> tells whether the
  \<open>k\<close>th frame of the connection is delivered; an empty read sends nothing.
\<close>

fun download_chunks ::
    "(nat \<Rightarrow> bool) \<Rightarrow> TCPClient option \<Rightarrow> bytes \<Rightarrow> bytes \<Rightarrow> nat \<Rightarrow> 32 word \<Rightarrow> byte list list \<Rightarrow>
     frame list \<times> nat \<times> net_error option" where
  "download_chunks sent client sid tok k offset [] = ([], k, None)"
| "download_chunks sent client sid tok k offset (d # ds) =
     (if d = [] then download_chunks sent client sid tok k offset ds
      else case SendFileChunkWithSession (sent k) client sid tok offset d of
        Inl e \<Rightarrow> ([], Suc k, Some e)
      | Inr _ \<Rightarrow>
          (case download_chunks sent client sid tok (Suc k) (offset + of_nat (length d)) ds of
             (fs, k', e) \<Rightarrow> (FFileChunk sid tok offset d # fs, k', e)))"

definition download_chunk_size :: nat where
  "download_chunk_size = 512 * 1024"

record download_io =
  d_sent :: "nat \<Rightarrow> bool"
  d_open_ok :: bool
  d_seek_ok :: bool
  d_reads :: reads

definition handleBackupDownloadStart ::
    "(byte list \<Rightarrow> BackupDownloadStartRequest option) \<Rightarrow> download_io \<Rightarrow> TCPClient option \<Rightarrow> string \<Rightarrow> byte list \<Rightarrow>
     'b transfer_state_scheme \<Rightarrow> frame list \<times> ctl_error option" where
  "handleBackupDownloadStart unmarshal io client deviceID payload c =
     (if \<not> isAuthorized c deviceID then ([], Some Unauthorized)
      else case Backup_svc c of
        None \<Rightarrow> ([], Some BackupDisabled)
      | Some svc \<Rightarrow>
      (case unmarshal payload of
        None \<Rightarrow> ([], Some BadJSON)
      | Some req \<Rightarrow>
          if start_SessionID req = [] \<or> start_Token req = [] then ([], Some MissingSessionOrToken)
          else case ValidateSession (start_SessionID req) (start_Token req) DirectionDownload svc of
            Inl e \<Rightarrow> ([], Some (BackupFailed e))
          | Inr sess \<Rightarrow>
          let name = to_bytes (sess_FileName sess); sid = to_bytes (start_SessionID req);
              tok = to_bytes (start_Token req); sz = word_of_int (sess_FileSize sess)
          in (case SendFileMeta (d_sent io 0) client name sz of
            Inl e \<Rightarrow> ([], Some (NetFailed e))
          | Inr _ \<Rightarrow>
          (case (if d_open_ok io then storage c (sess_FinalPath sess) else None) of
            None \<Rightarrow> ([FFileMeta name sz], Some OpenFailed)
          | Some content \<Rightarrow>
              if start_Offset req > 0 \<and> \<not> d_seek_ok io then ([FFileMeta name sz], Some SeekFailed)
              else
                let (chunks, eof) = d_reads io download_chunk_size (drop (unat (start_Offset req)) content);
                    (fs, k, e) = download_chunks (d_sent io) client sid tok 1 (start_Offset req) chunks;
                    out = FFileMeta name sz # fs
                in case e of
                     Some e' \<Rightarrow> (out, Some (NetFailed e'))
                   | None \<Rightarrow>
                       if \<not> eof then (out, Some ReadFailed)
                       else case SendFileDoneWithSession (d_sent io k) client sid tok of
                              Inl e' \<Rightarrow> (out, Some (NetFailed e'))
                            | Inr _ \<Rightarrow> (out @ [FFileDone sid tok], None)))))"

text \<open>
  A chunk that arrives: nothing is answered, so every refusal leaves the state as it is.  The chunk is
  written at its offset; the counter advances by the length field of the frame.
\<close>

record chunk_io =
  c_open_ok :: bool
  c_seek_ok :: bool
  c_write_limit :: "nat option"
  c_now :: time

definition handleFileChunk :: "chunk_io \<Rightarrow> ProtocolMessage \<Rightarrow> 'b transfer_state_scheme \<Rightarrow> 'b transfer_state_scheme" where
  "handleFileChunk io msg c =
     (let sid = to_string (SessionID msg); tok = to_string (Token msg)
      in if \<not> isAuthorized c (to_string (DeviceID msg)) then c
         else case Backup_svc c of
           None \<Rightarrow> c
         | Some svc \<Rightarrow>
         if sid = [] \<or> tok = [] then c
         else (case activeUpload c sid of
           None \<Rightarrow> c
         | Some (ctx_id, ctx_token) \<Rightarrow>
         if ctx_token \<noteq> tok then c
         else (case ValidateSession ctx_id ctx_token DirectionUpload svc of
           Inl e \<Rightarrow> c
         | Inr sess \<Rightarrow>
         if ChunkData msg = None \<or> ChunkLen msg = 0 then c
         else (case (if c_open_ok io then storage c (sess_TempPath sess) else None) of
           None \<Rightarrow> c
         | Some content \<Rightarrow>
         if \<not> c_seek_ok io then c
         else
           let data = the (ChunkData msg); off = unat (ChunkOffset msg)
           in (case c_write_limit io of
                 Some n \<Rightarrow> c\<lparr>storage := (storage c)(sess_TempPath sess \<mapsto> write_at off (take n data) content)\<rparr>
               | None \<Rightarrow>
                   c\<lparr>storage := (storage c)(sess_TempPath sess \<mapsto> write_at off data content),
                     Backup_svc := Some (snd (Advance (c_now io) ctx_id (uint (ChunkLen msg)) svc))\<rparr>)))))"

definition handleFileDone ::
    "BackupFileVersion gorm \<Rightarrow> time \<Rightarrow> backup_io \<Rightarrow> ProtocolMessage \<Rightarrow> 'b transfer_state_scheme \<Rightarrow> 'b transfer_state_scheme" where
  "handleFileDone db now io msg c =
     (let sid = to_string (SessionID msg); tok = to_string (Token msg)
      in if \<not> isAuthorized c (to_string (DeviceID msg)) then c
         else case Backup_svc c of
           None \<Rightarrow> c
         | Some svc \<Rightarrow>
         if sid = [] \<or> tok = [] then c
         else (case activeUpload c sid of
           None \<Rightarrow> c
         | Some (ctx_id, ctx_token) \<Rightarrow>
         if ctx_token \<noteq> tok then c
         else (case ValidateSession ctx_id ctx_token DirectionUpload svc of
           Inl e \<Rightarrow> c
         | Inr sess \<Rightarrow>
         (case MarkCompleted now (sess_ID sess) svc of
           (Some e, svc1) \<Rightarrow> c\<lparr>Backup_svc := Some svc1\<rparr>
         | (None, svc1) \<Rightarrow>
             (case FinalizeUpload db io (sess_ID sess) svc1 (storage c) (version_rows c) of
                (err, svc2, fs', t') \<Rightarrow>
                  let c' = c\<lparr>Backup_svc := Some svc2, storage := fs', version_rows := t'\<rparr>
                  in case err of
                       Some e \<Rightarrow> c'
                     | None \<Rightarrow> c'\<lparr>activeUpload := (activeUpload c)(sid := None)\<rparr>)))))"

subsection \<open>The agent's protocol client (protocolclient/client.go)\<close>

datatype agent_error =
    ActionRequired | AgentNet net_error | MarshalFailed | StatFailed | RefusedByBackend "16 word" bytes
  | BadResponse | OpenFileFailed | ReadFileFailed | MkdirFailed | WriteFileFailed | SeekFileFailed

text \<open>Frames other than acknowledgements are skipped until one arrives or the stream ends.\<close>

fun first_ack :: "ProtocolMessage list \<Rightarrow> (agent_error, ProtocolMessage) res" where
  "first_ack [] = Inl (AgentNet RecvMessageFailed)"
| "first_ack (m # ms) = (if Type m \<noteq> MSG_ACK then first_ack ms else Inr m)"

record action_net =
  a_connect :: "string \<Rightarrow> int \<Rightarrow> int"
  a_sent :: "nat \<Rightarrow> bool"
  a_incoming :: "ProtocolMessage list"

definition SendAction ::
    "action_net \<Rightarrow> (string \<Rightarrow> 'd \<Rightarrow> bytes option) \<Rightarrow> string \<Rightarrow> int \<Rightarrow> string \<Rightarrow> string \<Rightarrow> string \<Rightarrow> 'd \<Rightarrow>
     frame list \<times> (agent_error, ProtocolMessage) res" where
  "SendAction net marshal host port deviceID token action data =
     (if action = [] then ([], Inl ActionRequired)
      else case DialTCP (a_connect net) host port of
        Inl e \<Rightarrow> ([], Inl (AgentNet e))
      | Inr cl \<Rightarrow>
          let wants_login = token \<noteq> [] \<and> deviceID \<noteq> [];
              login = SendLogin (a_sent net 0) (Some cl) (to_bytes deviceID) (to_bytes token);
              out = (if wants_login then [FLogin (to_bytes deviceID) (to_bytes token)] else [])
          in case (if wants_login then login else Inr []) of
               Inl e \<Rightarrow> ([], Inl (AgentNet e))
             | Inr _ \<Rightarrow>
                 (case marshal action data of
                    None \<Rightarrow> (out, Inl MarshalFailed)
                  | Some b \<Rightarrow>
                      (case SendCommand (a_sent net 1) (Some cl) b of
                         Inl e \<Rightarrow> (out, Inl (AgentNet e))
                       | Inr _ \<Rightarrow> (out @ [FCommand b], first_ack (a_incoming net)))))"

subsection \<open>The agent's side of a transfer (agent/internal/backup/backup.go)\<close>

record Session =
  s_SessionID :: string
  s_Token :: string
  s_FileName :: string
  s_FileSize :: int
  s_Offset :: int
  s_ChunkSize :: int
  s_TCPHost :: string
  s_TCPPort :: int
  s_Direction :: string
  s_Status :: string

definition upload_request :: "string \<Rightarrow> int \<Rightarrow> string \<Rightarrow> BackupUploadInitRequest" where
  "upload_request filePath sz fileID =
     \<lparr>up_FileName = Base filePath, up_FileSize = sz, up_Checksum = [], up_LogicalPath = filePath,
      up_FileID = fileID\<rparr>"

definition session_reply ::
    "(bytes \<Rightarrow> Session option) \<Rightarrow> (agent_error, ProtocolMessage) res \<Rightarrow> (agent_error, Session) res" where
  "session_reply unmarshal r =
     (case r of
        Inl e \<Rightarrow> Inl e
      | Inr m \<Rightarrow>
          if Type m \<noteq> MSG_ACK \<or> StatusCode m \<noteq> 200 then Inl (RefusedByBackend (StatusCode m) (StatusMsg m))
          else case unmarshal (StatusMsg m) of None \<Rightarrow> Inl BadResponse | Some s \<Rightarrow> Inr s)"

definition InitUpload ::
    "action_net \<Rightarrow> (string \<Rightarrow> BackupUploadInitRequest \<Rightarrow> bytes option) \<Rightarrow> (bytes \<Rightarrow> Session option) \<Rightarrow> string \<Rightarrow>
     string \<Rightarrow> int \<Rightarrow> string \<Rightarrow> string \<Rightarrow> string \<Rightarrow> int option \<Rightarrow> frame list \<times> (agent_error, Session) res" where
  "InitUpload net marshal unmarshal deviceID host port token filePath fileID file_size =
     (case file_size of
        None \<Rightarrow> ([], Inl StatFailed)
      | Some sz \<Rightarrow>
          (case SendAction net marshal host port deviceID token ''backup_init_upload''
                  (upload_request filePath sz fileID) of
             (out, r) \<Rightarrow> (out, session_reply unmarshal r)))"

definition InitDownload ::
    "action_net \<Rightarrow> (string \<Rightarrow> BackupDownloadInitRequest \<Rightarrow> bytes option) \<Rightarrow> (bytes \<Rightarrow> Session option) \<Rightarrow> string \<Rightarrow>
     string \<Rightarrow> int \<Rightarrow> string \<Rightarrow> string \<Rightarrow> frame list \<times> (agent_error, Session) res" where
  "InitDownload net marshal unmarshal deviceID host port token fileName =
     (case SendAction net marshal host port deviceID token ''backup_init_download''
             \<lparr>down_FileName = fileName\<rparr> of
        (out, r) \<Rightarrow> (out, session_reply unmarshal r))"

text \<open>
  Each chunk is tried twice.  \<open>sent k\<close> tells whether the \<open>k\<close>th send of the connection succeeds.
\<close>

fun upload_chunks ::
    "(nat \<Rightarrow> bool) \<Rightarrow> TCPClient option \<Rightarrow> bytes \<Rightarrow> bytes \<Rightarrow> nat \<Rightarrow> 32 word \<Rightarrow> byte list list \<Rightarrow>
     frame list \<times> nat \<times> net_error option" where
  "upload_chunks sent client sid tok k offset [] = ([], k, None)"
| "upload_chunks sent client sid tok k offset (d # ds) =
     (if d = [] then upload_chunks sent client sid tok k offset ds
      else
        let next = (\<lambda>k'. case upload_chunks sent client sid tok k' (offset + of_nat (length d)) ds of
                           (fs, k'', e) \<Rightarrow> (FFileChunk sid tok offset d # fs, k'', e))
        in case SendFileChunkWithSession (sent k) client sid tok offset d of
             Inr _ \<Rightarrow> next (Suc k)
           | Inl _ \<Rightarrow>
               (case SendFileChunkWithSession (sent (Suc k)) client sid tok offset d of
                  Inl e \<Rightarrow> ([], Suc (Suc k), Some e)
                | Inr _ \<Rightarrow> next (Suc (Suc k))))"

definition upload_buffer :: "Session \<Rightarrow> nat" where
  "upload_buffer s = (if s_ChunkSize s \<le> 0 then 512 * 1024 else nat (s_ChunkSize s))"

definition UploadFile ::
    "(string \<Rightarrow> int \<Rightarrow> int) \<Rightarrow> (nat \<Rightarrow> bool) \<Rightarrow> reads \<Rightarrow> string \<Rightarrow> Session \<Rightarrow> byte list option \<Rightarrow>
     frame list \<times> agent_error option" where
  "UploadFile connect sent rd deviceID session file =
     (case file of
        None \<Rightarrow> ([], Some OpenFileFailed)
      | Some content \<Rightarrow>
      (case DialTCP connect (s_TCPHost session) (s_TCPPort session) of
        Inl e \<Rightarrow> ([], Some (AgentNet e))
      | Inr cl \<Rightarrow>
          let sid = to_bytes (s_SessionID session); tok = to_bytes (s_Token session);
              name = to_bytes (s_FileName session); sz = word_of_int (s_FileSize session);
              login =
                (if deviceID \<noteq> [] \<and> s_Token session \<noteq> [] then
                   (case SendLogin (sent 0) (Some cl) (to_bytes deviceID) tok of
                      Inl _ \<Rightarrow> [] | Inr _ \<Rightarrow> [FLogin (to_bytes deviceID) tok])
                 else [])
          in case SendFileMeta (sent 1) (Some cl) name sz of
               Inl e \<Rightarrow> (login, Some (AgentNet e))
             | Inr _ \<Rightarrow>
                 let (chunks, eof) = rd (upload_buffer session) content;
                     (fs, k, e) = upload_chunks sent (Some cl) sid tok 2 0 chunks;
                     out = login @ FFileMeta name sz # fs
                 in case e of
                      Some e' \<Rightarrow> (out, Some (AgentNet e'))
                    | None \<Rightarrow>
                        if \<not> eof then (out, Some ReadFileFailed)
                        else case SendFileDoneWithSession (sent k) (Some cl) sid tok of
                               Inl e' \<Rightarrow> (out, Some (AgentNet e'))
                             | Inr _ \<Rightarrow> (out @ [FFileDone sid tok], None)))"

definition looksLikeJWT :: "string \<Rightarrow> bool" where
  "looksLikeJWT tok \<longleftrightarrow> 2 \<le> CountChar tok (CHR ''.'')"

text \<open>
  The destination is opened without truncation.  The state of the loop is its content, the write position and the
  session; \<open>wr i\<close> is false when the \<open>i\<close>th file operation fails.
\<close>

fun download_loop ::
    "(nat \<Rightarrow> bool) \<Rightarrow> nat \<Rightarrow> ProtocolMessage list \<Rightarrow> byte list \<Rightarrow> nat \<Rightarrow> Session \<Rightarrow>
     agent_error option \<times> byte list \<times> Session" where
  "download_loop wr i [] content pos s = (Some (AgentNet RecvMessageFailed), content, s)"
| "download_loop wr i (m # ms) content pos s =
     (if Type m = MSG_FILE_META then
        (if \<not> wr i then (Some SeekFileFailed, content, s)
         else download_loop wr (Suc i) ms content 0
                (s\<lparr>s_FileName := to_string (FileName m), s_FileSize := sint (FileSize m)\<rparr>))
      else if Type m = MSG_FILE_CHUNK then
        (let d = (case ChunkData m of None \<Rightarrow> [] | Some d \<Rightarrow> d)
         in if \<not> wr i then (Some WriteFileFailed, content, s)
            else download_loop wr (Suc i) ms (write_at pos d content) (pos + length d)
                   (s\<lparr>s_Offset := s_Offset s + int (length d)\<rparr>))
      else if Type m = MSG_FILE_DONE then (None, content, s)
      else if Type m = MSG_ACK \<or> Type m = MSG_ERROR then
        (Some (RefusedByBackend (StatusCode m) (StatusMsg m)), content, s)
      else download_loop wr i ms content pos s)"

record dest_io =
  dest_mkdir_ok :: bool
  dest_open_ok :: bool
  dest_write_ok :: "nat \<Rightarrow> bool"

definition DownloadFile ::
    "dest_io \<Rightarrow> action_net \<Rightarrow> (Session \<Rightarrow> bytes) \<Rightarrow> Session \<Rightarrow> string \<Rightarrow> files \<Rightarrow>
     agent_error option \<times> frame list \<times> files \<times> Session" where
  "DownloadFile io net marshal session destPath fs =
     (let dir = DirPath destPath
      in if dir \<noteq> [] \<and> dir \<noteq> ''.'' \<and> \<not> dest_mkdir_ok io then (Some MkdirFailed, [], fs, session)
         else if \<not> dest_open_ok io then (Some OpenFileFailed, [], fs, session)
         else
           let old = (case fs destPath of None \<Rightarrow> [] | Some b \<Rightarrow> b); fs1 = fs(destPath \<mapsto> old)
           in case DialTCP (a_connect net) (s_TCPHost session) (s_TCPPort session) of
                Inl e \<Rightarrow> (Some (AgentNet e), [], fs1, session)
              | Inr cl \<Rightarrow>
                  let body = marshal session
                  in case SendCommand (a_sent net 0) (Some cl) body of
                       Inl e \<Rightarrow> (Some (AgentNet e), [], fs1, session)
                     | Inr _ \<Rightarrow>
                         (case download_loop (dest_write_ok io) 0 (a_incoming net) old 0 session of
                            (e, content, s') \<Rightarrow> (e, [FCommand body], fs1(destPath \<mapsto> content), s')))"

subsection \<open>What an upload puts on the wire\<close>

fun chunk_frames :: "bytes \<Rightarrow> bytes \<Rightarrow> 32 word \<Rightarrow> byte list list \<Rightarrow> frame list" where
  "chunk_frames sid tok off [] = []"
| "chunk_frames sid tok off (d # ds) =
     FFileChunk sid tok off d # chunk_frames sid tok (off + of_nat (length d)) ds"

lemma upload_chunks_frames:
  assumes "upload_chunks sent cl sid tok k off ds = (fs, k', None)" "\<forall>d\<in>set ds. d \<noteq> []"
  shows "fs = chunk_frames sid tok off ds"
  using assms
  by (induction ds arbitrary: k off fs)
    (auto simp: Let_def split: sum.splits prod.splits)

lemma download_chunks_frames:
  assumes "download_chunks sent cl sid tok k off ds = (fs, k', None)" "\<forall>d\<in>set ds. d \<noteq> []"
  shows "fs = chunk_frames sid tok off ds"
  using assms
  by (induction ds arbitrary: k off fs) (auto split: sum.splits prod.splits)

lemma UploadFile_frames:
  assumes "UploadFile connect sent rd dev s file = (out, None)" "reads_ok rd"
  obtains content chunks login where "file = Some content" "concat chunks = content"
    "\<forall>d\<in>set chunks. d \<noteq> [] \<and> length d \<le> upload_buffer s"
    "login = [] \<or> login = [FLogin (to_bytes dev) (to_bytes (s_Token s))] \<and> dev \<noteq> []"
    "out = login @ FFileMeta (to_bytes (s_FileName s)) (word_of_int (s_FileSize s)) #
       chunk_frames (to_bytes (s_SessionID s)) (to_bytes (s_Token s)) 0 chunks @
       [FFileDone (to_bytes (s_SessionID s)) (to_bytes (s_Token s))]"
proof -
  obtain content where f: "file = Some content" using assms(1) by (cases "file") (auto simp: UploadFile_def)
  obtain chunks eof where rd: "rd (upload_buffer s) content = (chunks, eof)" by fastforce
  have "0 < upload_buffer s" by (simp add: upload_buffer_def)
  then have ch: "concat chunks = content" "\<forall>d\<in>set chunks. d \<noteq> [] \<and> length d \<le> upload_buffer s"
    using assms(2) rd unfolding reads_ok_def by (metis fst_conv)+
  have "\<exists>login. (login = [] \<or> login = [FLogin (to_bytes dev) (to_bytes (s_Token s))] \<and> dev \<noteq> []) \<and>
    out = login @ FFileMeta (to_bytes (s_FileName s)) (word_of_int (s_FileSize s)) #
       chunk_frames (to_bytes (s_SessionID s)) (to_bytes (s_Token s)) 0 chunks @
       [FFileDone (to_bytes (s_SessionID s)) (to_bytes (s_Token s))]"
    using assms(1) ch(2) upload_chunks_frames [of sent _ _ _ _ _ chunks]
    by (auto simp: UploadFile_def f rd Let_def split: sum.splits prod.splits option.splits if_splits)
  then show ?thesis using that f ch by blast
qed

subsection \<open>Receiving an upload\<close>

definition delivered :: "string \<Rightarrow> frame \<Rightarrow> ProtocolMessage \<Rightarrow> bool" where
  "delivered dev f m \<longleftrightarrow> frame_view m = Some f \<and> DeviceID m = to_bytes dev"

definition progress :: "BackupSession \<Rightarrow> BackupSession \<Rightarrow> bool" where
  "progress s0 s \<longleftrightarrow> (\<exists>b u. s = s0\<lparr>sess_BytesDone := b, sess_UpdatedAt := u\<rparr>)"

definition upload_open :: "string \<Rightarrow> BackupSession \<Rightarrow> byte list \<Rightarrow> 'b transfer_state_scheme \<Rightarrow> bool" where
  "upload_open dev s0 content c \<longleftrightarrow>
     isAuthorized c dev \<and> sess_ID s0 \<noteq> [] \<and> sess_Token s0 \<noteq> [] \<and> sess_Direction s0 = DirectionUpload \<and>
     activeUpload c (sess_ID s0) = Some (sess_ID s0, sess_Token s0) \<and>
     (\<exists>svc s. Backup_svc c = Some svc \<and> sessions svc (sess_ID s0) = Some s \<and> progress s0 s) \<and>
     storage c (sess_TempPath s0) = Some content"

definition chunk_io_ok :: "chunk_io \<Rightarrow> bool" where
  "chunk_io_ok io \<longleftrightarrow> c_open_ok io \<and> c_seek_ok io \<and> c_write_limit io = None"

lemma frame_view_chunk:
  assumes "frame_view m = Some (FFileChunk sid tok off d)"
  shows "Type m = MSG_FILE_CHUNK" "SessionID m = sid" "Token m = tok" "ChunkOffset m = off"
    "ChunkData m = Some d" "unat (ChunkLen m) = length d"
  using assms by (auto simp: frame_view_def split: if_splits option.splits)

lemma frame_view_done:
  assumes "frame_view m = Some (FFileDone sid tok)"
  shows "Type m = MSG_FILE_DONE" "SessionID m = sid" "Token m = tok"
  using assms by (auto simp: frame_view_def split: if_splits option.splits)

lemma progress_fields:
  "progress s0 s \<Longrightarrow> sess_Token s = sess_Token s0 \<and> sess_Direction s = sess_Direction s0 \<and> sess_ID s = sess_ID s0 \<and>
   sess_TempPath s = sess_TempPath s0 \<and> sess_FinalPath s = sess_FinalPath s0 \<and> sess_DeviceID s = sess_DeviceID s0 \<and>
   sess_LogicalPath s = sess_LogicalPath s0 \<and> sess_FileSize s = sess_FileSize s0"
  by (auto simp: progress_def)

lemma progress_advance:
  assumes "progress s0 s" shows "progress s0 (s\<lparr>sess_BytesDone := b, sess_UpdatedAt := u\<rparr>)"
proof -
  obtain b' u' where "s = s0\<lparr>sess_BytesDone := b', sess_UpdatedAt := u'\<rparr>" using assms by (auto simp: progress_def)
  then show ?thesis unfolding progress_def by (intro exI [of _ b] exI [of _ u]) simp
qed

lemma handleFileChunk_step:
  assumes open_: "upload_open dev s0 content c" and io: "chunk_io_ok io"
    and m: "delivered dev (FFileChunk (to_bytes (sess_ID s0)) (to_bytes (sess_Token s0)) off d) m" and d: "d \<noteq> []"
  shows "upload_open dev s0 (write_at (unat off) d content) (handleFileChunk io m c)"
    "\<exists>svc. handleFileChunk io m c =
       c\<lparr>storage := (storage c)(sess_TempPath s0 \<mapsto> write_at (unat off) d content), Backup_svc := Some svc\<rparr> \<and>
       has_versions svc = has_versions (the (Backup_svc c))"
proof -
  obtain svc s where svc: "Backup_svc c = Some svc" "sessions svc (sess_ID s0) = Some s" "progress s0 s"
    using open_ by (auto simp: upload_open_def)
  note p = progress_fields [OF svc(3)]
  let ?svc = "snd (Advance (c_now io) (sess_ID s0) (uint (ChunkLen m)) svc)"
  let ?c = "c\<lparr>storage := (storage c)(sess_TempPath s0 \<mapsto> write_at (unat off) d content), Backup_svc := Some ?svc\<rparr>"
  note v = frame_view_chunk [OF m [unfolded delivered_def, THEN conjunct1]]
  have "ChunkLen m \<noteq> 0" using v(6) d by auto
  then have eq: "handleFileChunk io m c = ?c"
    using open_ io m svc p v
    by (simp add: handleFileChunk_def upload_open_def chunk_io_ok_def delivered_def ValidateSession_def Let_def)
  have adv: "?svc = svc\<lparr>sessions := (sessions svc)(sess_ID s0 \<mapsto>
      s\<lparr>sess_BytesDone := sess_BytesDone s + uint (ChunkLen m), sess_UpdatedAt := c_now io\<rparr>)\<rparr>"
    using svc by (simp add: Advance_def Let_def)
  show "\<exists>svc. handleFileChunk io m c =
       c\<lparr>storage := (storage c)(sess_TempPath s0 \<mapsto> write_at (unat off) d content), Backup_svc := Some svc\<rparr> \<and>
       has_versions svc = has_versions (the (Backup_svc c))"
    using eq by (intro exI [of _ ?svc]) (simp add: adv svc)
  show "upload_open dev s0 (write_at (unat off) d content) (handleFileChunk io m c)"
    using open_ progress_advance [OF svc(3)] unfolding eq adv by (simp add: upload_open_def isAuthorized_def)
qed

fun write_chunks :: "32 word \<Rightarrow> byte list list \<Rightarrow> byte list \<Rightarrow> byte list" where
  "write_chunks off [] content = content"
| "write_chunks off (d # ds) content =
     write_chunks (off + of_nat (length d)) ds (write_at (unat off) d content)"

lemma write_chunks_append:
  assumes "unat off = length content" "length content + length (concat ds) < 2 ^ 32"
  shows "write_chunks off ds content = content @ concat ds"
  using assms
proof (induction ds arbitrary: off content)
  case (Cons d ds)
  have "unat (off + of_nat (length d)) = length content + length d"
    using Cons.prems by (simp add: unat_word_ariths unat_of_nat)
  then show ?case
    using Cons.IH [of "off + of_nat (length d)" "content @ d"] Cons.prems by (simp add: write_at_append)
qed simp

lemma write_chunks_length:
  assumes "\<forall>d\<in>set ds. length d \<le> n"
  shows "length (write_chunks off ds content) \<le> max (length content) (2 ^ 32 + n)"
  using assms
proof (induction ds arbitrary: off content)
  case (Cons d ds)
  have "unat off < 2 ^ 32" using unsigned_less [of off, where ?'a = nat] by simp
  then have "length (write_at (unat off) d content) \<le> max (length content) (2 ^ 32 + n)"
    using Cons.prems by (auto simp: length_write_at)
  moreover have "length (write_chunks (off + of_nat (length d)) ds (write_at (unat off) d content)) \<le>
      max (length (write_at (unat off) d content)) (2 ^ 32 + n)"
    using Cons.prems by (intro Cons.IH) simp
  ultimately show ?case by simp
qed simp

lemma handleFileChunk_fold:
  assumes "upload_open dev s0 content c" "chunk_io_ok io" "\<forall>d\<in>set ds. d \<noteq> []"
    and "list_all2 (delivered dev) (chunk_frames (to_bytes (sess_ID s0)) (to_bytes (sess_Token s0)) off ds) ms"
  shows "upload_open dev s0 (write_chunks off ds content) (fold (handleFileChunk io) ms c) \<and>
    (\<exists>svc. fold (handleFileChunk io) ms c =
       c\<lparr>storage := (storage c)(sess_TempPath s0 \<mapsto> write_chunks off ds content), Backup_svc := Some svc\<rparr> \<and>
       has_versions svc = has_versions (the (Backup_svc c)))"
  using assms
proof (induction ds arbitrary: off content c ms)
  case Nil
  then obtain svc where svc: "Backup_svc c = Some svc" and st: "storage c (sess_TempPath s0) = Some content"
    by (auto simp: upload_open_def)
  have "(storage c)(sess_TempPath s0 \<mapsto> content) = storage c" using st by (simp add: fun_upd_idem)
  moreover have "c\<lparr>storage := storage c, Backup_svc := Backup_svc c\<rparr> = c" by simp
  ultimately show ?case using Nil svc by (auto intro!: exI [of _ svc] simp: fun_upd_def)
next
  case (Cons d ds)
  let ?f = "FFileChunk (to_bytes (sess_ID s0)) (to_bytes (sess_Token s0)) off d"
  obtain m ms' where ms: "ms = m # ms'" and m: "delivered dev ?f m"
    and rest: "list_all2 (delivered dev) (chunk_frames (to_bytes (sess_ID s0)) (to_bytes (sess_Token s0)) (off + of_nat (length d)) ds) ms'"
    using Cons.prems(4) by (auto simp: list_all2_Cons1)
  have d: "d \<noteq> []" "\<forall>d\<in>set ds. d \<noteq> []" using Cons.prems(3) by auto
  note step = handleFileChunk_step [OF Cons.prems(1,2) m d(1)]
  obtain svc where eq: "handleFileChunk io m c =
      c\<lparr>storage := (storage c)(sess_TempPath s0 \<mapsto> write_at (unat off) d content), Backup_svc := Some svc\<rparr>"
    and hv: "has_versions svc = has_versions (the (Backup_svc c))" using step(2) by blast
  let ?w = "write_chunks off (d # ds) content"
  obtain svc' where o: "upload_open dev s0 ?w (fold (handleFileChunk io) ms' (handleFileChunk io m c))"
    and e: "fold (handleFileChunk io) ms' (handleFileChunk io m c) = (handleFileChunk io m c)
        \<lparr>storage := (storage (handleFileChunk io m c))(sess_TempPath s0 \<mapsto> ?w), Backup_svc := Some svc'\<rparr>"
    and h: "has_versions svc' = has_versions (the (Backup_svc (handleFileChunk io m c)))"
    using Cons.IH [OF step(1) Cons.prems(2) d(2) rest] unfolding write_chunks.simps(2) by blast
  have "fold (handleFileChunk io) ms c =
      c\<lparr>storage := (storage c)(sess_TempPath s0 \<mapsto> ?w), Backup_svc := Some svc'\<rparr>"
    using e unfolding ms eq by (simp add: eq)
  moreover have "has_versions svc' = has_versions (the (Backup_svc c))" using h hv by (simp add: eq)
  moreover have "fold (handleFileChunk io) ms c = fold (handleFileChunk io) ms' (handleFileChunk io m c)"
    by (simp add: ms)
  ultimately show ?case using o by metis
qed

lemma handleFileDone_step:
  fixes now :: time
  assumes open_: "upload_open dev s0 content c" and db: "gorm_reliable db" and io: "rename_ok io 0"
    and m: "delivered dev (FFileDone (to_bytes (sess_ID s0)) (to_bytes (sess_Token s0))) m"
    and temp: "sess_TempPath s0 \<noteq> []" and ver: "has_versions (the (Backup_svc c))" "sess_LogicalPath s0 \<noteq> []"
    and hist: "\<And>d p. gapless (history d p (version_rows c))"
  defines "c' \<equiv> handleFileDone db now io m c"
    and "H \<equiv> history (sess_DeviceID s0) (sess_LogicalPath s0)"
  shows "storage c' = (storage c)(sess_TempPath s0 := None, sess_FinalPath s0 \<mapsto> content) \<and>
    activeUpload c' (sess_ID s0) = None \<and> deviceTokens c' = deviceTokens c \<and>
    (\<exists>svc sess row. Backup_svc c' = Some svc \<and> sessions svc (sess_ID s0) = Some sess \<and>
       sess_Status sess = SessionCompleted \<and> sess_BytesDone sess = sess_FileSize s0 \<and>
       version_rows c' = version_rows c @ [row] \<and> VSize row = sess_FileSize s0 \<and>
       VStoredName row = Base (sess_FinalPath s0)) \<and>
    H (version_rows c') = H (version_rows c) @ [int (length (H (version_rows c))) + 1] \<and>
    (\<forall>d p. gapless (history d p (version_rows c')))"
proof -
  obtain svc s where svc: "Backup_svc c = Some svc" "sessions svc (sess_ID s0) = Some s" "progress s0 s"
    using open_ by (auto simp: upload_open_def)
  note p = progress_fields [OF svc(3)]
  note v = frame_view_done [OF m [unfolded delivered_def, THEN conjunct1]]
  let ?svc = "svc\<lparr>sessions := (sessions svc)(sess_ID s0 \<mapsto> complete now s)\<rparr>"
  have sess: "sessions ?svc (sess_ID s0) = Some (complete now s)" by simp
  obtain svc2 fs' t' where fin:
    "FinalizeUpload db io (sess_ID s0) ?svc (storage c) (version_rows c) = (None, svc2, fs', t')"
    using FinalizeUpload_succeeds [OF db sess, of "storage c" io "version_rows c"] open_ io temp p
    by (auto simp: upload_open_def)
  have "c' = c\<lparr>Backup_svc := Some svc2, storage := fs', version_rows := t',
      activeUpload := (activeUpload c)(sess_ID s0 := None)\<rparr>"
    using open_ m svc p v fin
    by (simp add: c'_def handleFileDone_def upload_open_def delivered_def ValidateSession_def
        MarkCompleted_def Let_def)
  moreover have "fs' = (storage c)(sess_TempPath s0 := None, sess_FinalPath s0 \<mapsto> content) \<and>
      sessions svc2 (sess_ID s0) = Some (complete (clock io 0) (complete now s)) \<and>
      (\<exists>row. t' = version_rows c @ [row] \<and> VSize row = sess_FileSize s0 \<and> VStoredName row = Base (sess_FinalPath s0)) \<and>
      H t' = H (version_rows c) @ [int (length (H (version_rows c))) + 1] \<and> (\<forall>d p. gapless (history d p t'))"
    using finalize_effect [OF gorm_reliable_sound [OF db] fin sess _ io _ _ hist]
      open_ p ver svc unfolding H_def by (simp add: upload_open_def)
  ultimately show ?thesis using p by auto
qed

subsection \<open>Receiving a download\<close>

lemma write_at_sequence:
  assumes "pos \<le> length content"
  shows "fst (foldl (\<lambda>(b, p) d. (write_at p d b, p + length d)) (content, pos) ds) =
    take pos content @ concat ds @ drop (pos + length (concat ds)) content"
  using assms
proof (induction ds arbitrary: content pos)
  case (Cons d ds)
  let ?b = "write_at pos d content"
  have len: "pos + length d \<le> length ?b" by (simp add: length_write_at)
  have tk: "take (pos + length d) ?b = take pos content @ d"
    using Cons.prems by (simp add: write_at_def)
  have dr: "drop (pos + length d + k) ?b = drop (pos + length d + k) content" for k
    using Cons.prems by (simp add: write_at_def) (simp add: add.commute add.left_commute)
  show ?case using Cons.IH [OF len] by (simp add: tk dr add.assoc [symmetric])
qed simp

lemma download_loop_chunks:
  assumes "list_all2 (\<lambda>f m. frame_view m = Some f) (chunk_frames sid tok off ds @ [FFileDone sid tok]) ms"
  shows "\<exists>s'. download_loop (\<lambda>_. True) i ms content pos s =
    (None, fst (foldl (\<lambda>(b, p) d. (write_at p d b, p + length d)) (content, pos) ds), s') \<and>
    s_FileName s' = s_FileName s \<and> s_FileSize s' = s_FileSize s"
  using assms
proof (induction ds arbitrary: off ms i content pos s)
  case Nil
  then obtain m where "ms = [m]" "frame_view m = Some (FFileDone sid tok)" by (auto simp: list_all2_Cons1)
  then show ?case using frame_view_done [of m] by (simp add: msg_types)
next
  case (Cons d ds)
  obtain m ms' where ms: "ms = m # ms'" and m: "frame_view m = Some (FFileChunk sid tok off d)"
    and rest: "list_all2 (\<lambda>f m. frame_view m = Some f)
      (chunk_frames sid tok (off + of_nat (length d)) ds @ [FFileDone sid tok]) ms'"
    using Cons.prems by (auto simp: list_all2_Cons1)
  obtain s' where "download_loop (\<lambda>_. True) (Suc i) ms' (write_at pos d content) (pos + length d)
      (s\<lparr>s_Offset := s_Offset s + int (length d)\<rparr>) =
      (None, fst (foldl (\<lambda>(b, p) d. (write_at p d b, p + length d)) (write_at pos d content, pos + length d) ds), s')"
    "s_FileName s' = s_FileName s" "s_FileSize s' = s_FileSize s"
    using Cons.IH [OF rest, of "Suc i" "write_at pos d content" "pos + length d"
        "s\<lparr>s_Offset := s_Offset s + int (length d)\<rparr>"] by auto
  then show ?case using frame_view_chunk [OF m] by (simp add: ms msg_types Let_def)
qed

subsection \<open>Instances for the properties\<close>

function split_reads :: "nat \<Rightarrow> byte list \<Rightarrow> byte list list" where
  "split_reads n b = (if n = 0 \<or> b = [] then [] else take n b # split_reads n (drop n b))"
  by auto
termination by (relation "measure (\<lambda>(n, b). length b)") auto

declare split_reads.simps [simp del]

definition full_reads :: reads where
  "full_reads n b = (split_reads n b, True)"

lemma split_reads_chunks: "x \<in> set (split_reads n b) \<Longrightarrow> x \<noteq> [] \<and> length x \<le> n"
proof (induction n b rule: split_reads.induct)
  case (1 n b)
  have unf: "split_reads n b = (if n = 0 \<or> b = [] then [] else take n b # split_reads n (drop n b))"
    by (rule split_reads.simps)
  show ?case using 1 by (auto simp: unf split: if_splits)
qed

lemma concat_split_reads: "0 < n \<Longrightarrow> concat (split_reads n b) = b"
proof (induction n b rule: split_reads.induct)
  case (1 n b)
  then show ?case by (subst split_reads.simps) auto
qed

lemma full_reads_ok: "reads_ok full_reads"
  unfolding reads_ok_def full_reads_def by (auto simp: concat_split_reads dest: split_reads_chunks)

lemma frame_arrives:
  assumes "wire_frame f" "send_frame f = Some bs"
  obtains m where "frame_view m = Some f"
  using send_recv_frame [OF assms, of "[]"] by (auto simp: recv_frame_def split: option.splits)

lemma frames_arrive:
  assumes "\<And>f. f \<in> set fs \<Longrightarrow> \<exists>m. P f m"
  obtains ms where "list_all2 P fs ms"
proof -
  have "\<exists>ms. list_all2 P fs ms" using assms
  proof (induction fs)
    case (Cons f fs)
    obtain m where "P f m" using Cons.prems [of f] by auto
    moreover obtain ms where "list_all2 P fs ms" using Cons by auto
    ultimately have "list_all2 P (f # fs) (m # ms)" by simp
    then show ?case by blast
  qed (auto intro: exI [of _ "[]"])
  then show ?thesis using that by blast
qed


definition sample_download :: BackupSession where
  "sample_download =
     \<lparr>sess_ID = ''down-1'', sess_Token = ''t'', sess_DeviceID = ''d'', sess_FileID = [], sess_LogicalPath = [],
      sess_FileName = ''5_a'', sess_FileSize = 2, sess_Checksum = [], sess_Direction = DirectionDownload,
      sess_Status = SessionActive, sess_TempPath = [], sess_FinalPath = ''backups/d/5_a'', sess_BytesDone = 0,
      sess_CreatedAt = 0, sess_UpdatedAt = 0\<rparr>"

definition sample_state :: transfer_state where
  "sample_state = \<lparr>activeUpload = (\<lambda>_. None), deviceTokens = [''d'' \<mapsto> ''a.b.c''],
     Backup_svc = Some (sample_service\<lparr>sessions := [''down-1'' \<mapsto> sample_download]\<rparr>),
     storage = [''backups/d/5_a'' \<mapsto> [1, 2]], version_rows = []\<rparr>"

definition sample_session :: Session where
  "sample_session = \<lparr>s_SessionID = ''down-1'', s_Token = ''t'', s_FileName = ''5_a'', s_FileSize = 2, s_Offset = 0,
     s_ChunkSize = 2, s_TCPHost = ''h'', s_TCPPort = 1, s_Direction = ''download'', s_Status = ''active''\<rparr>"

lemmas send_simps = SendFileMeta_def SendFileChunkWithSession_def SendFileDoneWithSession_def SendCommand_def
  SendLogin_def protocol_send_file_meta_def protocol_send_file_chunk_def protocol_send_file_done_def
  protocol_send_command_def protocol_send_login_def protocol_send_frame_def protocol_limits IsOpen_def
  INVALID_SOCKET_def send_via_def

lemma nul_free_ascii:
  assumes "CHR 0x00 \<notin> set s"
  shows "nul_free (to_bytes s)"
proof (rule ccontr)
  assume "\<not> nul_free (to_bytes s)"
  then have "0 \<in> (\<lambda>c. of_nat (of_char c) :: byte) ` set s" by (simp add: nul_free_def to_bytes_def)
  then obtain c where c: "c \<in> set s" and "0 = (of_nat (of_char c) :: byte)" by (rule imageE)
  then have "unat (of_nat (of_char c) :: byte) = 0" by simp
  then have "(of_char c :: nat) = of_char (CHR 0x00)" by (simp add: unat_of_nat)
  then have "c = CHR 0x00" by (simp only: of_char_eq_iff)
  with c assms show False by metis
qed


subsection \<open>Uploads that do not arrive as they were read\<close>

fun is_chunk :: "frame \<Rightarrow> bool" where
  "is_chunk (FFileChunk s t off d) = True"
| "is_chunk _ = False"

lemma filter_chunk_frames [simp]: "filter is_chunk (chunk_frames sid tok off ds) = chunk_frames sid tok off ds"
  by (induction ds arbitrary: off) simp_all

lemma chunk_send_ok:
  assumes "nul_free sid" "nul_free tok" "length sid \<le> 128" "length tok \<le> 1024" "d \<noteq> []" "length d \<le> 1000000"
  shows "\<exists>bs. SendFileChunkWithSession True (Some \<lparr>fd = 3\<rparr>) sid tok off d = Inr bs"
  using assms by (simp add: send_simps)

lemma upload_chunks_succeed:
  assumes "nul_free sid" "nul_free tok" "length sid \<le> 128" "length tok \<le> 1024"
    and "\<forall>d\<in>set ds. d \<noteq> [] \<and> length d \<le> 1000000"
  shows "\<exists>fs k'. upload_chunks (\<lambda>_. True) (Some \<lparr>fd = 3\<rparr>) sid tok k off ds = (fs, k', None)"
  using assms(5)
proof (induction ds arbitrary: k off)
  case (Cons d ds)
  obtain bs where "SendFileChunkWithSession True (Some \<lparr>fd = 3\<rparr>) sid tok off d = Inr bs"
    using chunk_send_ok [OF assms(1-4)] Cons.prems by force
  moreover obtain fs k' where
    "upload_chunks (\<lambda>_. True) (Some \<lparr>fd = 3\<rparr>) sid tok (Suc k) (off + of_nat (length d)) ds = (fs, k', None)"
    using Cons by force
  ultimately show ?case using Cons.prems by (simp add: Let_def)
qed simp

lemma chunk_frame_arrives:
  assumes "nul_free sid" "nul_free tok" "length sid \<le> 128" "length tok < 256" "d \<noteq> []" "length d \<le> 1000000"
  shows "\<exists>m. delivered dev (FFileChunk sid tok off d) m"
proof -
  have "\<exists>bs. send_frame (FFileChunk sid tok off d) = Some bs" using assms by (simp add: send_simps)
  then obtain m where m: "frame_view m = Some (FFileChunk sid tok off d)"
    using assms frame_arrives [of "FFileChunk sid tok off d"] by auto
  have "frame_view (m\<lparr>DeviceID := to_bytes dev\<rparr>) = Some (FFileChunk sid tok off d)"
    using m by (auto simp: frame_view_def split: if_splits option.splits)
  then show ?thesis unfolding delivered_def by (intro exI [of _ "m\<lparr>DeviceID := to_bytes dev\<rparr>"]) simp
qed

lemma chunk_frames_arrive:
  assumes "nul_free sid" "nul_free tok" "length sid \<le> 128" "length tok < 256"
    and "\<forall>d\<in>set ds. d \<noteq> [] \<and> length d \<le> 1000000"
  shows "\<exists>ms. list_all2 (delivered dev) (chunk_frames sid tok off ds) ms"
  using assms(5)
proof (induction ds arbitrary: off)
  case Nil
  show ?case by (auto intro: exI [of _ "[]"])
next
  case (Cons d ds)
  obtain m where m: "delivered dev (FFileChunk sid tok off d) m"
    using chunk_frame_arrives [OF assms(1-4)] Cons.prems by force
  obtain ms where ms: "list_all2 (delivered dev) (chunk_frames sid tok (off + of_nat (length d)) ds) ms"
    using Cons by force
  have "list_all2 (delivered dev) (chunk_frames sid tok off (d # ds)) (m # ms)" using m ms by simp
  then show ?case by blast
qed

text \<open>
  C14: the offset of a chunk is a 32-bit counter.  An upload of a file longer than 4 GiB by more than one buffer
  reports success at the agent, and even when the backend accepts every single chunk, the temporary file is not
  the file that was read.
\<close>
theorem upload_beyond_4gib_is_corrupted:
  assumes up: "UploadFile connect sent rd dev s (Some content) = (out, None)" and rd: "reads_ok rd"
    and size: "2 ^ 32 + upload_buffer s < length content"
    and open_: "upload_open dev s0 [] c" and ids: "sess_ID s0 = s_SessionID s" "sess_Token s0 = s_Token s"
    and io: "chunk_io_ok io" and arrive: "list_all2 (delivered dev) (filter is_chunk out) ms"
  shows "\<exists>b. storage (fold (handleFileChunk io) ms c) (sess_TempPath s0) = Some b \<and> b \<noteq> content"
proof -
  obtain content' chunks login where fc: "Some content = Some content'" "concat chunks = content'"
    and ch: "\<forall>d\<in>set chunks. d \<noteq> [] \<and> length d \<le> upload_buffer s"
    and login: "login = [] \<or> login = [FLogin (to_bytes dev) (to_bytes (s_Token s))] \<and> dev \<noteq> []"
    and out: "out = login @ FFileMeta (to_bytes (s_FileName s)) (word_of_int (s_FileSize s)) #
       chunk_frames (to_bytes (s_SessionID s)) (to_bytes (s_Token s)) 0 chunks @
       [FFileDone (to_bytes (s_SessionID s)) (to_bytes (s_Token s))]"
    using up rd by (rule UploadFile_frames)
  have "filter is_chunk out = chunk_frames (to_bytes (sess_ID s0)) (to_bytes (sess_Token s0)) 0 chunks"
    using login by (auto simp: out ids)
  then have "upload_open dev s0 (write_chunks 0 chunks []) (fold (handleFileChunk io) ms c)"
    using handleFileChunk_fold [OF open_ io, of chunks 0 ms] arrive ch by simp
  moreover have "length (write_chunks 0 chunks []) \<le> 2 ^ 32 + upload_buffer s"
    using write_chunks_length [of chunks "upload_buffer s" 0 "[]"] ch by simp
  ultimately show ?thesis using size by (auto simp: upload_open_def)
qed

definition sample_upload_session :: Session where
  "sample_upload_session = sample_session\<lparr>s_SessionID := ''up-1'', s_Direction := ''upload''\<rparr>"

definition sample_uploading :: transfer_state where
  "sample_uploading = \<lparr>activeUpload = [''up-1'' \<mapsto> (''up-1'', ''t'')], deviceTokens = [''d'' \<mapsto> ''a.b.c''],
     Backup_svc = Some (sample_service\<lparr>sessions := [''up-1'' \<mapsto>
       sample_download\<lparr>sess_ID := ''up-1'', sess_Direction := DirectionUpload, sess_TempPath := ''x.part'',
         sess_FinalPath := ''x'', sess_LogicalPath := ''/x''\<rparr>]\<rparr>),
     storage = [''x.part'' \<mapsto> []], version_rows = []\<rparr>"

definition sample_upload_record :: BackupSession where
  "sample_upload_record = sample_download\<lparr>sess_ID := ''up-1'', sess_Direction := DirectionUpload,
     sess_TempPath := ''x.part'', sess_FinalPath := ''x'', sess_LogicalPath := ''/x''\<rparr>"

lemma sample_uploading_open: "upload_open ''d'' sample_upload_record [] sample_uploading"
proof -
  have "progress sample_upload_record sample_upload_record"
    unfolding progress_def
    by (intro exI [of _ "sess_BytesDone sample_upload_record"] exI [of _ "sess_UpdatedAt sample_upload_record"]) simp
  then show ?thesis
    by (simp add: upload_open_def sample_uploading_def isAuthorized_def sample_upload_record_def sample_download_def)
qed

lemma sample_upload_names:
  "nul_free (to_bytes ''up-1'')" "nul_free (to_bytes ''t'')" "nul_free (to_bytes ''5_a'')" "nul_free (to_bytes ''d'')"
  "length (to_bytes ''up-1'') \<le> 128" "length (to_bytes ''t'') < 256" "length (to_bytes ''t'') \<le> 1024"
  by (simp_all add: nul_free_ascii)

lemma sample_upload_runs:
  obtains fs k where
    "UploadFile (\<lambda>_ _. 3) (\<lambda>_. True) full_reads ''d'' sample_upload_session (Some b) =
      (FLogin (to_bytes ''d'') (to_bytes ''t'') # FFileMeta (to_bytes ''5_a'') 2 # fs @
        [FFileDone (to_bytes ''up-1'') (to_bytes ''t'')], None)"
    "upload_chunks (\<lambda>_. True) (Some \<lparr>fd = 3\<rparr>) (to_bytes ''up-1'') (to_bytes ''t'') 2 0 (split_reads 2 b) = (fs, k, None)"
proof -
  have ch: "\<forall>d\<in>set (split_reads 2 b). d \<noteq> [] \<and> length d \<le> 1000000" using split_reads_chunks [of _ 2 b] by fastforce
  obtain fs k where loop: "upload_chunks (\<lambda>_. True) (Some \<lparr>fd = 3\<rparr>) (to_bytes ''up-1'') (to_bytes ''t'') 2 0 (split_reads 2 b) = (fs, k, None)"
    using upload_chunks_succeed [OF sample_upload_names(1,2,5,7) ch] by blast
  have "UploadFile (\<lambda>_ _. 3) (\<lambda>_. True) full_reads ''d'' sample_upload_session (Some b) =
      (FLogin (to_bytes ''d'') (to_bytes ''t'') # FFileMeta (to_bytes ''5_a'') 2 # fs @
        [FFileDone (to_bytes ''up-1'') (to_bytes ''t'')], None)"
    using loop sample_upload_names
    by (simp add: UploadFile_def sample_upload_session_def sample_session_def upload_buffer_def full_reads_def
        DialTCP_def send_simps Let_def)
  then show ?thesis using that loop by blast
qed

theorem upload_beyond_4gib_is_corrupted_witness:
  "\<exists>content out ms b. length content = 2 ^ 32 + 3 \<and>
     UploadFile (\<lambda>_ _. 3) (\<lambda>_. True) full_reads ''d'' sample_upload_session (Some content) = (out, None) \<and>
     storage (fold (handleFileChunk \<lparr>c_open_ok = True, c_seek_ok = True, c_write_limit = None, c_now = 0\<rparr>)
       ms sample_uploading) (sess_TempPath sample_upload_record) = Some b \<and> b \<noteq> content"
proof -
  obtain content :: "byte list" where len: "length content = 2 ^ 32 + 3" using Ex_list_of_length by blast
  let ?io = "\<lparr>c_open_ok = True, c_seek_ok = True, c_write_limit = None, c_now = 0\<rparr>"
  let ?sid = "to_bytes ''up-1''" and ?tok = "to_bytes ''t''" and ?chunks = "split_reads 2 content"
  have ch: "\<forall>d\<in>set ?chunks. d \<noteq> [] \<and> length d \<le> 1000000" using split_reads_chunks [of _ 2 content] by fastforce
  obtain fs k where up: "UploadFile (\<lambda>_ _. 3) (\<lambda>_. True) full_reads ''d'' sample_upload_session (Some content) =
      (FLogin (to_bytes ''d'') ?tok # FFileMeta (to_bytes ''5_a'') 2 # fs @ [FFileDone ?sid ?tok], None)"
    and loop: "upload_chunks (\<lambda>_. True) (Some \<lparr>fd = 3\<rparr>) ?sid ?tok 2 0 ?chunks = (fs, k, None)"
    by (rule sample_upload_runs)
  have fs: "fs = chunk_frames ?sid ?tok 0 ?chunks" using upload_chunks_frames [OF loop] ch by blast
  obtain ms where ms: "list_all2 (delivered ''d'') (chunk_frames ?sid ?tok 0 ?chunks) ms"
    using chunk_frames_arrive [OF sample_upload_names(1,2,5,6) ch] by blast
  have "\<exists>b. storage (fold (handleFileChunk ?io) ms sample_uploading) (sess_TempPath sample_upload_record) = Some b \<and> b \<noteq> content"
  proof (rule upload_beyond_4gib_is_corrupted [OF up full_reads_ok _ sample_uploading_open])
    show "2 ^ 32 + upload_buffer sample_upload_session < length content"
      by (simp add: len upload_buffer_def sample_upload_session_def sample_session_def)
    show "list_all2 (delivered ''d'') (filter is_chunk (FLogin (to_bytes ''d'') ?tok # FFileMeta (to_bytes ''5_a'') 2 #
        fs @ [FFileDone ?sid ?tok])) ms" using ms by (simp add: fs)
  qed (simp_all add: sample_upload_record_def sample_upload_session_def sample_session_def sample_download_def chunk_io_ok_def)
  with len up show ?thesis by blast
qed

text \<open>
  The end-of-file frame is believed as it is: whatever part of the file has arrived, even nothing, the upload
  is finalised, the session counts as completed with all its bytes done, the version table gains a row with the
  announced size, and the stored file is what had arrived.
\<close>
theorem incomplete_upload_is_recorded_as_complete:
  assumes "upload_open dev s0 content c" "gorm_reliable db" "rename_ok io 0"
    and "delivered dev (FFileDone (to_bytes (sess_ID s0)) (to_bytes (sess_Token s0))) m"
    and "sess_TempPath s0 \<noteq> []" "has_versions (the (Backup_svc c))" "sess_LogicalPath s0 \<noteq> []"
    and "\<And>d p. gapless (history d p (version_rows c))"
  shows "\<exists>svc sess row. Backup_svc (handleFileDone db now io m c) = Some svc \<and>
    sessions svc (sess_ID s0) = Some sess \<and> sess_Status sess = SessionCompleted \<and>
    sess_BytesDone sess = sess_FileSize s0 \<and>
    version_rows (handleFileDone db now io m c) = version_rows c @ [row] \<and> VSize row = sess_FileSize s0 \<and>
    storage (handleFileDone db now io m c) (sess_FinalPath s0) = Some content"
  using handleFileDone_step [OF assms, of now] by auto

theorem incomplete_upload_is_recorded_as_complete_witness:
  "\<exists>m svc sess row. Backup_svc (handleFileDone memory_gorm 0 sample_io m sample_uploading) = Some svc \<and>
    sessions svc ''up-1'' = Some sess \<and> sess_Status sess = SessionCompleted \<and>
    version_rows (handleFileDone memory_gorm 0 sample_io m sample_uploading) = [row] \<and> VSize row = 2 \<and>
    storage (handleFileDone memory_gorm 0 sample_io m sample_uploading) ''x'' = Some []"
proof -
  have "\<exists>bs. send_frame (FFileDone (to_bytes ''up-1'') (to_bytes ''t'')) = Some bs" by (simp add: send_simps sample_upload_names)
  then obtain m0 where m0: "frame_view m0 = Some (FFileDone (to_bytes ''up-1'') (to_bytes ''t''))"
    using frame_arrives [of "FFileDone (to_bytes ''up-1'') (to_bytes ''t'')"] sample_upload_names by auto
  let ?m = "m0\<lparr>DeviceID := to_bytes ''d''\<rparr>"
  have m: "delivered ''d'' (FFileDone (to_bytes (sess_ID sample_upload_record)) (to_bytes (sess_Token sample_upload_record))) ?m"
    using m0 by (auto simp: delivered_def frame_view_def sample_upload_record_def sample_download_def split: if_splits option.splits)
  have rec: "sess_ID sample_upload_record = ''up-1''" "sess_FinalPath sample_upload_record = ''x''" "sess_FileSize sample_upload_record = 2"
    by (simp_all add: sample_upload_record_def sample_download_def)
  have "\<exists>svc sess row. Backup_svc (handleFileDone memory_gorm 0 sample_io ?m sample_uploading) = Some svc \<and>
    sessions svc (sess_ID sample_upload_record) = Some sess \<and> sess_Status sess = SessionCompleted \<and>
    sess_BytesDone sess = sess_FileSize sample_upload_record \<and>
    version_rows (handleFileDone memory_gorm 0 sample_io ?m sample_uploading) = version_rows sample_uploading @ [row] \<and>
    VSize row = sess_FileSize sample_upload_record \<and>
    storage (handleFileDone memory_gorm 0 sample_io ?m sample_uploading) (sess_FinalPath sample_upload_record) = Some []"
    by (rule incomplete_upload_is_recorded_as_complete [OF sample_uploading_open _ _ m])
      (simp_all add: sample_io_def sample_upload_record_def sample_uploading_def sample_service_def history_def gapless_def)
  then show ?thesis unfolding rec by (intro exI [of _ ?m]) (auto simp: sample_uploading_def)
qed

end
