(* ===== verification/Monitor.thy ===== *)
theory Monitor
  imports Store
begin

text \<open>
  The agent's file monitor (\<open>agent/internal/monitor\<close>) and its table of monitored files
  (\<open>agent/internal/db/models.go\<close>).  The Windows watcher reads change records from a buffer that the
  operating system fills; the Linux watcher gets its events from the \<open>fsnotify\<close> package.  Both record every event in the
  table and offer it to a bounded channel.
\<close>

subsection \<open>Monitored files\<close>

record MonitoredFile =
  mf_ID :: nat
  mf_Path :: string
  mf_ItemID :: string
  mf_LastAction :: string
  mf_LastEventAt :: time
  mf_LastBackupAt :: "time option"
  mf_ChangePending :: bool
  mf_CreatedAt :: time
  mf_UpdatedAt :: time

type_synonym monitored = "MonitoredFile list"

datatype ActionType = ActionCreate | ActionModify | ActionDelete | ActionRename | ActionMove | ActionMoveOut

fun action_name :: "ActionType \<Rightarrow> string" where
  "action_name ActionCreate = ''create''"
| "action_name ActionModify = ''modify''"
| "action_name ActionDelete = ''delete''"
| "action_name ActionRename = ''rename''"
| "action_name ActionMove = ''move''"
| "action_name ActionMoveOut = ''move_out''"

text \<open>The zero value of a timestamp is \<open>None\<close>.\<close>

record FileEvent =
  ev_Action :: ActionType
  ev_Path :: string
  ev_OldPath :: string
  ev_Timestamp :: "time option"

text \<open>
  What the monitor depends on: the database (\<open>None\<close> before it is opened), the key of the next new row, the clock, and
  the path functions of the operating system.
\<close>

record mon_env =
  m_db :: "MonitoredFile gorm option"
  m_key :: "monitored \<Rightarrow> nat"
  m_clock :: "nat \<Rightarrow> time"
  m_stamp :: time
  m_join :: "string \<Rightarrow> string \<Rightarrow> string"
  m_dir :: "string \<Rightarrow> string"

record monitor_state =
  mon_rows :: monitored
  mon_out :: "FileEvent list"

subsection \<open>Recording an event\<close>

definition shouldMarkPending :: "ActionType \<Rightarrow> bool" where
  "shouldMarkPending action = (case action of ActionDelete \<Rightarrow> False | ActionMoveOut \<Rightarrow> False | _ \<Rightarrow> True)"

definition new_monitored :: "mon_env \<Rightarrow> monitored \<Rightarrow> string \<Rightarrow> ActionType \<Rightarrow> time \<Rightarrow> bool \<Rightarrow> MonitoredFile" where
  "new_monitored env rows path action ts pending =
     \<lparr>mf_ID = m_key env rows, mf_Path = path, mf_ItemID = [], mf_LastAction = action_name action, mf_LastEventAt = ts,
      mf_LastBackupAt = None, mf_ChangePending = pending, mf_CreatedAt = m_stamp env, mf_UpdatedAt = m_stamp env\<rparr>"

definition assign_monitored :: "MonitoredFile \<Rightarrow> MonitoredFile \<Rightarrow> MonitoredFile" where
  "assign_monitored record r =
     r\<lparr>mf_LastAction := mf_LastAction record, mf_LastEventAt := mf_LastEventAt record,
       mf_ChangePending := mf_ChangePending record\<rparr>"

text \<open>An error of the statement is logged and otherwise ignored.\<close>

definition upsert_monitored :: "mon_env \<Rightarrow> string \<Rightarrow> ActionType \<Rightarrow> time \<Rightarrow> bool \<Rightarrow> monitored \<Rightarrow> monitored" where
  "upsert_monitored env path action ts pending rows =
     (case m_db env of
        None \<Rightarrow> rows
      | Some db \<Rightarrow>
          (case g_exec db (upsert mf_Path assign_monitored (new_monitored env rows path action ts pending)) rows of
             Inl e \<Rightarrow> rows
           | Inr rows' \<Rightarrow> rows'))"

definition persistOldPath :: "mon_env \<Rightarrow> string \<Rightarrow> time \<Rightarrow> monitored \<Rightarrow> monitored" where
  "persistOldPath env oldPath ts rows = upsert_monitored env oldPath ActionMoveOut ts False rows"

definition persistMonitoredFile :: "mon_env \<Rightarrow> FileEvent \<Rightarrow> monitored \<Rightarrow> monitored" where
  "persistMonitoredFile env evt rows =
     (if ev_Path evt = [] \<or> m_db env = None then rows
      else
        let ts = (case ev_Timestamp evt of None \<Rightarrow> m_stamp env | Some t \<Rightarrow> t);
            rows' = upsert_monitored env (ev_Path evt) (ev_Action evt) ts (shouldMarkPending (ev_Action evt)) rows
        in if ev_OldPath evt \<noteq> [] \<and> ev_OldPath evt \<noteq> ev_Path evt
           then persistOldPath env (ev_OldPath evt) ts rows' else rows')"

definition eventQueueSize :: nat where "eventQueueSize = 128"

definition emitEvent :: "mon_env \<Rightarrow> FileEvent \<Rightarrow> monitor_state \<Rightarrow> monitor_state" where
  "emitEvent env evt st =
     (let st' = st\<lparr>mon_rows := persistMonitoredFile env evt (mon_rows st)\<rparr>
      in if length (mon_out st) < eventQueueSize then st'\<lparr>mon_out := mon_out st @ [evt]\<rparr> else st')"

subsection \<open>Windows: change records (file_monitor.go)\<close>

definition le16 :: "nat \<Rightarrow> byte list" where "le16 n = [of_nat n, of_nat (n div 256)]"

definition le32 :: "nat \<Rightarrow> byte list" where
  "le32 n = [of_nat n, of_nat (n div 256), of_nat (n div 65536), of_nat (n div 16777216)]"

fun from_le :: "byte list \<Rightarrow> nat" where
  "from_le [] = 0"
| "from_le (b # bs) = unat b + 256 * from_le bs"

definition Uint32 :: "byte list \<Rightarrow> nat \<Rightarrow> nat" where
  "Uint32 data i = from_le (take 4 (drop i data))"

text \<open>
  \<open>utf16.Decode\<close>: a pair of surrogates is one code point, a surrogate alone becomes U+FFFD.  The code points are
  then written in UTF-8.
\<close>

fun utf16_Decode :: "nat list \<Rightarrow> nat list" where
  "utf16_Decode [] = []"
| "utf16_Decode [u] = (if 0xD800 \<le> u \<and> u < 0xE000 then [0xFFFD] else [u])"
| "utf16_Decode (u # v # us) =
     (if u < 0xD800 \<or> 0xE000 \<le> u then u # utf16_Decode (v # us)
      else if u < 0xDC00 \<and> 0xDC00 \<le> v \<and> v < 0xE000
           then ((u - 0xD800) * 0x400 + (v - 0xDC00) + 0x10000) # utf16_Decode us
           else 0xFFFD # utf16_Decode (v # us))"

definition utf8 :: "nat \<Rightarrow> string" where
  "utf8 n =
     map (\<lambda>x. char_of x)
       (if n < 0x80 then [n]
        else if n < 0x800 then [0xC0 + n div 64, 0x80 + n mod 64]
        else if n < 0x10000 then [0xE0 + n div 4096, 0x80 + n div 64 mod 64, 0x80 + n mod 64]
        else [0xF0 + n div 262144, 0x80 + n div 4096 mod 64, 0x80 + n div 64 mod 64, 0x80 + n mod 64])"

fun units :: "byte list \<Rightarrow> nat list" where
  "units (a # b # bs) = from_le [a, b] # units bs"
| "units bs = []"

definition decodeUTF16 :: "byte list \<Rightarrow> string" where
  "decodeUTF16 b = concat (map utf8 (utf16_Decode (units b)))"

text \<open>
  The inner loop over the buffer: the action and name of each record, and whether the loop ends in a panic because
  the offset of the next record lies behind the data.
\<close>

function notify_records :: "byte list \<Rightarrow> nat \<Rightarrow> (nat \<times> string) list \<times> bool" where
  "notify_records data offset =
     (if length data < offset then ([], True)
      else if length data - offset < 12 then ([], False)
      else
        let next = Uint32 data offset; action = Uint32 data (offset + 4); nameLen = Uint32 data (offset + 8);
            end = offset + 12 + nameLen
        in if end > length data then ([], False)
           else
             let r = (action, decodeUTF16 (take nameLen (drop (offset + 12) data)))
             in if next = 0 then ([r], False)
                else case notify_records data (offset + next) of (rs, panics) \<Rightarrow> (r # rs, panics))"
  by auto
termination by (relation "measure (\<lambda>(data, offset). Suc (length data) - offset)") auto

declare notify_records.simps [simp del]

record pendingRename =
  pr_path :: string
  pr_when :: time

definition renamePairTTL :: time where "renamePairTTL = 2 * second"

definition dispatchAction ::
    "mon_env \<Rightarrow> nat \<Rightarrow> string \<Rightarrow> time \<Rightarrow> pendingRename list \<Rightarrow> monitor_state \<Rightarrow> pendingRename list \<times> monitor_state" where
  "dispatchAction env action fullPath ts queue st =
     (let simple = (\<lambda>a. \<lparr>ev_Action = a, ev_Path = fullPath, ev_OldPath = [], ev_Timestamp = Some ts\<rparr>)
      in if action = 1 then (queue, emitEvent env (simple ActionCreate) st)
         else if action = 2 then (queue, emitEvent env (simple ActionDelete) st)
         else if action = 3 \<or> action = 6 \<or> action = 7 \<or> action = 8 then (queue, emitEvent env (simple ActionModify) st)
         else if action = 4 then (queue @ [\<lparr>pr_path = fullPath, pr_when = ts\<rparr>], st)
         else if action = 5 then
           (case queue of
              [] \<Rightarrow> (queue, emitEvent env (simple ActionCreate) st)
            | old # queue' \<Rightarrow>
                (queue',
                 emitEvent env
                   \<lparr>ev_Action = (if m_dir env (pr_path old) \<noteq> m_dir env fullPath then ActionMove else ActionRename),
                    ev_Path = fullPath, ev_OldPath = pr_path old, ev_Timestamp = Some ts\<rparr> st))
         else (queue, emitEvent env (simple ActionModify) st))"

fun flushExpiredRenames ::
    "mon_env \<Rightarrow> pendingRename list \<Rightarrow> time \<Rightarrow> monitor_state \<Rightarrow> pendingRename list \<times> monitor_state" where
  "flushExpiredRenames env [] now st = ([], st)"
| "flushExpiredRenames env (p # queue) now st =
     (if now - pr_when p > renamePairTTL then
        flushExpiredRenames env queue now
          (emitEvent env \<lparr>ev_Action = ActionMoveOut, ev_Path = pr_path p, ev_OldPath = pr_path p, ev_Timestamp = Some now\<rparr> st)
      else (p # queue, st))"

text \<open>\<open>k\<close> counts the readings of the clock.\<close>

fun process_records ::
    "mon_env \<Rightarrow> string \<Rightarrow> nat \<Rightarrow> (nat \<times> string) list \<Rightarrow> pendingRename list \<Rightarrow> monitor_state \<Rightarrow>
     nat \<times> pendingRename list \<times> monitor_state" where
  "process_records env target k [] queue st = (k, queue, st)"
| "process_records env target k ((action, name) # rs) queue st =
     (let fullPath = m_join env target name; ts = m_clock env k;
          (queue1, st1) = flushExpiredRenames env queue ts st;
          (queue2, st2) = dispatchAction env action fullPath ts queue1 st1
      in process_records env target (Suc k) rs queue2 st2)"

definition ERROR_INVALID_HANDLE :: nat where "ERROR_INVALID_HANDLE = 6"
definition ERROR_INVALID_PARAMETER :: nat where "ERROR_INVALID_PARAMETER = 87"
definition ERROR_OPERATION_ABORTED :: nat where "ERROR_OPERATION_ABORTED = 995"

definition isTerminalWatcherErr :: "nat \<Rightarrow> bool" where
  "isTerminalWatcherErr errno \<longleftrightarrow>
     errno = ERROR_OPERATION_ABORTED \<or> errno = ERROR_INVALID_HANDLE \<or> errno = 0xC0000005"

datatype watch_end = Stopped | BadHandle | NoMemory | Terminal | TooManyErrors | WatchPanics

definition maxRetries :: nat where "maxRetries = 10"

text \<open>
  The outer loop on the successive results of \<open>ReadDirectoryChanges\<close>, an error number or the bytes it wrote;
  \<open>stop\<close> is closed when they are used up.
\<close>

fun watch_loop ::
    "mon_env \<Rightarrow> string \<Rightarrow> nat \<Rightarrow> nat \<Rightarrow> pendingRename list \<Rightarrow> (nat + byte list) list \<Rightarrow> monitor_state \<Rightarrow>
     watch_end \<times> monitor_state" where
  "watch_loop env target k retryCount queue [] st = (Stopped, st)"
| "watch_loop env target k retryCount queue (Inl errno # reads) st =
     (if isTerminalWatcherErr errno then (Terminal, st)
      else if errno = ERROR_INVALID_HANDLE \<or> errno = ERROR_INVALID_PARAMETER then (BadHandle, st)
      else if Suc retryCount \<ge> maxRetries then (TooManyErrors, st)
      else watch_loop env target k (Suc retryCount) queue reads st)"
| "watch_loop env target k retryCount queue (Inr data # reads) st =
     (if data = [] then watch_loop env target k 0 queue reads st
      else
        let (rs, panics) = notify_records data 0; (k', queue', st') = process_records env target k rs queue st
        in if panics then (WatchPanics, st') else watch_loop env target k' 0 queue' reads st')"

definition valid_handle :: "64 word \<Rightarrow> bool" where
  "valid_handle h \<longleftrightarrow> h \<noteq> 0 \<and> h \<noteq> - 1"

definition streamDirectory ::
    "mon_env \<Rightarrow> bool \<Rightarrow> string \<times> 64 word \<Rightarrow> (nat + byte list) list \<Rightarrow> monitor_state \<Rightarrow> watch_end \<times> monitor_state" where
  "streamDirectory env alloc_ok target reads st =
     (if \<not> alloc_ok then (NoMemory, st)
      else if reads \<noteq> [] \<and> \<not> valid_handle (snd target) then (BadHandle, st)
      else watch_loop env (fst target) 0 0 [] reads st)"


text \<open>What the file system answers while a watcher is set up.\<close>

record setup_fs =
  fs_Abs :: "string \<Rightarrow> string option"
  fs_Stat :: "string \<Rightarrow> bool option"
  fs_Open :: "string \<Rightarrow> bool"
  fs_Handle :: "string \<Rightarrow> 64 word option"
  fs_Clean :: "string \<Rightarrow> string"
  fs_Dir :: "string \<Rightarrow> string"

definition watch_dir :: "setup_fs \<Rightarrow> string \<Rightarrow> string option" where
  "watch_dir fs raw =
     (case fs_Abs fs raw of
        None \<Rightarrow> None
      | Some p \<Rightarrow>
          (case fs_Stat fs p of
             None \<Rightarrow> None
           | Some is_dir \<Rightarrow> Some (fs_Clean fs (if is_dir then p else fs_Dir fs p))))"

fun open_targets :: "setup_fs \<Rightarrow> string list \<Rightarrow> (string \<times> 64 word) list \<Rightarrow> (string \<times> 64 word) list" where
  "open_targets fs [] targets = targets"
| "open_targets fs (raw # paths) targets =
     (case watch_dir fs raw of
        None \<Rightarrow> open_targets fs paths targets
      | Some dir \<Rightarrow>
          if dir \<in> fst ` set targets \<or> fs_Stat fs dir = None \<or> \<not> fs_Open fs dir then open_targets fs paths targets
          else case fs_Handle fs dir of
                 None \<Rightarrow> open_targets fs paths targets
               | Some h \<Rightarrow>
                   open_targets fs paths (if valid_handle h then targets @ [(dir, h)] else targets))"

definition NewFileMonitor :: "setup_fs \<Rightarrow> string list \<Rightarrow> (string, (string \<times> 64 word) list) res" where
  "NewFileMonitor fs paths =
     (let targets = open_targets fs paths []
      in if targets = [] then Inl ''file monitor: no valid directories to watch'' else Inr targets)"

subsection \<open>Linux: inotify events (file_monitor_linux.go)\<close>

text \<open>
  The \<open>fsnotify\<close> watcher is a parameter: whether it accepts a directory.  A walk of a directory tree is the
  sequence of entries that \<open>filepath.WalkDir\<close> visits, each a path with whether it is a directory, or an error.
\<close>

record linux_fs =
  l_Add :: "string \<Rightarrow> bool"
  l_Walk :: "string \<Rightarrow> (string \<times> bool option) list"
  l_Stat :: "string \<Rightarrow> bool option"

definition addWatch :: "linux_fs \<Rightarrow> string \<Rightarrow> string set \<Rightarrow> bool \<times> string set" where
  "addWatch fs dir watched =
     (if dir \<in> watched then (True, watched)
      else if l_Add fs dir then (True, insert dir watched) else (False, watched))"

fun walk_watch :: "linux_fs \<Rightarrow> (string \<times> bool option) list \<Rightarrow> string set \<Rightarrow> bool \<times> string set" where
  "walk_watch fs [] watched = (True, watched)"
| "walk_watch fs ((path, entry) # es) watched =
     (if entry \<noteq> Some True then walk_watch fs es watched
      else case addWatch fs path watched of
             (False, watched') \<Rightarrow> (False, watched')
           | (True, watched') \<Rightarrow> walk_watch fs es watched')"

definition watchRecursive :: "linux_fs \<Rightarrow> string \<Rightarrow> string set \<Rightarrow> bool \<times> string set" where
  "watchRecursive fs root watched = walk_watch fs (l_Walk fs root) watched"

definition removeWatch :: "string \<Rightarrow> string set \<Rightarrow> string set" where
  "removeWatch path watched = (if path \<in> watched then watched - {path} else watched)"

definition isDir :: "linux_fs \<Rightarrow> string \<Rightarrow> bool" where
  "isDir fs path \<longleftrightarrow> l_Stat fs path = Some True"

fun watch_paths ::
    "setup_fs \<Rightarrow> linux_fs \<Rightarrow> string list \<Rightarrow> string set \<Rightarrow> string set \<Rightarrow> string set" where
  "watch_paths sfs fs [] seen watched = watched"
| "watch_paths sfs fs (raw # paths) seen watched =
     (case watch_dir sfs raw of
        None \<Rightarrow> watch_paths sfs fs paths seen watched
      | Some dir \<Rightarrow>
          if dir \<in> seen then watch_paths sfs fs paths seen watched
          else case watchRecursive fs dir watched of
                 (False, watched') \<Rightarrow> watch_paths sfs fs paths seen watched'
               | (True, watched') \<Rightarrow> watch_paths sfs fs paths (insert dir seen) watched')"

definition NewFileMonitor_linux :: "setup_fs \<Rightarrow> linux_fs \<Rightarrow> string list \<Rightarrow> (string, string set) res" where
  "NewFileMonitor_linux sfs fs paths =
     (let watched = watch_paths sfs fs paths {} {}
      in if watched = {} then Inl ''file monitor: no valid directories to watch'' else Inr watched)"

text \<open>The operation bits of an \<open>fsnotify\<close> event.\<close>

record fsnotify_event =
  Name :: string
  op_Create :: bool
  op_Write :: bool
  op_Remove :: bool
  op_Rename :: bool

definition handleEvent ::
    "mon_env \<Rightarrow> linux_fs \<Rightarrow> time \<Rightarrow> fsnotify_event \<Rightarrow> monitor_state \<times> string set \<Rightarrow> monitor_state \<times> string set" where
  "handleEvent env fs now evt s0 =
     (let path = Clean (Name evt);
          mk = (\<lambda>a old. \<lparr>ev_Action = a, ev_Path = path, ev_OldPath = old, ev_Timestamp = Some now\<rparr>);
          s1 = (if op_Create evt then
                  (emitEvent env (mk ActionCreate []) (fst s0),
                   if isDir fs path then snd (watchRecursive fs path (snd s0)) else snd s0)
                else s0);
          s2 = (if op_Write evt then (emitEvent env (mk ActionModify []) (fst s1), snd s1) else s1);
          s3 = (if op_Remove evt then (emitEvent env (mk ActionDelete []) (fst s2), removeWatch path (snd s2)) else s2)
      in if op_Rename evt then (emitEvent env (mk ActionMoveOut path) (fst s3), removeWatch path (snd s3)) else s3)"

text \<open>The loop over the events and errors of the watcher; an error is logged.\<close>

fun processEvents ::
    "mon_env \<Rightarrow> linux_fs \<Rightarrow> (time \<times> fsnotify_event) option list \<Rightarrow> monitor_state \<times> string set \<Rightarrow> monitor_state \<times> string set" where
  "processEvents env fs [] s = s"
| "processEvents env fs (None # es) s = processEvents env fs es s"
| "processEvents env fs (Some (now, evt) # es) s = processEvents env fs es (handleEvent env fs now evt s)"


subsection \<open>Reading what Windows writes\<close>

text \<open>
  The documented layout of a buffer of change records: each starts with the distance to the next one (zero in the last),
  the action and the length of the name in bytes; the name in UTF-16 follows, with padding up to the next record.
\<close>

definition record_bytes :: "nat \<Rightarrow> nat \<times> nat list \<times> nat \<Rightarrow> byte list" where
  "record_bytes next r =
     (case r of (action, us, pad) \<Rightarrow>
        le32 next @ le32 action @ le32 (2 * length us) @ concat (map le16 us) @ replicate pad 0)"

fun notify_buffer :: "(nat \<times> nat list \<times> nat) list \<Rightarrow> byte list" where
  "notify_buffer [] = []"
| "notify_buffer [r] = record_bytes 0 r"
| "notify_buffer (r # rs) = record_bytes (length (record_bytes 0 r)) r @ notify_buffer rs"

definition change_record :: "nat \<times> nat list \<times> nat \<Rightarrow> bool" where
  "change_record r \<longleftrightarrow>
     (case r of (action, us, pad) \<Rightarrow> action < 2 ^ 32 \<and> (\<forall>u\<in>set us. u < 2 ^ 16) \<and> 12 + 2 * length us + pad < 2 ^ 32)"

lemma length_le [simp]: "length (le16 n) = 2" "length (le32 n) = 4" "length (concat (map le16 us)) = 2 * length us"
  by (simp_all add: le16_def le32_def length_concat comp_def sum_list_triv)

lemma byte_of_nat: "unat (of_nat n :: byte) = n mod 256"
  by (simp add: unat_of_nat)

lemma from_le32: "n < 2 ^ 32 \<Longrightarrow> from_le (le32 n) = n"
proof -
  assume n: "n < 2 ^ 32"
  have d: "n div 256 div 256 = n div 65536" "n div 65536 div 256 = n div 16777216" by (simp_all add: div_mult2_eq [symmetric])
  have "n div 16777216 < 256" using n by (simp add: less_mult_imp_div_less)
  then have "from_le (le32 n) = n mod 256 + 256 * (256 * (256 * (n div 16777216) + n div 65536 mod 256) + n div 256 mod 256)"
    by (simp add: le32_def byte_of_nat)
  also have "256 * (n div 16777216) + n div 65536 mod 256 = n div 65536" by (simp flip: d(2))
  also have "256 * (n div 65536) + n div 256 mod 256 = n div 256" by (simp flip: d(1))
  finally show ?thesis by simp
qed

lemma from_le16: "n < 2 ^ 16 \<Longrightarrow> from_le (le16 n) = n"
proof -
  assume n: "n < 2 ^ 16"
  have "n div 256 < 256" using n by (simp add: less_mult_imp_div_less)
  then show ?thesis using div_mult_mod_eq [of n 256] by (simp add: le16_def byte_of_nat)
qed

lemma units_le16: "\<forall>u\<in>set us. u < 2 ^ 16 \<Longrightarrow> units (concat (map le16 us)) = us"
  using from_le16 by (induction us) (simp_all add: le16_def)

lemma length_record_bytes: "length (record_bytes n (a, us, pad)) = 12 + 2 * length us + pad"
  by (simp add: record_bytes_def)

lemma read_record:
  assumes "change_record (a, us, pad)" "n < 2 ^ 32" and data: "data = pre @ record_bytes n (a, us, pad) @ post"
  shows "Uint32 data (length pre) = n" "Uint32 data (length pre + 4) = a" "Uint32 data (length pre + 8) = 2 * length us"
    "take (2 * length us) (drop (length pre + 12) data) = concat (map le16 us)"
proof -
  have lim: "a < 2 ^ 32" "2 * length us < 2 ^ 32" using assms(1) by (auto simp: change_record_def)
  have d: "drop (length pre) data = le32 n @ le32 a @ le32 (2 * length us) @ concat (map le16 us) @ replicate pad 0 @ post"
    by (simp add: data record_bytes_def)
  have drop_at: "drop (length pre + k) data = drop k (drop (length pre) data)" for k by (simp add: add.commute)
  show "Uint32 data (length pre) = n" "Uint32 data (length pre + 4) = a" "Uint32 data (length pre + 8) = 2 * length us"
    using from_le32 [OF assms(2)] from_le32 [OF lim(1)] from_le32 [OF lim(2)]
    unfolding Uint32_def drop_at d by simp_all
  show "take (2 * length us) (drop (length pre + 12) data) = concat (map le16 us)" unfolding drop_at d by simp
qed

lemma notify_records_buffer:
  assumes "recs \<noteq> []" "\<forall>r\<in>set recs. change_record r"
  shows "notify_records (pre @ notify_buffer recs) (length pre) =
    (map (\<lambda>(a, us, pad). (a, concat (map utf8 (utf16_Decode us)))) recs, False)"
  using assms
proof (induction recs arbitrary: pre rule: notify_buffer.induct)
  case (2 r)
  obtain a us pad where r: "r = (a, us, pad)" by (cases r)
  then have ok: "change_record (a, us, pad)" using 2 by simp
  have name: "decodeUTF16 (concat (map le16 us)) = concat (map utf8 (utf16_Decode us))"
    using ok by (simp add: decodeUTF16_def units_le16 change_record_def)
  show ?case using read_record [OF ok _ refl, of 0 pre "[]"] name
    by (subst notify_records.simps) (simp add: r length_record_bytes)
next
  case (3 r r' rs)
  obtain a us pad where r: "r = (a, us, pad)" by (cases r)
  let ?n = "12 + 2 * length us + pad" and ?post = "notify_buffer (r' # rs)"
  have ok: "change_record (a, us, pad)" and n: "?n < 2 ^ 32" using 3 r by (simp_all add: change_record_def)
  have name: "decodeUTF16 (concat (map le16 us)) = concat (map utf8 (utf16_Decode us))"
    using ok by (simp add: decodeUTF16_def units_le16 change_record_def)
  have IH: "notify_records (pre @ record_bytes ?n r @ ?post) (length pre + ?n) =
      (map (\<lambda>(a, us, pad). (a, concat (map utf8 (utf16_Decode us)))) (r' # rs), False)"
    using 3(1) [of "pre @ record_bytes ?n r"] 3(3) by (simp add: r length_record_bytes)
  have buf: "notify_buffer (r # r' # rs) = record_bytes ?n r @ ?post" by (simp add: r length_record_bytes)
  show ?case using read_record [OF ok n refl, of pre ?post] name IH unfolding buf
    by (subst notify_records.simps) (simp add: r length_record_bytes)
qed simp

text \<open>
  C26: the buffer of change records is read back exactly.  For any sequence of records in the documented layout, with any
  padding and with names in any UTF-16 code units, the loop over the buffer ends without a panic and yields every record once, in
  order, with its action and its name in UTF-8.
\<close>
theorem change_records_round_trip:
  assumes "recs \<noteq> []" "\<forall>r\<in>set recs. change_record r"
  shows "notify_records (notify_buffer recs) 0 =
    (map (\<lambda>(a, us, pad). (a, concat (map utf8 (utf16_Decode us)))) recs, False)"
  using notify_records_buffer [OF assms, of "[]"] by simp

theorem change_records_round_trip_witness:
  "notify_records (notify_buffer [(4, [97, 0xE9], 2), (5, [0xD83D, 0xDE00], 0)]) 0 =
     ([(4, ''a'' @ [CHR 0xC3, CHR 0xA9]), (5, [CHR 0xF0, CHR 0x9F, CHR 0x98, CHR 0x80])], False)"
  using change_records_round_trip [of "[(4, [97, 0xE9], 2), (5, [0xD83D, 0xDE00], 0)]"]
  by (simp add: change_record_def utf8_def char_of_def bit_0)


subsection \<open>The table follows the events\<close>

text \<open>
  The abstract state of the monitor is a map from paths to what is known of them: the last action, its time and whether it is
  still to be reported.
\<close>

type_synonym knowledge = "string \<Rightarrow> (string \<times> time \<times> bool) option"

definition known :: "monitored \<Rightarrow> knowledge" where
  "known rows p = map_option (\<lambda>r. (mf_LastAction r, mf_LastEventAt r, mf_ChangePending r)) (row_of mf_Path rows p)"

fun observe :: "ActionType \<times> string \<times> string \<times> time \<Rightarrow> knowledge \<Rightarrow> knowledge" where
  "observe (action, path, old, t) K =
     (let K' = K(path \<mapsto> (action_name action, t, action \<noteq> ActionDelete \<and> action \<noteq> ActionMoveOut))
      in if old \<noteq> [] \<and> old \<noteq> path then K'(old \<mapsto> (''move_out'', t, False)) else K')"

definition observed :: "FileEvent \<Rightarrow> ActionType \<times> string \<times> string \<times> time" where
  "observed e = (ev_Action e, ev_Path e, ev_OldPath e, the (ev_Timestamp e))"

definition event_ok :: "FileEvent \<Rightarrow> bool" where
  "event_ok e \<longleftrightarrow> ev_Path e \<noteq> [] \<and> ev_Timestamp e \<noteq> None"

lemma assign_monitored_path [simp]: "mf_Path (assign_monitored record r) = mf_Path r"
  by (simp add: assign_monitored_def)

lemma upsert_monitored_known:
  assumes db: "m_db env = Some db" "gorm_reliable db" and uniq: "distinct (map mf_Path rows)"
  shows "distinct (map mf_Path (upsert_monitored env path action ts pending rows))"
    "known (upsert_monitored env path action ts pending rows) = (known rows)(path \<mapsto> (action_name action, ts, pending))"
    "row_of mf_Path (upsert_monitored env path action ts pending rows) q = Some r \<Longrightarrow> row_of mf_Path rows q = Some r0 \<Longrightarrow>
       mf_ItemID r = mf_ItemID r0 \<and> mf_LastBackupAt r = mf_LastBackupAt r0 \<and> mf_ID r = mf_ID r0"
proof -
  let ?new = "new_monitored env rows path action ts pending"
  have eq: "upsert_monitored env path action ts pending rows = upsert mf_Path assign_monitored ?new rows"
    by (simp add: upsert_monitored_def db(1) gorm_exec_reliable [OF db(2)])
  have path: "mf_Path ?new = path" by (simp add: new_monitored_def)
  have row: "row_of mf_Path (upsert_monitored env path action ts pending rows) =
      (row_of mf_Path rows)(path \<mapsto> (case row_of mf_Path rows path of None \<Rightarrow> ?new | Some r \<Rightarrow> assign_monitored ?new r))"
    using row_of_upsert [of mf_Path assign_monitored ?new rows] unfolding eq path by simp
  show "distinct (map mf_Path (upsert_monitored env path action ts pending rows))"
    unfolding eq by (rule upsert_keys(1) [OF uniq]) simp
  show "known (upsert_monitored env path action ts pending rows) = (known rows)(path \<mapsto> (action_name action, ts, pending))"
    by (rule ext) (simp add: known_def row new_monitored_def assign_monitored_def split: option.split)
  show "mf_ItemID r = mf_ItemID r0 \<and> mf_LastBackupAt r = mf_LastBackupAt r0 \<and> mf_ID r = mf_ID r0"
    if "row_of mf_Path (upsert_monitored env path action ts pending rows) q = Some r" "row_of mf_Path rows q = Some r0"
    using that by (auto simp: row assign_monitored_def split: if_splits)
qed

lemma shouldMarkPending_iff: "shouldMarkPending a \<longleftrightarrow> a \<noteq> ActionDelete \<and> a \<noteq> ActionMoveOut"
  by (cases a) (simp_all add: shouldMarkPending_def)

lemma persist_known:
  assumes db: "m_db env = Some db" "gorm_reliable db" and uniq: "distinct (map mf_Path rows)" and e: "event_ok e"
  shows "distinct (map mf_Path (persistMonitoredFile env e rows)) \<and>
    known (persistMonitoredFile env e rows) = observe (observed e) (known rows)"
proof -
  obtain t where t: "ev_Timestamp e = Some t" using e by (auto simp: event_ok_def)
  let ?rows = "upsert_monitored env (ev_Path e) (ev_Action e) t (shouldMarkPending (ev_Action e)) rows"
  note up = upsert_monitored_known [OF db uniq, of "ev_Path e" "ev_Action e" t "shouldMarkPending (ev_Action e)"]
  note old = upsert_monitored_known [OF db up(1), of "ev_OldPath e" ActionMoveOut t False]
  show ?thesis using e up old db(1)
    by (simp add: persistMonitoredFile_def persistOldPath_def event_ok_def t observed_def Let_def shouldMarkPending_iff)
qed

text \<open>
  C25: the table of monitored files is a faithful map of the events, whatever happens to the channel.  For any sequence of
  events the rows stay unique per path and say of each path exactly what its last event said: the action, the time, and whether a
  change is pending, with a renamed file's old path recorded as moved out; the channel never holds more than 128 events.
\<close>
theorem monitored_table_follows_events:
  assumes db: "m_db env = Some db" "gorm_reliable db" and uniq: "distinct (map mf_Path (mon_rows st))"
    and room: "length (mon_out st) \<le> eventQueueSize" and ok: "\<forall>e\<in>set es. event_ok e"
    and run: "st' = fold (emitEvent env) es st"
  shows "distinct (map mf_Path (mon_rows st')) \<and> known (mon_rows st') = fold observe (map observed es) (known (mon_rows st)) \<and>
    length (mon_out st') \<le> eventQueueSize"
  using uniq room ok unfolding run
proof (induction es arbitrary: st)
  case (Cons e es)
  have rows: "mon_rows (emitEvent env e st) = persistMonitoredFile env e (mon_rows st)"
    and out: "length (mon_out (emitEvent env e st)) \<le> eventQueueSize"
    using Cons.prems(2) by (simp_all add: emitEvent_def Let_def)
  have "distinct (map mf_Path (mon_rows (emitEvent env e st)))" "known (mon_rows (emitEvent env e st)) = observe (observed e) (known (mon_rows st))"
    using persist_known [OF db Cons.prems(1), of e] Cons.prems(3) by (simp_all add: rows)
  then show ?case using Cons.IH [of "emitEvent env e st"] out Cons.prems(3) by simp
qed simp

definition sample_mon_env :: mon_env where
  "sample_mon_env = \<lparr>m_db = Some memory_gorm, m_key = length, m_clock = (\<lambda>k. int k * second), m_stamp = 0,
     m_join = (\<lambda>a b. JoinPath [a, b]), m_dir = DirPath\<rparr>"

theorem monitored_table_follows_events_witness:
  "let es = [\<lparr>ev_Action = ActionCreate, ev_Path = ''/a'', ev_OldPath = [], ev_Timestamp = Some 1\<rparr>,
             \<lparr>ev_Action = ActionRename, ev_Path = ''/b'', ev_OldPath = ''/a'', ev_Timestamp = Some 2\<rparr>]
   in known (mon_rows (fold (emitEvent sample_mon_env) es \<lparr>mon_rows = [], mon_out = []\<rparr>)) ''/a'' = Some (''move_out'', 2, False)"
proof -
  let ?es = "[\<lparr>ev_Action = ActionCreate, ev_Path = ''/a'', ev_OldPath = [], ev_Timestamp = Some 1\<rparr>,
      \<lparr>ev_Action = ActionRename, ev_Path = ''/b'', ev_OldPath = ''/a'', ev_Timestamp = Some 2\<rparr>]"
  have "known (mon_rows (fold (emitEvent sample_mon_env) ?es \<lparr>mon_rows = [], mon_out = []\<rparr>)) =
      fold observe (map observed ?es) (known (mon_rows \<lparr>mon_rows = [], mon_out = []\<rparr>))"
    using monitored_table_follows_events [of sample_mon_env memory_gorm "\<lparr>mon_rows = [], mon_out = []\<rparr>" ?es]
    by (simp add: sample_mon_env_def event_ok_def)
  then show ?thesis by (simp add: Let_def observed_def)
qed

end
