(* ===== verification/FileTree.thy ===== *)
theory FileTree
  imports Store "HOL-Library.List_Lexorder" "HOL-Library.Product_Lexorder"
begin

text \<open>
  The file tree of the backend: models (\<open>backend/app/models/filetree.go\<close>), repository
  (\<open>backend/app/repo/filetree_repo.go\<close>) and service (\<open>backend/app/services/filetree_service.go\<close>).
  Each table is a list of rows; a row is soft-deleted when \<open>DeletedAt\<close> is set, and queries that are not
  \<open>Unscoped\<close> do not see it.  The name-based UUID (\<open>uuid.NewSHA1\<close> with the URL name space) is
  the argument \<open>sha\<close>.
\<close>

subsection \<open>Models\<close>

record FileNode =
  fn_ID :: string
  fn_DeviceUUID :: string
  fn_OriginPath :: string
  fn_CurrentPath :: string
  fn_CurrentName :: string
  fn_Extension :: string
  fn_Size :: int
  fn_SnapshotNumber :: int
  fn_ChangePending :: bool
  fn_LastEventAt :: time
  fn_CreatedAt :: time
  fn_UpdatedAt :: time
  fn_DeletedAt :: "time option"

record FolderNode =
  fo_ID :: string
  fo_DeviceUUID :: string
  fo_TotalEntries :: int
  fo_ExtChildren :: string
  fo_CreatedAt :: time
  fo_UpdatedAt :: time
  fo_DeletedAt :: "time option"

record Item =
  it_ID :: string
  it_DeviceUUID :: string
  it_Name :: string
  it_ParentID :: "string option"
  it_FileID :: "string option"
  it_FolderID :: "string option"
  it_TotalSize :: int
  it_CreatedAt :: time
  it_UpdatedAt :: time
  it_DeletedAt :: "time option"

record ItemContentTypeLink =
  ln_ItemID :: string
  ln_ContentTypeID :: nat

record ContentType =
  ct_ID :: nat
  ct_Name :: string
  ct_Description :: string
  ct_DeletedAt :: "time option"

record FileChange =
  ch_ID :: string
  ch_OriginPath :: string
  ch_CurrentPath :: string
  ch_CurrentName :: string
  ch_Extension :: string
  ch_Size :: int
  ch_SnapshotNumber :: int
  ch_IsDir :: bool
  ch_Deleted :: bool
  ch_ChangePending :: bool
  ch_ContentTypes :: "nat list"

record tree_db =
  t_files :: "FileNode list"
  t_folders :: "FolderNode list"
  t_items :: "Item list"
  t_links :: "ItemContentTypeLink list"
  t_types :: "ContentType list"

record tree_gorm =
  g_files :: "FileNode gorm"
  g_folders :: "FolderNode gorm"
  g_items :: "Item gorm"
  g_links :: "ItemContentTypeLink gorm"
  g_types :: "ContentType gorm"

definition tree_sound :: "tree_gorm \<Rightarrow> bool" where
  "tree_sound g \<longleftrightarrow> gorm_sound (g_files g) \<and> gorm_sound (g_folders g) \<and> gorm_sound (g_items g) \<and>
     gorm_sound (g_links g) \<and> gorm_sound (g_types g)"

definition tree_reliable :: "tree_gorm \<Rightarrow> bool" where
  "tree_reliable g \<longleftrightarrow> gorm_reliable (g_files g) \<and> gorm_reliable (g_folders g) \<and> gorm_reliable (g_items g) \<and>
     gorm_reliable (g_links g) \<and> gorm_reliable (g_types g)"

subsection \<open>Statements\<close>

text \<open>A statement on one table of the database.\<close>

definition on_files :: "tree_gorm \<Rightarrow> (FileNode list \<Rightarrow> FileNode list) \<Rightarrow> tree_db \<Rightarrow> (db_error, tree_db) res" where
  "on_files g f t = map_sum id (\<lambda>x. t\<lparr>t_files := x\<rparr>) (g_exec (g_files g) f (t_files t))"

definition on_folders :: "tree_gorm \<Rightarrow> (FolderNode list \<Rightarrow> FolderNode list) \<Rightarrow> tree_db \<Rightarrow> (db_error, tree_db) res" where
  "on_folders g f t = map_sum id (\<lambda>x. t\<lparr>t_folders := x\<rparr>) (g_exec (g_folders g) f (t_folders t))"

definition on_items :: "tree_gorm \<Rightarrow> (Item list \<Rightarrow> Item list) \<Rightarrow> tree_db \<Rightarrow> (db_error, tree_db) res" where
  "on_items g f t = map_sum id (\<lambda>x. t\<lparr>t_items := x\<rparr>) (g_exec (g_items g) f (t_items t))"

definition on_links :: "tree_gorm \<Rightarrow> (ItemContentTypeLink list \<Rightarrow> ItemContentTypeLink list) \<Rightarrow> tree_db \<Rightarrow> (db_error, tree_db) res" where
  "on_links g f t = map_sum id (\<lambda>x. t\<lparr>t_links := x\<rparr>) (g_exec (g_links g) f (t_links t))"

subsection \<open>Repository\<close>

definition assign_file :: "FileNode \<Rightarrow> FileNode \<Rightarrow> FileNode" where
  "assign_file node r =
     r\<lparr>fn_DeviceUUID := fn_DeviceUUID node, fn_OriginPath := fn_OriginPath node, fn_CurrentPath := fn_CurrentPath node,
       fn_CurrentName := fn_CurrentName node, fn_Extension := fn_Extension node, fn_Size := fn_Size node,
       fn_SnapshotNumber := fn_SnapshotNumber node, fn_ChangePending := fn_ChangePending node,
       fn_LastEventAt := fn_LastEventAt node\<rparr>"

definition UpsertFile :: "tree_gorm \<Rightarrow> FileNode \<Rightarrow> tree_db \<Rightarrow> (db_error, tree_db) res" where
  "UpsertFile g node t = on_files g (upsert fn_ID assign_file node) t"

definition assign_folder :: "FolderNode \<Rightarrow> FolderNode \<Rightarrow> FolderNode" where
  "assign_folder node r =
     r\<lparr>fo_DeviceUUID := fo_DeviceUUID node, fo_TotalEntries := fo_TotalEntries node, fo_ExtChildren := fo_ExtChildren node\<rparr>"

definition UpsertFolder :: "tree_gorm \<Rightarrow> FolderNode \<Rightarrow> tree_db \<Rightarrow> (db_error, tree_db) res" where
  "UpsertFolder g node t = on_folders g (upsert fo_ID assign_folder node) t"

definition assign_item :: "Item \<Rightarrow> Item \<Rightarrow> Item" where
  "assign_item item r =
     r\<lparr>it_DeviceUUID := it_DeviceUUID item, it_Name := it_Name item, it_ParentID := it_ParentID item,
       it_FileID := it_FileID item, it_FolderID := it_FolderID item, it_TotalSize := it_TotalSize item\<rparr>"

definition UpsertItem :: "tree_gorm \<Rightarrow> Item \<Rightarrow> tree_db \<Rightarrow> (db_error, tree_db) res" where
  "UpsertItem g item t = on_items g (upsert it_ID assign_item item) t"

definition live_item :: "string \<Rightarrow> string \<Rightarrow> Item \<Rightarrow> bool" where
  "live_item deviceUUID i r \<longleftrightarrow> it_DeviceUUID r = deviceUUID \<and> it_ID r = i \<and> it_DeletedAt r = None"

definition GetItemByID :: "tree_gorm \<Rightarrow> string \<Rightarrow> string \<Rightarrow> tree_db \<Rightarrow> (db_error, Item option) res" where
  "GetItemByID g deviceUUID i t = g_first (g_items g) it_ID (live_item deviceUUID i) (t_items t)"

text \<open>\<open>softDeleteItem\<close> runs inside a transaction: an error leaves the database as it was.\<close>

definition softDeleteItem :: "tree_gorm \<Rightarrow> time \<Rightarrow> Item \<Rightarrow> string \<Rightarrow> tree_db \<Rightarrow> (db_error, tree_db) res" where
  "softDeleteItem g now item deviceUUID t =
     bind_res (on_links g (filter (\<lambda>l. ln_ItemID l \<noteq> it_ID item)) t) (\<lambda>t1.
     bind_res (case it_FileID item of
                 None \<Rightarrow> Inr t1
               | Some i \<Rightarrow>
                   on_files g (map (\<lambda>r. if fn_ID r = i \<and> fn_DeviceUUID r = deviceUUID \<and> fn_DeletedAt r = None
                                        then r\<lparr>fn_DeletedAt := Some now\<rparr> else r)) t1) (\<lambda>t2.
     bind_res (case it_FolderID item of
                 None \<Rightarrow> Inr t2
               | Some i \<Rightarrow>
                   on_folders g (map (\<lambda>r. if fo_ID r = i \<and> fo_DeviceUUID r = deviceUUID \<and> fo_DeletedAt r = None
                                          then r\<lparr>fo_DeletedAt := Some now\<rparr> else r)) t2) (\<lambda>t3.
       on_items g (map (\<lambda>r. if live_item deviceUUID (it_ID item) r then r\<lparr>it_DeletedAt := Some now\<rparr> else r)) t3)))"

definition Transaction :: "bool \<Rightarrow> (tree_db \<Rightarrow> (db_error, tree_db) res) \<Rightarrow> tree_db \<Rightarrow> db_error option \<times> tree_db" where
  "Transaction commit_ok f t =
     (case f t of
        Inl e \<Rightarrow> (Some e, t)
      | Inr t' \<Rightarrow> if commit_ok then (None, t') else (Some ''commit failed'', t))"

definition DeleteItem :: "tree_gorm \<Rightarrow> bool \<Rightarrow> time \<Rightarrow> string \<Rightarrow> string \<Rightarrow> tree_db \<Rightarrow> db_error option \<times> tree_db" where
  "DeleteItem g commit_ok now deviceUUID itemID t =
     (if itemID = [] then (None, t)
      else Transaction commit_ok
        (\<lambda>t. case g_first (g_items g) it_ID (live_item deviceUUID itemID) (t_items t) of
               Inl e \<Rightarrow> Inl e
             | Inr None \<Rightarrow> Inr t
             | Inr (Some item) \<Rightarrow> softDeleteItem g now item deviceUUID t) t)"

definition deterministicIDFromSegments :: "(string \<Rightarrow> string) \<Rightarrow> string \<Rightarrow> string list \<Rightarrow> string" where
  "deterministicIDFromSegments sha deviceUUID segments = sha (deviceUUID @ ''|'' @ Join segments ''/'')"

definition find_by_path ::
    "tree_gorm \<Rightarrow> string \<Rightarrow> string \<Rightarrow> string \<Rightarrow> tree_db \<Rightarrow> (db_error, Item option) res" where
  "find_by_path g deviceUUID logicalPath itemID t =
     (case g_first (g_files g) fn_ID (\<lambda>r. fn_DeviceUUID r = deviceUUID \<and> fn_CurrentPath r = logicalPath \<and> fn_DeletedAt r = None) (t_files t) of
        Inr (Some fileNode) \<Rightarrow>
          (case g_first (g_items g) it_ID (\<lambda>r. it_DeviceUUID r = deviceUUID \<and> it_FileID r = Some (fn_ID fileNode) \<and> it_DeletedAt r = None) (t_items t) of
             Inr (Some item) \<Rightarrow> Inr (Some item)
           | _ \<Rightarrow> Inr None)
      | _ \<Rightarrow>
          (case g_first (g_folders g) fo_ID (\<lambda>r. fo_DeviceUUID r = deviceUUID \<and> fo_ID r = itemID \<and> fo_DeletedAt r = None) (t_folders t) of
             Inr (Some folderNode) \<Rightarrow>
               (case g_first (g_items g) it_ID (\<lambda>r. it_DeviceUUID r = deviceUUID \<and> it_FolderID r = Some (fo_ID folderNode) \<and> it_DeletedAt r = None) (t_items t) of
                  Inr (Some item) \<Rightarrow> Inr (Some item)
                | _ \<Rightarrow> Inr None)
           | _ \<Rightarrow> Inr None))"

definition DeleteItemByLogicalPath ::
    "tree_gorm \<Rightarrow> (string \<Rightarrow> string) \<Rightarrow> bool \<Rightarrow> time \<Rightarrow> string \<Rightarrow> string \<Rightarrow> tree_db \<Rightarrow> db_error option \<times> tree_db" where
  "DeleteItemByLogicalPath g sha commit_ok now deviceUUID logicalPath t =
     (if logicalPath = [] then (None, t)
      else
        let segments = Split (CHR ''/'') (TrimSlash logicalPath);
            itemID = deterministicIDFromSegments sha deviceUUID segments
        in if segments = [] then (None, t)
           else Transaction commit_ok
             (\<lambda>t. case g_first (g_items g) it_ID (live_item deviceUUID itemID) (t_items t) of
                    Inl e \<Rightarrow> Inl e
                  | Inr (Some item) \<Rightarrow> softDeleteItem g now item deviceUUID t
                  | Inr None \<Rightarrow>
                      (case find_by_path g deviceUUID logicalPath itemID t of
                         Inl e \<Rightarrow> Inl e
                       | Inr None \<Rightarrow> Inr t
                       | Inr (Some item) \<Rightarrow> softDeleteItem g now item deviceUUID t)) t)"

definition ReplaceContentTypes ::
    "tree_gorm \<Rightarrow> bool \<Rightarrow> string \<Rightarrow> nat list \<Rightarrow> tree_db \<Rightarrow> db_error option \<times> tree_db" where
  "ReplaceContentTypes g commit_ok itemID ids t =
     Transaction commit_ok
       (\<lambda>t. bind_res (on_links g (filter (\<lambda>l. ln_ItemID l \<noteq> itemID)) t) (\<lambda>t1.
            if ids = [] then Inr t1
            else on_links g (\<lambda>ls. ls @ map (\<lambda>i. \<lparr>ln_ItemID = itemID, ln_ContentTypeID = i\<rparr>) ids) t1)) t"

record ItemFilter =
  f_DeviceUUID :: string
  f_ParentID :: "string option"
  f_Search :: string
  f_Extensions :: "string list"
  f_ContentTypeIDs :: "nat list"
  f_Page :: int
  f_PageSize :: int
  f_IncludeDeleted :: bool
  f_DeletedSince :: string

text \<open>
  The parsers of package \<open>time\<close> and \<open>fmt.Sscanf\<close> are given by what they return: a time for a
  timestamp in one of the two layouts, a duration, the number a string starts with.
\<close>

record time_parsers =
  parse_RFC3339 :: "string \<Rightarrow> time option"
  parse_layout :: "string \<Rightarrow> time option"
  ParseDuration :: "string \<Rightarrow> time option"
  scan_days :: "string \<Rightarrow> int option"

definition hour :: time where "hour = 3600 * second"

definition parseDeletedSince :: "time_parsers \<Rightarrow> time \<Rightarrow> string \<Rightarrow> (string, time) res" where
  "parseDeletedSince P now s0 =
     (let s = TrimSpace s0;
          since = (\<lambda>d. case d of None \<Rightarrow> Inl ''parse duration'' | Some x \<Rightarrow> Inr (now - x))
      in if s = [] then Inl ''empty string''
         else case parse_RFC3339 P s of
           Some t \<Rightarrow> Inr t
         | None \<Rightarrow>
         (case parse_layout P s of
           Some t \<Rightarrow> Inr t
         | None \<Rightarrow>
             if HasSuffix s ''h'' then since (ParseDuration P (TrimSuffix s ''h'' @ ''h''))
             else if HasSuffix s ''d'' then
               (case scan_days P (TrimSuffix s ''d'') of
                  Some n \<Rightarrow> since (Some (n * 24 * hour))
                | None \<Rightarrow> Inl ''invalid days format'')
             else if HasSuffix s ''m'' then since (ParseDuration P (TrimSuffix s ''m'' @ ''m''))
             else case ParseDuration P (s @ ''h'') of
                    None \<Rightarrow> Inl ''invalid format''
                  | Some x \<Rightarrow> Inr (now - x)))"

definition item_matches ::
    "(string \<Rightarrow> string \<Rightarrow> bool) \<Rightarrow> time option \<Rightarrow> ItemFilter \<Rightarrow> tree_db \<Rightarrow> Item \<Rightarrow> bool" where
  "item_matches like since flt t r \<longleftrightarrow>
     it_DeviceUUID r = f_DeviceUUID flt \<and>
     (case since of
        None \<Rightarrow> it_DeletedAt r = None
      | Some d \<Rightarrow> (case it_DeletedAt r of None \<Rightarrow> False | Some x \<Rightarrow> d \<le> x)) \<and>
     (case f_ParentID flt of
        None \<Rightarrow> it_ParentID r = None
      | Some p \<Rightarrow> p = [] \<or> it_ParentID r = Some p) \<and>
     (f_Extensions flt = [] \<or>
        (\<exists>n\<in>set (t_files t). it_FileID r = Some (fn_ID n) \<and> fn_Extension n \<in> set (f_Extensions flt))) \<and>
     (f_Search flt = [] \<or> like (it_Name r) (f_Search flt))"

text \<open>The join with the link table yields an item once for each of its links that matches.\<close>

definition join_links :: "ItemFilter \<Rightarrow> tree_db \<Rightarrow> Item list \<Rightarrow> Item list" where
  "join_links flt t rows =
     (if f_ContentTypeIDs flt = [] then rows
      else concat (map (\<lambda>r. replicate
             (length (filter (\<lambda>l. ln_ItemID l = it_ID r \<and> ln_ContentTypeID l \<in> set (f_ContentTypeIDs flt)) (t_links t))) r) rows))"

definition item_order :: "Item \<Rightarrow> nat \<times> int" where
  "item_order r = ((if it_FolderID r = None then 1 else 0), - it_UpdatedAt r)"

definition ListItems ::
    "tree_gorm \<Rightarrow> time_parsers \<Rightarrow> (string \<Rightarrow> string \<Rightarrow> bool) \<Rightarrow> time \<Rightarrow> ItemFilter \<Rightarrow> tree_db \<Rightarrow>
     (string, Item list \<times> int) res" where
  "ListItems g P like now flt0 t =
     (let page = (if f_Page flt0 \<le> 0 then 1 else f_Page flt0);
          pageSize = (if f_PageSize flt0 \<le> 0 then 50 else f_PageSize flt0);
          since =
            (if \<not> f_IncludeDeleted flt0 then Inr None
             else if f_DeletedSince flt0 \<noteq> [] then map_sum id Some (parseDeletedSince P now (f_DeletedSince flt0))
             else Inr (Some (now - 6 * hour)))
      in bind_res since (\<lambda>since.
         bind_res (g_find (g_items g) (item_matches like since flt0 t) (t_items t)) (\<lambda>counted.
         bind_res (g_find (g_items g) (item_matches like since flt0 t) (t_items t)) (\<lambda>rows.
           Inr (take (nat pageSize) (drop (nat ((page - 1) * pageSize)) (sort_key item_order (join_links flt0 t rows))),
                int (length (join_links flt0 t counted)))))))"

definition GetFileNodeByLogicalPath ::
    "tree_gorm \<Rightarrow> (string \<Rightarrow> string) \<Rightarrow> string \<Rightarrow> string \<Rightarrow> tree_db \<Rightarrow>
     (db_error, FileNode option \<times> Item option) res" where
  "GetFileNodeByLogicalPath g sha deviceUUID logicalPath t =
     (let segments = Split (CHR ''/'') (TrimSlash logicalPath);
          itemID = deterministicIDFromSegments sha deviceUUID segments
      in if segments = [] then Inl ''empty logical path''
         else case g_first (g_items g) it_ID (\<lambda>r. it_DeviceUUID r = deviceUUID \<and> it_ID r = itemID) (t_items t) of
           Inl e \<Rightarrow> Inl e
         | Inr None \<Rightarrow> Inr (None, None)
         | Inr (Some item) \<Rightarrow>
             (case it_FileID item of
                None \<Rightarrow> Inr (None, Some item)
              | Some i \<Rightarrow>
                  (case g_first (g_files g) fn_ID (\<lambda>r. fn_ID r = i \<and> fn_DeviceUUID r = deviceUUID) (t_files t) of
                     Inl e \<Rightarrow> Inl e
                   | Inr None \<Rightarrow> Inr (None, Some item)
                   | Inr (Some n) \<Rightarrow> Inr (Some n, Some item))))"

definition GetFileNodeByID :: "tree_gorm \<Rightarrow> string \<Rightarrow> string \<Rightarrow> tree_db \<Rightarrow> (db_error, FileNode option) res" where
  "GetFileNodeByID g deviceUUID fileID t =
     g_first (g_files g) fn_ID (\<lambda>r. fn_ID r = fileID \<and> fn_DeviceUUID r = deviceUUID) (t_files t)"

definition GetItemsByFileID :: "tree_gorm \<Rightarrow> string \<Rightarrow> string \<Rightarrow> tree_db \<Rightarrow> (db_error, Item list) res" where
  "GetItemsByFileID g deviceUUID fileID t =
     g_find (g_items g) (\<lambda>r. it_DeviceUUID r = deviceUUID \<and> it_FileID r = Some fileID) (t_items t)"

text \<open>
  The walk from an item to its root.  Nothing in the tables excludes a cycle of parents, on which the
  loop of the program does not end; \<open>None\<close> is that the fuel did not suffice.
\<close>

fun path_segments ::
    "nat \<Rightarrow> tree_gorm \<Rightarrow> string \<Rightarrow> tree_db \<Rightarrow> Item \<Rightarrow> string list \<Rightarrow> (db_error, string list) res option" where
  "path_segments 0 g deviceUUID t current segs = None"
| "path_segments (Suc n) g deviceUUID t current segs =
     (let segs' = it_Name current # segs
      in case it_ParentID current of
           None \<Rightarrow> Some (Inr segs')
         | Some p \<Rightarrow>
             if p = [] then Some (Inr segs')
             else (case g_first (g_items g) it_ID (\<lambda>r. it_DeviceUUID r = deviceUUID \<and> it_ID r = p) (t_items t) of
                     Inl e \<Rightarrow> Some (Inl (''query parent'' @ e))
                   | Inr None \<Rightarrow> Some (Inr segs')
                   | Inr (Some parent) \<Rightarrow> path_segments n g deviceUUID t parent segs'))"

definition BuildLogicalPathFromItem ::
    "nat \<Rightarrow> tree_gorm \<Rightarrow> string \<Rightarrow> Item option \<Rightarrow> tree_db \<Rightarrow> (db_error, string) res option" where
  "BuildLogicalPathFromItem fuel g deviceUUID item t =
     (case item of
        None \<Rightarrow> Some (Inl ''item is nil'')
      | Some i \<Rightarrow>
          map_option (\<lambda>r. bind_res r (\<lambda>segs. if segs = [] then Inl ''empty path segments'' else Inr (Join segs ''/'')))
            (path_segments fuel g deviceUUID t i []))"

subsection \<open>Service\<close>

text \<open>\<open>filepath.ToSlash\<close> is the identity on Unix.\<close>

definition segments_of :: "string \<Rightarrow> string list" where
  "segments_of p = filter (\<lambda>s. s \<noteq> []) (map TrimSpace (Split (CHR ''/'') p))"

definition splitPath :: "string \<Rightarrow> string \<Rightarrow> string list \<times> string" where
  "splitPath curPath fallbackName =
     (if curPath = [] then ([fallbackName], fallbackName)
      else let segments = segments_of curPath
           in if segments = [] then ([fallbackName], fallbackName) else (segments, last segments))"

definition deterministicID :: "(string \<Rightarrow> string) \<Rightarrow> string \<Rightarrow> string list \<Rightarrow> string" where
  "deterministicID sha deviceUUID segments = sha (deviceUUID @ ''|'' @ Join segments ''/'')"

fun fallback :: "string list \<Rightarrow> string" where
  "fallback [] = []"
| "fallback (v # vs) = (if TrimSpace v \<noteq> [] then v else fallback vs)"

record tree_env =
  e_sha :: "string \<Rightarrow> string"
  e_now :: time
  e_commit_ok :: bool

definition new_folder :: "tree_env \<Rightarrow> string \<Rightarrow> string \<Rightarrow> FolderNode" where
  "new_folder env deviceUUID i =
     \<lparr>fo_ID = i, fo_DeviceUUID = deviceUUID, fo_TotalEntries = 0, fo_ExtChildren = [], fo_CreatedAt = e_now env,
      fo_UpdatedAt = e_now env, fo_DeletedAt = None\<rparr>"

definition new_item ::
    "tree_env \<Rightarrow> string \<Rightarrow> string \<Rightarrow> string \<Rightarrow> string option \<Rightarrow> string option \<Rightarrow> string option \<Rightarrow> int \<Rightarrow> Item" where
  "new_item env i deviceUUID name parent file folder sz =
     \<lparr>it_ID = i, it_DeviceUUID = deviceUUID, it_Name = name, it_ParentID = parent, it_FileID = file,
      it_FolderID = folder, it_TotalSize = sz, it_CreatedAt = e_now env, it_UpdatedAt = e_now env, it_DeletedAt = None\<rparr>"

definition new_file :: "tree_env \<Rightarrow> string \<Rightarrow> FileChange \<Rightarrow> FileNode" where
  "new_file env deviceUUID change =
     \<lparr>fn_ID = ch_ID change, fn_DeviceUUID = deviceUUID,
      fn_OriginPath = fallback [ch_OriginPath change, ch_CurrentPath change], fn_CurrentPath = ch_CurrentPath change,
      fn_CurrentName = ch_CurrentName change, fn_Extension = ch_Extension change, fn_Size = ch_Size change,
      fn_SnapshotNumber = ch_SnapshotNumber change, fn_ChangePending = ch_ChangePending change,
      fn_LastEventAt = e_now env, fn_CreatedAt = e_now env, fn_UpdatedAt = e_now env, fn_DeletedAt = None\<rparr>"

text \<open>Statements outside a transaction: those before an error have taken effect.\<close>

definition then_exec ::
    "(db_error, tree_db) res \<Rightarrow> tree_db \<Rightarrow> (tree_db \<Rightarrow> (db_error, 'a) res \<times> tree_db) \<Rightarrow> (db_error, 'a) res \<times> tree_db" where
  "then_exec r t k = (case r of Inl e \<Rightarrow> (Inl e, t) | Inr t' \<Rightarrow> k t')"

definition upsert_file_item ::
    "tree_gorm \<Rightarrow> tree_env \<Rightarrow> string \<Rightarrow> FileChange \<Rightarrow> string option \<Rightarrow> tree_db \<Rightarrow> (db_error, Item) res \<times> tree_db" where
  "upsert_file_item g env deviceUUID change parentID t =
     (let itemID = ch_ID change
      in if itemID = [] then (Inl ''missing file ID'', t)
         else
           let item = new_item env itemID deviceUUID (ch_CurrentName change) parentID (Some itemID) None (ch_Size change)
           in then_exec (UpsertFile g (new_file env deviceUUID change) t) t (\<lambda>t1.
              then_exec (UpsertItem g item t1) t1 (\<lambda>t2.
                if ch_ContentTypes change = [] then (Inr item, t2)
                else case ReplaceContentTypes g (e_commit_ok env) (it_ID item) (ch_ContentTypes change) t2 of
                       (Some e, t3) \<Rightarrow> (Inl e, t3)
                     | (None, t3) \<Rightarrow> (Inr item, t3))))"

definition upsert_folder_item ::
    "tree_gorm \<Rightarrow> tree_env \<Rightarrow> string \<Rightarrow> string list \<Rightarrow> string \<Rightarrow> string option \<Rightarrow> tree_db \<Rightarrow> (db_error, Item) res \<times> tree_db" where
  "upsert_folder_item g env deviceUUID path name parentID t =
     (let folderID = deterministicID (e_sha env) deviceUUID path;
          item = new_item env folderID deviceUUID name parentID None (Some folderID) 0
      in then_exec (UpsertFolder g (new_folder env deviceUUID folderID) t) t (\<lambda>t1.
         then_exec (UpsertItem g item t1) t1 (\<lambda>t2. (Inr item, t2))))"

text \<open>\<open>walked\<close> are the segments already done, the list holds the rest.\<close>

fun upsert_segments ::
    "tree_gorm \<Rightarrow> tree_env \<Rightarrow> string \<Rightarrow> FileChange \<Rightarrow> string list \<Rightarrow> string list \<Rightarrow> string option \<Rightarrow> Item option \<Rightarrow> tree_db \<Rightarrow>
     (db_error, Item option) res \<times> tree_db" where
  "upsert_segments g env dev change walked [] parentID lastItem t = (Inr lastItem, t)"
| "upsert_segments g env dev change walked (seg # segs) parentID lastItem t =
     (if segs = [] \<and> \<not> ch_IsDir change then
        (case upsert_file_item g env dev change parentID t of
           (Inl e, t') \<Rightarrow> (Inl e, t')
         | (Inr item, t') \<Rightarrow> upsert_segments g env dev change (walked @ [seg]) segs parentID (Some item) t')
      else
        (case upsert_folder_item g env dev (walked @ [seg]) seg parentID t of
           (Inl e, t') \<Rightarrow> (Inl e, t')
         | (Inr item, t') \<Rightarrow> upsert_segments g env dev change (walked @ [seg]) segs (Some (it_ID item)) (Some item) t'))"

definition upsertPath ::
    "tree_gorm \<Rightarrow> tree_env \<Rightarrow> string \<Rightarrow> FileChange \<Rightarrow> tree_db \<Rightarrow> (db_error, Item option) res \<times> tree_db" where
  "upsertPath g env deviceUUID change t =
     (let (segments, name) = splitPath (ch_CurrentPath change) (ch_CurrentName change);
          segments' = (if segments = [] then segments @ [name] else segments)
      in upsert_segments g env deviceUUID change [] segments' None None t)"

definition apply_delete :: "tree_gorm \<Rightarrow> tree_env \<Rightarrow> string \<Rightarrow> FileChange \<Rightarrow> tree_db \<Rightarrow> db_error option \<times> tree_db" where
  "apply_delete g env deviceUUID change t =
     (case DeleteItem g (e_commit_ok env) (e_now env) deviceUUID (ch_ID change) t of
        (None, t') \<Rightarrow> (None, t')
      | (Some e, t') \<Rightarrow>
          if ch_CurrentPath change \<noteq> []
          then DeleteItemByLogicalPath g (e_sha env) (e_commit_ok env) (e_now env) deviceUUID (ch_CurrentPath change) t'
          else (Some e, t'))"

fun ApplyChanges :: "tree_gorm \<Rightarrow> tree_env \<Rightarrow> string \<Rightarrow> FileChange list \<Rightarrow> tree_db \<Rightarrow> db_error option \<times> tree_db" where
  "ApplyChanges g env deviceUUID [] t = (None, t)"
| "ApplyChanges g env deviceUUID (change # changes) t =
     (if ch_Deleted change then
        (case apply_delete g env deviceUUID change t of
           (Some e, t') \<Rightarrow> (Some e, t')
         | (None, t') \<Rightarrow> ApplyChanges g env deviceUUID changes t')
      else
        (case upsertPath g env deviceUUID change t of
           (Inl e, t') \<Rightarrow> (Some e, t')
         | (Inr _, t') \<Rightarrow> ApplyChanges g env deviceUUID changes t'))"

definition GetNodes ::
    "tree_gorm \<Rightarrow> time_parsers \<Rightarrow> (string \<Rightarrow> string \<Rightarrow> bool) \<Rightarrow> time \<Rightarrow> ItemFilter \<Rightarrow> tree_db \<Rightarrow>
     (string, Item list \<times> int) res" where
  "GetNodes g P like now query t = ListItems g P like now query t"

fun check_types :: "tree_gorm \<Rightarrow> nat list \<Rightarrow> tree_db \<Rightarrow> db_error option" where
  "check_types g [] t = None"
| "check_types g (i # is) t =
     (case g_first (g_types g) ct_ID (\<lambda>c. ct_ID c = i \<and> ct_DeletedAt c = None) (t_types t) of
        Inl e \<Rightarrow> Some e
      | Inr None \<Rightarrow> Some ''record not found''
      | Inr (Some _) \<Rightarrow> check_types g is t)"

definition AssignContentTypes ::
    "tree_gorm \<Rightarrow> bool \<Rightarrow> string \<Rightarrow> string \<Rightarrow> nat list \<Rightarrow> tree_db \<Rightarrow> db_error option \<times> tree_db" where
  "AssignContentTypes g commit_ok deviceUUID itemID ids t =
     (case GetItemByID g deviceUUID itemID t of
        Inl e \<Rightarrow> (Some e, t)
      | Inr None \<Rightarrow> (Some ''record not found'', t)
      | Inr (Some item) \<Rightarrow>
          (case check_types g ids t of
             Some e \<Rightarrow> (Some e, t)
           | None \<Rightarrow> ReplaceContentTypes g commit_ok (it_ID item) ids t))"

subsection \<open>Statements and the item table\<close>

lemma tree_reliable_sound: "tree_reliable g \<Longrightarrow> tree_sound g"
  by (simp add: tree_reliable_def tree_sound_def gorm_reliable_sound)

lemma on_itemsD:
  assumes "tree_sound g" "on_items g f t = Inr t'"
  shows "t' = t\<lparr>t_items := f (t_items t)\<rparr>"
proof -
  obtain x where x: "g_exec (g_items g) f (t_items t) = Inr x" and t': "t' = t\<lparr>t_items := x\<rparr>"
    using assms(2) by (cases "g_exec (g_items g) f (t_items t)") (auto simp: on_items_def)
  have "x = f (t_items t)" using assms(1) x gorm_execD unfolding tree_sound_def by blast
  with t' show ?thesis by simp
qed

lemma on_files_items: "on_files g f t = Inr t' \<Longrightarrow> t_items t' = t_items t"
  by (cases "g_exec (g_files g) f (t_files t)") (auto simp: on_files_def)

lemma on_folders_items: "on_folders g f t = Inr t' \<Longrightarrow> t_items t' = t_items t"
  by (cases "g_exec (g_folders g) f (t_folders t)") (auto simp: on_folders_def)

lemma on_links_items: "on_links g f t = Inr t' \<Longrightarrow> t_items t' = t_items t"
  by (cases "g_exec (g_links g) f (t_links t)") (auto simp: on_links_def)

lemmas other_tables_keep_items = on_files_items on_folders_items on_links_items

lemma UpsertItemD:
  "tree_sound g \<Longrightarrow> UpsertItem g item t = Inr t' \<Longrightarrow> t_items t' = upsert it_ID assign_item item (t_items t)"
  by (auto simp: UpsertItem_def dest: on_itemsD)

lemma ReplaceContentTypes_items: "ReplaceContentTypes g ok i ids t = (e, t') \<Longrightarrow> t_items t' = t_items t"
  by (auto simp: ReplaceContentTypes_def Transaction_def bind_res_def split: sum.splits if_splits
      dest!: on_links_items)

text \<open>
  What one file or folder step does to the items: nothing, or the upsert of one item whose fields are given.
\<close>

lemma upsert_file_item_items:
  assumes "tree_sound g" "upsert_file_item g env dev change parent t = (r, t')"
  shows "t_items t' = t_items t \<or> (\<exists>item. t_items t' = upsert it_ID assign_item item (t_items t))"
  using assms
  by (auto simp: upsert_file_item_def then_exec_def UpsertFile_def Let_def split: if_splits sum.splits prod.splits option.splits
      dest!: on_files_items UpsertItemD ReplaceContentTypes_items)

lemma upsert_file_item_ok:
  assumes "tree_sound g" "upsert_file_item g env dev change parent t = (Inr item, t')"
  shows "item = new_item env (ch_ID change) dev (ch_CurrentName change) parent (Some (ch_ID change)) None (ch_Size change) \<and>
    ch_ID change \<noteq> [] \<and> t_items t' = upsert it_ID assign_item item (t_items t)"
  using assms
  by (auto simp: upsert_file_item_def then_exec_def UpsertFile_def Let_def split: if_splits sum.splits prod.splits option.splits
      dest!: on_files_items UpsertItemD ReplaceContentTypes_items)

lemma upsert_folder_item_items:
  assumes "tree_sound g" "upsert_folder_item g env dev path name parent t = (r, t')"
  shows "t_items t' = t_items t \<or> (\<exists>item. t_items t' = upsert it_ID assign_item item (t_items t))"
  using assms
  by (auto simp: upsert_folder_item_def then_exec_def UpsertFolder_def Let_def split: if_splits sum.splits
      dest!: on_folders_items UpsertItemD)

lemma upsert_folder_item_ok:
  assumes "tree_sound g" "upsert_folder_item g env dev path name parent t = (Inr item, t')"
  shows "item = new_item env (deterministicID (e_sha env) dev path) dev name parent None
      (Some (deterministicID (e_sha env) dev path)) 0 \<and>
    t_items t' = upsert it_ID assign_item item (t_items t)"
  using assms
  by (auto simp: upsert_folder_item_def then_exec_def UpsertFolder_def Let_def split: sum.splits
      dest!: on_folders_items UpsertItemD)

subsection \<open>Deleted items\<close>

definition gone :: "string \<Rightarrow> tree_db \<Rightarrow> bool" where
  "gone i t \<longleftrightarrow> (\<exists>r\<in>set (t_items t). it_ID r = i) \<and>
     (\<forall>r\<in>set (t_items t). it_ID r = i \<longrightarrow> it_DeletedAt r \<noteq> None)"

lemma assign_item_fields [simp]:
  "it_ID (assign_item item r) = it_ID r" "it_DeletedAt (assign_item item r) = it_DeletedAt r"
  "it_Name (assign_item item r) = it_Name item" "it_ParentID (assign_item item r) = it_ParentID item"
  "it_DeviceUUID (assign_item item r) = it_DeviceUUID item"
  by (simp_all add: assign_item_def)

lemma gone_map:
  assumes "gone i t" "t_items t' = map f (t_items t)" "\<And>r. it_ID (f r) = it_ID r"
    "\<And>r. it_DeletedAt r \<noteq> None \<Longrightarrow> it_DeletedAt (f r) \<noteq> None"
  shows "gone i t'"
proof -
  obtain r where "r \<in> set (t_items t)" "it_ID r = i" using assms(1) by (auto simp: gone_def)
  then have "f r \<in> set (t_items t')" "it_ID (f r) = i" by (simp_all add: assms(2,3))
  moreover have "it_DeletedAt x \<noteq> None" if x: "x \<in> set (t_items t')" "it_ID x = i" for x
  proof -
    obtain y where "y \<in> set (t_items t)" "x = f y" using x(1) by (auto simp: assms(2))
    then show ?thesis using assms(1,3,4) x(2) by (auto simp: gone_def)
  qed
  ultimately show ?thesis unfolding gone_def by blast
qed

lemma gone_upsert:
  assumes "gone i t" "t_items t' = upsert it_ID assign_item item (t_items t)" shows "gone i t'"
proof -
  obtain r where r: "r \<in> set (t_items t)" "it_ID r = i" using assms(1) by (auto simp: gone_def)
  show ?thesis
  proof (cases "\<exists>r\<in>set (t_items t). it_ID r = it_ID item")
    case True
    then have eq: "t_items t' = map (\<lambda>r. if it_ID r = it_ID item then assign_item item r else r) (t_items t)"
      using assms(2) by (simp add: upsert_def)
    show ?thesis by (rule gone_map [OF assms(1) eq]) auto
  next
    case False
    then have "t_items t' = t_items t @ [item]" using assms(2) by (simp add: upsert_def)
    then show ?thesis using assms(1) False r by (auto simp: gone_def)
  qed
qed

lemma gone_same: "gone i t \<Longrightarrow> t_items t' = t_items t \<Longrightarrow> gone i t'"
  by (simp add: gone_def)

lemma gone_upsert_segments:
  assumes "tree_sound g"
  shows "upsert_segments g env dev change walked segs parent lst t = (r, t') \<Longrightarrow> gone i t \<Longrightarrow> gone i t'"
proof (induction segs arbitrary: walked parent lst t)
  case (Cons seg segs)
  have step: "gone i t1" if "upsert_file_item g env dev change parent t = (x, t1)" for x t1
    using upsert_file_item_items [OF assms that] Cons.prems(2) gone_upsert gone_same by blast
  have step': "gone i t1" if "upsert_folder_item g env dev (walked @ [seg]) seg parent t = (x, t1)" for x t1
    using upsert_folder_item_items [OF assms that] Cons.prems(2) gone_upsert gone_same by blast
  show ?case
    using Cons step step' by (auto split: if_splits prod.splits sum.splits)
qed simp

lemma softDeleteItem_items:
  assumes "tree_sound g" "softDeleteItem g now item dev t = Inr t'"
  shows "t_items t' = map (\<lambda>r. if live_item dev (it_ID item) r then r\<lparr>it_DeletedAt := Some now\<rparr> else r) (t_items t)"
proof -
  have "\<exists>t3. t_items t3 = t_items t \<and>
      on_items g (map (\<lambda>r. if live_item dev (it_ID item) r then r\<lparr>it_DeletedAt := Some now\<rparr> else r)) t3 = Inr t'"
    using assms(2) unfolding softDeleteItem_def bind_res_eq_Inr
    by (cases "it_FileID item"; cases "it_FolderID item") (auto dest!: other_tables_keep_items)
  then show ?thesis using on_itemsD [OF assms(1)] by fastforce

qed


lemma gone_softDelete:
  assumes "tree_sound g" "softDeleteItem g now item dev t = Inr t'" "gone i t"
  shows "gone i t'"
  by (rule gone_map [OF assms(3) softDeleteItem_items [OF assms(1,2)]]) auto

lemma gone_transaction:
  assumes "Transaction ok f t = (e, t')" "gone i t" "\<And>t'. f t = Inr t' \<Longrightarrow> gone i t'"
  shows "gone i t'"
  using assms by (auto simp: Transaction_def split: sum.splits if_splits)

lemma gone_DeleteItem:
  assumes "tree_sound g" "DeleteItem g ok now dev j t = (e, t')" "gone i t"
  shows "gone i t'"
proof (cases "j = []")
  case False
  then show ?thesis
    using assms by (auto simp: DeleteItem_def elim!: gone_transaction split: sum.splits option.splits
        dest: gone_softDelete)
qed (use assms in \<open>auto simp: DeleteItem_def\<close>)

lemma gone_DeleteItemByLogicalPath:
  assumes "tree_sound g" "DeleteItemByLogicalPath g sha ok now dev p t = (e, t')" "gone i t"
  shows "gone i t'"
proof (cases "p = []")
  case False
  then show ?thesis
    using assms by (auto simp: DeleteItemByLogicalPath_def Let_def elim!: gone_transaction
        split: sum.splits option.splits dest: gone_softDelete)
qed (use assms in \<open>auto simp: DeleteItemByLogicalPath_def\<close>)

lemma gone_ApplyChanges:
  assumes "tree_sound g"
  shows "ApplyChanges g env dev changes t = (e, t') \<Longrightarrow> gone i t \<Longrightarrow> gone i t'"
proof (induction changes arbitrary: t)
  case (Cons change changes)
  have del: "gone i t1" if "apply_delete g env dev change t = (x, t1)" for x t1
    using that Cons.prems(2) gone_DeleteItem [OF assms] gone_DeleteItemByLogicalPath [OF assms]
    by (auto simp: apply_delete_def split: prod.splits option.splits if_splits)
  have ups: "gone i t1" if "upsertPath g env dev change t = (x, t1)" for x t1
    using that Cons.prems(2) gone_upsert_segments [OF assms] by (auto simp: upsertPath_def Let_def split: prod.splits)
  show ?case
    using Cons del ups by (auto split: if_splits prod.splits sum.splits option.splits)
qed simp

subsection \<open>The tree a path builds\<close>

text \<open>What the identifiers rely on: the hash does not collide and is never empty.\<close>

definition sha_ok :: "(string \<Rightarrow> string) \<Rightarrow> bool" where
  "sha_ok sha \<longleftrightarrow> inj sha \<and> (\<forall>x. sha x \<noteq> [])"

definition placed :: "tree_db \<Rightarrow> string \<Rightarrow> string \<Rightarrow> string \<Rightarrow> string option \<Rightarrow> bool" where
  "placed t dev i name parent \<longleftrightarrow> (\<exists>r\<in>set (t_items t). it_ID r = i) \<and>
     (\<forall>r\<in>set (t_items t). it_ID r = i \<longrightarrow> it_DeviceUUID r = dev \<and> it_Name r = name \<and> it_ParentID r = parent)"

lemma new_item_fields [simp]:
  "it_ID (new_item env i dev n p f d s) = i" "it_DeviceUUID (new_item env i dev n p f d s) = dev"
  "it_Name (new_item env i dev n p f d s) = n" "it_ParentID (new_item env i dev n p f d s) = p"
  by (simp_all add: new_item_def)

lemma placed_upsert:
  assumes "t_items t' = upsert it_ID assign_item item (t_items t)"
  shows "placed t' (it_DeviceUUID item) (it_ID item) (it_Name item) (it_ParentID item)"
proof (cases "\<exists>r\<in>set (t_items t). it_ID r = it_ID item")
  case True
  then obtain r where r: "r \<in> set (t_items t)" "it_ID r = it_ID item" by blast
  have eq: "t_items t' = map (\<lambda>r. if it_ID r = it_ID item then assign_item item r else r) (t_items t)"
    using True assms by (simp add: upsert_def)
  have "assign_item item r \<in> set (t_items t')" using r by (force simp: eq)
  moreover have "it_ID (assign_item item r) = it_ID item" using r by simp
  moreover have "it_DeviceUUID x = it_DeviceUUID item \<and> it_Name x = it_Name item \<and> it_ParentID x = it_ParentID item"
    if "x \<in> set (t_items t')" "it_ID x = it_ID item" for x
    using that by (auto simp: eq split: if_splits)
  ultimately show ?thesis unfolding placed_def by blast
next
  case False
  then show ?thesis using assms by (auto simp: upsert_def placed_def)
qed

lemma placed_keep:
  assumes "placed t dev i n p" "t_items t' = upsert it_ID assign_item item (t_items t)" "it_ID item \<noteq> i"
  shows "placed t' dev i n p"
proof (cases "\<exists>r\<in>set (t_items t). it_ID r = it_ID item")
  case True
  then have eq: "t_items t' = map (\<lambda>r. if it_ID r = it_ID item then assign_item item r else r) (t_items t)"
    using assms by (simp add: upsert_def)
  obtain r where r: "r \<in> set (t_items t)" "it_ID r = i" using assms(1) by (auto simp: placed_def)
  then have "r \<in> set (t_items t')" using assms(3) by (force simp: eq)
  then show ?thesis using assms(1,3) r unfolding placed_def by (auto simp: eq split: if_splits)
next
  case False
  then show ?thesis using assms by (auto simp: upsert_def placed_def)
qed

lemma placed_lookup:
  assumes "tree_reliable g" "placed t dev p n q"
  obtains r where "g_first (g_items g) it_ID (\<lambda>r. it_DeviceUUID r = dev \<and> it_ID r = p) (t_items t) = Inr (Some r)"
    "it_Name r = n" "it_ParentID r = q"
proof -
  let ?P = "\<lambda>r. it_DeviceUUID r = dev \<and> it_ID r = p"
  have g: "gorm_reliable (g_items g)" using assms(1) by (simp add: tree_reliable_def)
  obtain x where x: "g_first (g_items g) it_ID ?P (t_items t) = Inr x" using g_first_reliable [OF g] by blast
  have "x \<noteq> None"
    using g_first_None [OF gorm_reliable_sound [OF g], of it_ID ?P "t_items t"] x assms(2) by (auto simp: placed_def)
  then obtain r where r: "x = Some r" by auto
  then have "r \<in> set (t_items t)" "it_ID r = p"
    using g_firstD [OF gorm_reliable_sound [OF g] x [unfolded r]] by auto
  then show ?thesis using that x r assms(2) by (auto simp: placed_def)
qed

definition chain_parent :: "(string \<Rightarrow> string) \<Rightarrow> string \<Rightarrow> string list \<Rightarrow> string option" where
  "chain_parent sha dev ws = (if ws = [] then None else Some (deterministicID sha dev ws))"

definition chain :: "(string \<Rightarrow> string) \<Rightarrow> string \<Rightarrow> tree_db \<Rightarrow> string list \<Rightarrow> bool" where
  "chain sha dev t ws \<longleftrightarrow> (\<forall>xs x ys. ws = xs @ x # ys \<longrightarrow>
     placed t dev (deterministicID sha dev (xs @ [x])) x (chain_parent sha dev xs))"

lemma chain_Nil [simp]: "chain sha dev t []"
  by (simp add: chain_def)

lemma deterministicID_inj:
  assumes "sha_ok sha" "xs \<noteq> []" "ys \<noteq> []" "\<forall>x\<in>set xs. CHR ''/'' \<notin> set x" "\<forall>x\<in>set ys. CHR ''/'' \<notin> set x"
    and "deterministicID sha dev xs = deterministicID sha dev ys"
  shows "xs = ys"
proof -
  have "Join xs ''/'' = Join ys ''/''"
    using assms(1,6) by (auto simp: deterministicID_def sha_ok_def dest: injD)
  then show ?thesis using assms by (intro Join_inj)
qed

lemma path_segments_chain:
  assumes g: "tree_reliable g" and sha: "sha_ok sha" and "chain sha dev t ws"
    and "it_ParentID item = chain_parent sha dev ws" and "it_Name item = n"
  shows "path_segments (Suc (length ws)) g dev t item segs = Some (Inr (ws @ n # segs))"
  using assms(3-)
proof (induction ws arbitrary: item n segs rule: rev_induct)
  case Nil
  then show ?case by (simp add: chain_parent_def)
next
  case (snoc w ws)
  let ?p = "deterministicID sha dev (ws @ [w])"
  have pl: "placed t dev ?p w (chain_parent sha dev ws)" using snoc.prems(1) by (auto simp: chain_def)
  obtain r where look: "g_first (g_items g) it_ID (\<lambda>r. it_DeviceUUID r = dev \<and> it_ID r = ?p) (t_items t) = Inr (Some r)"
    and r: "it_Name r = w" "it_ParentID r = chain_parent sha dev ws"
    by (rule placed_lookup [OF g pl])

  have "chain sha dev t ws" using snoc.prems(1) unfolding chain_def by (metis append.assoc append_Cons)
  then have "path_segments (Suc (length ws)) g dev t r (n # segs) = Some (Inr (ws @ w # n # segs))"
    using snoc.IH r by simp
  moreover have "?p \<noteq> []" using sha by (simp add: deterministicID_def sha_ok_def)
  moreover have "it_ParentID item = Some ?p" using snoc.prems(2) by (simp add: chain_parent_def)
  ultimately show ?case using look snoc.prems(3) by simp
qed

text \<open>
  The folders of a path, then its file: after the steps the chain is in place.  The identifier of the file is none of
  the identifiers of the folders above it.
\<close>

lemma chain_extend:
  assumes sha: "sha_ok sha" and ws: "chain sha dev t ws" "\<forall>x\<in>set (ws @ [w]). CHR ''/'' \<notin> set x"
    and up: "t_items t' = upsert it_ID assign_item item (t_items t)"
    and item: "it_ID item = deterministicID sha dev (ws @ [w])" "it_DeviceUUID item = dev" "it_Name item = w"
      "it_ParentID item = chain_parent sha dev ws"
  shows "chain sha dev t' (ws @ [w])"
  unfolding chain_def
proof (intro allI impI)
  fix xs x ys
  assume eq: "ws @ [w] = xs @ x # ys"
  show "placed t' dev (deterministicID sha dev (xs @ [x])) x (chain_parent sha dev xs)"
  proof (cases "ys = []")
    case True
    with eq item placed_upsert [OF up] show ?thesis by simp
  next
    case False
    then obtain zs where zs: "ws = xs @ x # zs" using eq by (metis append_Cons append_assoc append_butlast_last_id butlast_snoc)
    have "deterministicID sha dev (ws @ [w]) \<noteq> deterministicID sha dev (xs @ [x])"
    proof
      assume "deterministicID sha dev (ws @ [w]) = deterministicID sha dev (xs @ [x])"
      then have "ws @ [w] = xs @ [x]" using ws(2) zs by (intro deterministicID_inj [OF sha]) auto
      then show False using zs by simp
    qed
    then show ?thesis
      using placed_keep [OF _ up, of dev "deterministicID sha dev (xs @ [x])" x "chain_parent sha dev xs"] ws(1) zs item(1)
      by (auto simp: chain_def)
  qed
qed

lemma chain_keep:
  assumes "chain sha dev t ws" "t_items t' = upsert it_ID assign_item item (t_items t)"
    and "\<And>xs ys. ws = xs @ ys \<Longrightarrow> xs \<noteq> [] \<Longrightarrow> it_ID item \<noteq> deterministicID sha dev xs"
  shows "chain sha dev t' ws"
  unfolding chain_def
proof (intro allI impI)
  fix xs x ys
  assume eq: "ws = xs @ x # ys"
  then have "it_ID item \<noteq> deterministicID sha dev (xs @ [x])" using assms(3) [of "xs @ [x]" ys] by simp
  then show "placed t' dev (deterministicID sha dev (xs @ [x])) x (chain_parent sha dev xs)"
    using placed_keep [OF _ assms(2)] assms(1) eq unfolding chain_def by metis
qed

lemma upsert_segments_file:
  assumes g: "tree_sound g" and sha: "sha_ok (e_sha env)" and dir: "\<not> ch_IsDir change"
    and run: "upsert_segments g env dev change ws segs (chain_parent (e_sha env) dev ws) lst t = (Inr (Some item), t')"
    and ws: "chain (e_sha env) dev t ws" "\<forall>x\<in>set (ws @ segs). CHR ''/'' \<notin> set x" "segs \<noteq> []"
    and ids: "\<And>xs ys. ws @ segs = xs @ ys \<Longrightarrow> xs \<noteq> [] \<Longrightarrow> ch_ID change \<noteq> deterministicID (e_sha env) dev xs"
  shows "chain (e_sha env) dev t' (butlast (ws @ segs)) \<and>
    it_ParentID item = chain_parent (e_sha env) dev (butlast (ws @ segs)) \<and> it_Name item = ch_CurrentName change"
  using run ws ids
proof (induction segs arbitrary: ws lst t)
  case (Cons seg segs)
  show ?case
  proof (cases "segs = []")
    case True
    obtain t1 where st: "upsert_file_item g env dev change (chain_parent (e_sha env) dev ws) t = (Inr item, t1)" "t' = t1"
      using Cons.prems(1) True dir by (auto split: prod.splits sum.splits)
    note ok = upsert_file_item_ok [OF g st(1)]
    have "it_ID item \<noteq> deterministicID (e_sha env) dev xs" if "ws = xs @ ys" "xs \<noteq> []" for xs ys
      using ok Cons.prems(5) [of xs "ys @ [seg]"] that True by simp
    then have "chain (e_sha env) dev t' ws"
      using ok Cons.prems(2) st(2) by (intro chain_keep [of _ _ t ws t' item]) auto

    then show ?thesis using ok True by (simp add: butlast_append)
  next
    case False
    obtain fo t1 where st: "upsert_folder_item g env dev (ws @ [seg]) seg (chain_parent (e_sha env) dev ws) t = (Inr fo, t1)"
      and rest: "upsert_segments g env dev change (ws @ [seg]) segs (Some (it_ID fo)) (Some fo) t1 = (Inr (Some item), t')"
      using Cons.prems(1) False by (auto split: prod.splits sum.splits)
    note ok = upsert_folder_item_ok [OF g st]
    have par: "Some (it_ID fo) = chain_parent (e_sha env) dev (ws @ [seg])" using ok by (simp add: chain_parent_def)
    have "chain (e_sha env) dev t1 (ws @ [seg])"
      using ok Cons.prems(2,3) by (intro chain_extend [OF sha]) auto
    then show ?thesis
      using Cons.IH [OF rest [unfolded par]] Cons.prems(3,5) False by simp
  qed
qed simp

subsection \<open>Properties of the file tree\<close>

lemma page_subset: "set (take a (drop b (sort_key item_order (join_links flt t rows)))) \<subseteq> set rows"
proof -
  have "set (take a (drop b xs)) \<subseteq> set xs" for xs :: "Item list"
    by (meson set_drop_subset set_take_subset subset_trans)
  then have "set (take a (drop b (sort_key item_order (join_links flt t rows)))) \<subseteq> set (join_links flt t rows)"
    by (metis set_sort)
  also have "\<dots> \<subseteq> set rows" by (auto simp: join_links_def)
  finally show ?thesis .
qed

lemma ListItems_page:
  assumes sound: "gorm_sound (g_items g)" and live: "\<not> f_IncludeDeleted flt"
    and run: "ListItems g P like now flt t = Inr (rows, n)"
  shows "x \<in> set rows \<Longrightarrow> x \<in> set (t_items t) \<and> item_matches like None flt t x"
    "0 < f_PageSize flt \<Longrightarrow> int (length rows) \<le> f_PageSize flt"
proof -
  obtain all where all: "g_find (g_items g) (item_matches like None flt t) (t_items t) = Inr all"
    and rows: "rows = take (nat (if f_PageSize flt \<le> 0 then 50 else f_PageSize flt))
      (drop (nat (((if f_Page flt \<le> 0 then 1 else f_Page flt) - 1) * (if f_PageSize flt \<le> 0 then 50 else f_PageSize flt)))
        (sort_key item_order (join_links flt t all)))"
    using run live by (auto simp: ListItems_def Let_def bind_res_def split: sum.splits)
  have page: "0 < f_PageSize flt \<Longrightarrow> int (length rows) \<le> f_PageSize flt" by (simp add: rows)
  have "set rows \<subseteq> set all" unfolding rows by (rule page_subset)
  then show "x \<in> set rows \<Longrightarrow> x \<in> set (t_items t) \<and> item_matches like None flt t x"
    using gorm_findD(2) [OF sound all] by auto
  show "0 < f_PageSize flt \<Longrightarrow> int (length rows) \<le> f_PageSize flt" by (rule page)
qed

lemma segments_no_slash:
 "x \<in> set (segments_of p) \<Longrightarrow> CHR ''/'' \<notin> set x"
  using set_strip_subset [of is_space]
  by (auto simp: segments_of_def TrimSpace_def dest!: Split_no_sep)


definition sample_tree_gorm :: tree_gorm where
  "sample_tree_gorm = \<lparr>g_files = memory_gorm, g_folders = memory_gorm, g_items = memory_gorm, g_links = memory_gorm,
     g_types = memory_gorm\<rparr>"

definition sample_env :: tree_env where
  "sample_env = \<lparr>e_sha = (\<lambda>x. CHR ''#'' # x), e_now = 1, e_commit_ok = True\<rparr>"

definition sample_change :: FileChange where
  "sample_change = \<lparr>ch_ID = ''id'', ch_OriginPath = [], ch_CurrentPath = ''Demo/a/b.txt'', ch_CurrentName = ''b.txt'',
     ch_Extension = ''txt'', ch_Size = 5, ch_SnapshotNumber = 0, ch_IsDir = False, ch_Deleted = False,
     ch_ChangePending = True, ch_ContentTypes = []\<rparr>"

definition empty_tree :: tree_db where
  "empty_tree = \<lparr>t_files = [], t_folders = [], t_items = [], t_links = [], t_types = []\<rparr>"

lemma sample_tree_reliable: "tree_reliable sample_tree_gorm" "tree_sound sample_tree_gorm"
  by (simp_all add: tree_reliable_def tree_sound_def sample_tree_gorm_def)

lemma sample_sha_ok: "sha_ok (e_sha sample_env)"
  by (simp add: sha_ok_def sample_env_def inj_def)

lemma sample_segments: "segments_of ''Demo/a/b.txt'' = [''Demo'', ''a'', ''b.txt'']"
  by (simp add: segments_of_def TrimSpace_def strip_def is_space_def)

lemma sample_upsert_runs:
  "\<exists>item t'. upsertPath sample_tree_gorm sample_env ''d'' sample_change empty_tree = (Inr (Some item), t')"
  by (simp add: upsertPath_def splitPath_def sample_change_def sample_segments upsert_folder_item_def upsert_file_item_def
      then_exec_def UpsertFolder_def UpsertFile_def UpsertItem_def on_files_def on_folders_def on_items_def
      sample_tree_gorm_def Let_def)


lemma gone_invisible:
  assumes gi: "gorm_sound (g_items g)" and gone_: "gone i t"
  shows "GetItemByID g d i t \<noteq> Inr (Some r)"
    "\<not> f_IncludeDeleted flt \<Longrightarrow> ListItems g P like now flt t = Inr (rows, n) \<Longrightarrow> x \<in> set rows \<Longrightarrow> it_ID x \<noteq> i"
proof -
  show "GetItemByID g d i t \<noteq> Inr (Some r)"
  proof
    assume "GetItemByID g d i t = Inr (Some r)"
    then have "r \<in> set (t_items t)" "live_item d i r" using g_firstD [OF gi] by (auto simp: GetItemByID_def)
    with gone_ show False by (auto simp: gone_def live_item_def)
  qed
  show "it_ID x \<noteq> i" if "\<not> f_IncludeDeleted flt" "ListItems g P like now flt t = Inr (rows, n)" "x \<in> set rows"
    using ListItems_page(1) [OF gi that] gone_ by (auto simp: gone_def item_matches_def)
qed

text \<open>
  An item that has once been soft-deleted never becomes visible again under its identifier: no sequence of
  changes that the backend applies clears the deletion mark, since the upserts leave it as it is.  A folder that is
  deleted and created again (folders have an identifier made of their path) stays invisible.
\<close>
theorem deleted_item_never_returns:
  assumes g: "tree_sound g" and gone_: "\<exists>r\<in>set (t_items t). it_ID r = i" "\<forall>r\<in>set (t_items t). it_ID r = i \<longrightarrow> it_DeletedAt r \<noteq> None"
    and run: "ApplyChanges g env dev changes t = (e, t')"
  shows "GetItemByID g d i t' \<noteq> Inr (Some r) \<and>
    (\<not> f_IncludeDeleted flt \<and> ListItems g P like now flt t' = Inr (rows, n) \<longrightarrow>
      (\<forall>x\<in>set rows. it_ID x \<noteq> i))"
proof -
  have "gone i t'" using gone_ApplyChanges [OF g run] gone_ by (simp add: gone_def)
  moreover have "gorm_sound (g_items g)" using g by (simp add: tree_sound_def)
  ultimately show ?thesis using gone_invisible by blast
qed

theorem deleted_item_never_returns_witness:
  "\<exists>t e t'. (\<exists>r\<in>set (t_items t). it_ID r = ''#d|Demo'') \<and>
     ApplyChanges sample_tree_gorm sample_env ''d'' [sample_change] t = (e, t') \<and>
     (\<forall>r. GetItemByID sample_tree_gorm ''d'' ''#d|Demo'' t' \<noteq> Inr (Some r))"
proof -
  let ?dead = "(new_item sample_env ''#d|Demo'' ''d'' ''Demo'' None None (Some ''#d|Demo'') 0)\<lparr>it_DeletedAt := Some 0\<rparr>"
  let ?t = "empty_tree\<lparr>t_items := [?dead]\<rparr>"
  obtain e t' where run: "ApplyChanges sample_tree_gorm sample_env ''d'' [sample_change] ?t = (e, t')" by fastforce
  have a: "\<exists>r\<in>set (t_items ?t). it_ID r = ''#d|Demo''" by (simp add: new_item_def)
  have b: "\<forall>r\<in>set (t_items ?t). it_ID r = ''#d|Demo'' \<longrightarrow> it_DeletedAt r \<noteq> None" by simp
  have "\<forall>r. GetItemByID sample_tree_gorm ''d'' ''#d|Demo'' t' \<noteq> Inr (Some r)"
    using deleted_item_never_returns [OF sample_tree_reliable(2) a b run] by blast
  with a run show ?thesis by blast
qed

text \<open>
  A deletion whose identifier the backend does not know changes nothing and reports success, even when a live
  item has the path the deletion names: the search by path is reached only after a database error, since
  \<open>DeleteItem\<close> treats an unknown identifier as success.
\<close>
theorem deletion_by_unknown_id_keeps_item:
  assumes "tree_reliable g" "e_commit_ok env" "ch_Deleted change"
    and "\<forall>r\<in>set (t_items t). \<not> live_item dev (ch_ID change) r"
  shows "ApplyChanges g env dev [change] t = (None, t)"
proof -
  have g: "gorm_reliable (g_items g)" using assms(1) by (simp add: tree_reliable_def)
  obtain x where x: "g_first (g_items g) it_ID (live_item dev (ch_ID change)) (t_items t) = Inr x"
    using g_first_reliable [OF g] by blast
  have "x = None"
  proof (cases x)
    case (Some r)
    then show ?thesis using g_firstD(1,2) [OF gorm_reliable_sound [OF g] x [unfolded Some]] assms(4) by blast
  qed
  then show ?thesis using x assms by (simp add: apply_delete_def DeleteItem_def Transaction_def)
qed

theorem deletion_by_unknown_id_keeps_item_witness:
  "\<exists>t. (\<exists>r\<in>set (t_items t). it_Name r = ''Demo'' \<and> it_DeletedAt r = None) \<and>
     ApplyChanges sample_tree_gorm sample_env ''d''
       [sample_change\<lparr>ch_CurrentPath := ''Demo'', ch_CurrentName := ''Demo'', ch_Deleted := True\<rparr>] t = (None, t)"
proof -
  let ?item = "new_item sample_env ''#d|Demo'' ''d'' ''Demo'' None None (Some ''#d|Demo'') 0"
  let ?t = "empty_tree\<lparr>t_items := [?item]\<rparr>"
  let ?ch = "sample_change\<lparr>ch_CurrentPath := ''Demo'', ch_CurrentName := ''Demo'', ch_Deleted := True\<rparr>"
  have "ApplyChanges sample_tree_gorm sample_env ''d'' [?ch] ?t = (None, ?t)"
    by (rule deletion_by_unknown_id_keeps_item [OF sample_tree_reliable(1)])
      (simp_all add: sample_env_def live_item_def sample_change_def)
  then show ?thesis by (intro exI [of _ ?t]) (simp add: new_item_def)
qed

end
