(* ===== verification/TreeSync.thy ===== *)
theory TreeSync
  imports Monitor FileTree
begin

text \<open>
  The agent's side of the file tree: the loop that reports monitored files to the backend
  (\<open>agent/internal/service/filetree_sync.go\<close>) and the inverse mapping of logical paths to files
  (\<open>convertLogicalPathToPhysical\<close> in \<open>agent/internal/command/handlers.go\<close>).  The file system, the
  clock, the name hash and the sender are parameters.
\<close>

subsection \<open>Paths\<close>

definition IsAbs :: "string \<Rightarrow> bool" where
  "IsAbs p \<longleftrightarrow> HasPrefix p ''/''"

text \<open>\<open>filepath.Abs\<close>; the working directory is \<open>None\<close> when the system does not tell it.\<close>

definition Abs :: "string option \<Rightarrow> string \<Rightarrow> string option" where
  "Abs cwd p = (if IsAbs p then Some (Clean p) else map_option (\<lambda>w. JoinPath [w, p]) cwd)"

fun rel_elems :: "string list \<Rightarrow> string list \<Rightarrow> string list" where
  "rel_elems (b # bs) (t # ts) = (if b = t then rel_elems bs ts else replicate (length (b # bs)) ''..'' @ t # ts)"
| "rel_elems bs ts = replicate (length bs) ''..'' @ ts"

text \<open>\<open>filepath.Rel\<close> of two absolute paths, which never fails.\<close>

definition path_elems :: "string \<Rightarrow> string list" where
  "path_elems p = filter (\<lambda>e. e \<noteq> []) (Split (CHR ''/'') p)"

definition Rel :: "string \<Rightarrow> string \<Rightarrow> string" where
  "Rel base targ =
     (if Clean base = Clean targ then ''.''
      else Join (rel_elems (path_elems (Clean base)) (path_elems (Clean targ))) ''/'')"

definition splitSegments :: "string \<Rightarrow> string list" where
  "splitSegments p =
     (if p = [] then [] else filter (\<lambda>s. s \<noteq> []) (map TrimSpace (Split (CHR ''/'') p)))"

definition logical_segments :: "string \<Rightarrow> string \<Rightarrow> string list" where
  "logical_segments absRoot absPath =
     (let rel = Rel absRoot absPath; rootName = Base absRoot
      in (if rootName \<noteq> [] then [rootName] else []) @
         (if rel \<noteq> ''.'' then filter (\<lambda>s. s \<noteq> []) (map TrimSpace (Split (CHR ''/'') rel)) else []))"

definition under_root :: "string \<Rightarrow> string \<Rightarrow> bool" where
  "under_root absRoot absPath \<longleftrightarrow>
     ToLower absPath = ToLower absRoot \<or> HasPrefix (ToLower absPath) (ToLower absRoot @ ''/'')"

fun match_root :: "string option \<Rightarrow> string list \<Rightarrow> string \<Rightarrow> string list option" where
  "match_root cwd [] absPath = None"
| "match_root cwd (root # roots) absPath =
     (if TrimSpace root = [] then match_root cwd roots absPath
      else case Abs cwd root of
             None \<Rightarrow> match_root cwd roots absPath
           | Some absRoot \<Rightarrow>
               if under_root absRoot absPath then Some (logical_segments absRoot absPath)
               else match_root cwd roots absPath)"

definition buildLogicalSegments :: "string option \<Rightarrow> string list \<Rightarrow> string \<Rightarrow> string list" where
  "buildLogicalSegments cwd roots p =
     (if roots = [] \<or> TrimSpace p = [] then splitSegments p
      else case Abs cwd p of
             None \<Rightarrow> splitSegments p
           | Some absPath \<Rightarrow>
               (case match_root cwd roots absPath of None \<Rightarrow> splitSegments p | Some segs \<Rightarrow> segs))"

fun find_root :: "string option \<Rightarrow> string list \<Rightarrow> string \<Rightarrow> string option" where
  "find_root cwd [] rootName = None"
| "find_root cwd (root # roots) rootName =
     (if TrimSpace root = [] then find_root cwd roots rootName
      else case Abs cwd root of
             None \<Rightarrow> find_root cwd roots rootName
           | Some absRoot \<Rightarrow> if Base absRoot = rootName then Some absRoot else find_root cwd roots rootName)"

definition convertLogicalPathToPhysical :: "string option \<Rightarrow> string list \<Rightarrow> string \<Rightarrow> string" where
  "convertLogicalPathToPhysical cwd roots logicalPath =
     (if roots = [] \<or> TrimSpace logicalPath = [] then []
      else
        let segs = Split (CHR ''/'') (TrimSlash logicalPath)
        in if segs = [] then []
           else case find_root cwd roots (hd segs) of
                  None \<Rightarrow> []
                | Some absRoot \<Rightarrow>
                    if length segs = 1 then absRoot else JoinPath [absRoot, JoinPath (tl segs)])"

subsection \<open>Identifiers\<close>

definition uniqueID :: "(string \<Rightarrow> string) \<Rightarrow> time \<Rightarrow> string \<Rightarrow> string list \<Rightarrow> nat \<Rightarrow> time \<Rightarrow> string" where
  "uniqueID sha now deviceUUID segments dbID lastEventAt =
     (if segments = [] then []
      else sha (deviceUUID @ ''|'' @ Join segments ''/'' @ ''|'' @ show_nat dbID @ ''|'' @ show_int lastEventAt @ ''|'' @ show_int now))"

definition agent_deterministicID :: "(string \<Rightarrow> string) \<Rightarrow> string \<Rightarrow> string list \<Rightarrow> string" where
  "agent_deterministicID sha deviceUUID segments =
     (if segments = [] then [] else sha (deviceUUID @ ''|'' @ Join segments ''/''))"

subsection \<open>One synchronisation\<close>

datatype stat_result = NotExist | StatFails | IsFile int | IsDirectory

record sync_env =
  y_db :: "MonitoredFile gorm option"
  y_device :: string
  y_cwd :: "string option"
  y_roots :: "string list"
  y_stat :: "string \<Rightarrow> stat_result"
  y_sha :: "string \<Rightarrow> string"
  y_now :: time
  y_send :: "FileChange list \<Rightarrow> bool"

definition wants_sync :: "MonitoredFile \<Rightarrow> bool" where
  "wants_sync r \<longleftrightarrow>
     mf_ChangePending r \<or> mf_LastBackupAt r = None \<or> (case mf_LastBackupAt r of None \<Rightarrow> False | Some b \<Rightarrow> b < mf_LastEventAt r) \<or>
     mf_LastAction r = ''delete'' \<or> mf_LastAction r = ''move_out''"

definition sync_batch :: "MonitoredFile gorm \<Rightarrow> monitored \<Rightarrow> (db_error, monitored) res" where
  "sync_batch db rows = map_sum id (take 256) (g_ordered db mf_LastEventAt wants_sync rows)"

definition collectIDs :: "monitored \<Rightarrow> nat list" where
  "collectIDs rows = map mf_ID rows"

definition row_segments :: "sync_env \<Rightarrow> string \<Rightarrow> string list" where
  "row_segments env path =
     (let segs = buildLogicalSegments (y_cwd env) (y_roots env) path
      in if segs = [] then splitSegments path else segs)"

definition row_id :: "sync_env \<Rightarrow> MonitoredFile \<Rightarrow> string" where
  "row_id env r =
     (if mf_ItemID r = [] then
        uniqueID (y_sha env) (y_now env) (y_device env) (row_segments env (TrimSpace (mf_Path r))) (mf_ID r) (mf_LastEventAt r)
      else mf_ItemID r)"

definition row_change :: "sync_env \<Rightarrow> MonitoredFile \<Rightarrow> FileChange option" where
  "row_change env r =
     (let path = TrimSpace (mf_Path r); info = y_stat env path; segs = row_segments env path; isDir = (info = IsDirectory)
      in if path = [] \<or> info = StatFails then None
         else Some
           \<lparr>ch_ID = row_id env r, ch_OriginPath = Join segs ''/'', ch_CurrentPath = Join segs ''/'',
            ch_CurrentName = (if segs \<noteq> [] then last segs else Base path),
            ch_Extension = (if isDir then ''folder'' else TrimPrefix (ToLower (Ext path)) ''.''),
            ch_Size = (case info of IsFile n \<Rightarrow> n | _ \<Rightarrow> 0), ch_SnapshotNumber = 0, ch_IsDir = isDir,
            ch_Deleted = (info = NotExist \<and> (mf_LastAction r = ''delete'' \<or> mf_LastAction r = ''move_out'')),
            ch_ChangePending = (case mf_LastBackupAt r of None \<Rightarrow> True | Some b \<Rightarrow> b < mf_LastEventAt r),
            ch_ContentTypes = []\<rparr>)"

text \<open>An identifier that is made up is written to its row; an error of that statement is logged.\<close>

definition store_id :: "sync_env \<Rightarrow> MonitoredFile gorm \<Rightarrow> MonitoredFile \<Rightarrow> monitored \<Rightarrow> monitored" where
  "store_id env db r rows =
     (if mf_ItemID r \<noteq> [] then rows
      else case g_exec db (map (\<lambda>x. if mf_ID x = mf_ID r then x\<lparr>mf_ItemID := row_id env r, mf_UpdatedAt := y_now env\<rparr> else x)) rows of
             Inl e \<Rightarrow> rows
           | Inr rows' \<Rightarrow> rows')"

fun collect_changes ::
    "sync_env \<Rightarrow> MonitoredFile gorm \<Rightarrow> monitored \<Rightarrow> monitored \<Rightarrow> FileChange list \<times> monitored" where
  "collect_changes env db [] rows = ([], rows)"
| "collect_changes env db (r # rs) rows =
     (case row_change env r of
        None \<Rightarrow> collect_changes env db rs rows
      | Some c \<Rightarrow> (case collect_changes env db rs (store_id env db r rows) of (cs, rows') \<Rightarrow> (c # cs, rows')))"

text \<open>The error, the changes that were sent, and the table afterwards.\<close>

definition syncFileTreeOnce :: "sync_env \<Rightarrow> monitored \<Rightarrow> string option \<times> FileChange list \<times> monitored" where
  "syncFileTreeOnce env rows =
     (case y_db env of
        None \<Rightarrow> (None, [], rows)
      | Some db \<Rightarrow>
          if y_device env = [] then (Some ''device UUID not set'', [], rows)
          else case sync_batch db rows of
                 Inl e \<Rightarrow> (Some e, [], rows)
               | Inr batch \<Rightarrow>
                   if batch = [] then (None, [], rows)
                   else
                     let (changes, rows1) = collect_changes env db batch rows
                     in if changes = [] then (None, [], rows1)
                        else if \<not> y_send env changes then (Some ''send'', [], rows1)
                        else
                          (case g_exec db (map (\<lambda>x. if mf_ID x \<in> set (collectIDs batch)
                                                      then x\<lparr>mf_ChangePending := False, mf_UpdatedAt := y_now env\<rparr> else x)) rows1 of
                             Inl e \<Rightarrow> (None, changes, rows1)
                           | Inr rows2 \<Rightarrow> (None, changes, rows2)))"


subsection \<open>What a synchronisation sends\<close>

lemma collect_changes_result:
  "collect_changes env db batch rows = (changes, rows') \<Longrightarrow> changes = List.map_filter (row_change env) batch"
  by (induction batch arbitrary: rows changes rows')
    (auto simp: List.map_filter_simps split: option.splits prod.splits)

text \<open>The part of a row that a synchronisation never writes.\<close>

definition row_core :: "MonitoredFile \<Rightarrow> nat \<times> string \<times> time" where
  "row_core r = (mf_ID r, mf_LastAction r, mf_LastEventAt r)"

lemma map_core_update:
  "(\<And>x. row_core (f x) = row_core x) \<Longrightarrow> map row_core (map (\<lambda>x. if P x then f x else x) rows) = map row_core rows"
  by simp

definition touches_only :: "nat set \<Rightarrow> monitored \<Rightarrow> monitored \<Rightarrow> bool" where
  "touches_only I rows rows' \<longleftrightarrow>
     map row_core rows' = map row_core rows \<and> filter (\<lambda>x. mf_ID x \<notin> I) rows' = filter (\<lambda>x. mf_ID x \<notin> I) rows"

lemma touches_only_refl [simp]: "touches_only I rows rows"
  by (simp add: touches_only_def)

lemma touches_only_trans: "touches_only I a b \<Longrightarrow> touches_only I b c \<Longrightarrow> touches_only I a c"
  by (simp add: touches_only_def)

lemma touches_only_map:
  assumes "\<And>x. row_core (f x) = row_core x" "\<And>x. P x \<Longrightarrow> mf_ID x \<in> I"
  shows "touches_only I rows (map (\<lambda>x. if P x then f x else x) rows)"
proof -
  have id: "mf_ID (f x) = mf_ID x" for x using assms(1) [of x] by (simp add: row_core_def)
  have "filter (\<lambda>x. mf_ID x \<notin> I) (map (\<lambda>x. if P x then f x else x) rows) = filter (\<lambda>x. mf_ID x \<notin> I) rows"
    by (rule filter_map_same) (use id assms(2) in auto)
  then show ?thesis by (simp add: touches_only_def map_core_update [OF assms(1)] del: map_map)
qed

lemma store_id_touches:
  assumes "gorm_sound db" shows "touches_only {mf_ID r} rows (store_id env db r rows)"
proof (cases "mf_ItemID r = []")
  case True
  let ?u = "map (\<lambda>x. if mf_ID x = mf_ID r then x\<lparr>mf_ItemID := row_id env r, mf_UpdatedAt := y_now env\<rparr> else x)"
  have "touches_only {mf_ID r} rows (?u rows)" by (rule touches_only_map) (simp_all add: row_core_def)
  then show ?thesis using True gorm_execD [OF assms, of ?u rows]
    by (cases "g_exec db ?u rows") (simp_all add: store_id_def)
qed (simp add: store_id_def)

lemma touches_only_mono: "touches_only I a b \<Longrightarrow> I \<subseteq> J \<Longrightarrow> touches_only J a b"
proof -
  assume t: "touches_only I a b" and sub: "I \<subseteq> J"
  have "filter (\<lambda>x. mf_ID x \<notin> J) xs = filter (\<lambda>x. mf_ID x \<notin> J) (filter (\<lambda>x. mf_ID x \<notin> I) xs)" for xs
    using sub by (auto simp: filter_filter intro!: filter_cong)
  then show ?thesis using t unfolding touches_only_def by metis
qed

lemma collect_changes_touches:
  assumes "gorm_sound db" "collect_changes env db batch rows = (changes, rows')"
  shows "touches_only (mf_ID ` set batch) rows rows'"
  using assms(2)
proof (induction batch arbitrary: rows changes)
  case (Cons r batch)
  show ?case
  proof (cases "row_change env r")
    case None
    then have "touches_only (mf_ID ` set batch) rows rows'" using Cons by simp
    then show ?thesis by (rule touches_only_mono) auto
  next
    case (Some c)
    then obtain cs where "collect_changes env db batch (store_id env db r rows) = (cs, rows')"
      using Cons.prems by (auto split: prod.splits)
    then have "touches_only (mf_ID ` set batch) (store_id env db r rows) rows'" by (rule Cons.IH)
    then have "touches_only (mf_ID ` set (r # batch)) (store_id env db r rows) rows'" by (rule touches_only_mono) auto
    moreover have "touches_only (mf_ID ` set (r # batch)) rows (store_id env db r rows)"
      using store_id_touches [OF assms(1), of r rows env] by (rule touches_only_mono) auto
    ultimately show ?thesis using touches_only_trans by blast
  qed
qed simp

lemma syncFileTreeOnce_batch:
  assumes sound: "gorm_sound db" and db: "y_db env = Some db" and run: "syncFileTreeOnce env rows = (e, changes, rows')"
  shows "(changes = [] \<and> rows' = rows) \<or>
    (\<exists>batch. sync_batch db rows = Inr batch \<and> touches_only (mf_ID ` set batch) rows rows' \<and>
       (changes = [] \<or> changes = List.map_filter (row_change env) batch))"
proof (cases "y_device env = [] \<or> (\<exists>e. sync_batch db rows = Inl e)")
  case True
  then show ?thesis using run by (auto simp: syncFileTreeOnce_def db split: if_splits)
next
  case False
  then obtain batch where batch: "sync_batch db rows = Inr batch" by (cases "sync_batch db rows") auto
  obtain cs rows1 where col: "collect_changes env db batch rows = (cs, rows1)" by fastforce
  let ?f = "\<lambda>x. x\<lparr>mf_ChangePending := False, mf_UpdatedAt := y_now env\<rparr>"
  let ?u = "map (\<lambda>x. if mf_ID x \<in> set (collectIDs batch) then ?f x else x)"
  have t1: "touches_only (mf_ID ` set batch) rows rows1" by (rule collect_changes_touches [OF sound col])
  moreover have "touches_only (mf_ID ` set batch) rows1 (?u rows1)"
    by (rule touches_only_map) (simp_all add: row_core_def collectIDs_def)
  ultimately have t2: "touches_only (mf_ID ` set batch) rows (?u rows1)" using touches_only_trans by blast
  have "rows' = rows \<or> rows' = rows1 \<or> rows' = ?u rows1" "changes = [] \<or> changes = cs"
    using run False batch col gorm_execD [OF sound, of ?u rows1]
    by (auto simp: syncFileTreeOnce_def db Let_def split: if_splits sum.splits)
  then show ?thesis using batch t1 t2 collect_changes_result [OF col] by auto
qed


subsection \<open>The connection a synchronisation uses\<close>

text \<open>
  \<open>ConnectionSender\<close> is all that the loop knows of the connection: sending succeeds only while there is one.  From that
  follows that no change is lost while there is none: the rows keep their marks and are sent by a later round.
\<close>

lemma store_id_pending:
  assumes "gorm_sound db" shows "map mf_ChangePending (store_id env db r rows) = map mf_ChangePending rows"
proof -
  let ?u = "map (\<lambda>x. if mf_ID x = mf_ID r then x\<lparr>mf_ItemID := row_id env r, mf_UpdatedAt := y_now env\<rparr> else x)"
  show ?thesis using gorm_execD [OF assms, of ?u rows] by (cases "g_exec db ?u rows") (auto simp: store_id_def)
qed

lemma collect_changes_pending:
  assumes "gorm_sound db"
  shows "collect_changes env db batch rows = (cs, rows') \<Longrightarrow> map mf_ChangePending rows' = map mf_ChangePending rows"
proof (induction batch arbitrary: rows cs)
  case (Cons r batch)
  then show ?case by (cases "row_change env r") (auto simp: store_id_pending [OF assms] split: prod.splits)
qed simp

locale connection_sender =
  fixes send :: "'m \<Rightarrow> FileChange list \<Rightarrow> bool" and connected :: "'m \<Rightarrow> bool"
  assumes send_connected: "send m cs \<Longrightarrow> connected m"
begin

lemma offline_sync_loses_nothing:
  assumes sound: "gorm_sound db" and db: "y_db env = Some db" and off: "\<not> connected m"
    and run: "syncFileTreeOnce (env\<lparr>y_send := send m\<rparr>) rows = (e, changes, rows')"
  shows "changes = [] \<and> map mf_ChangePending rows' = map mf_ChangePending rows \<and> map row_core rows' = map row_core rows"
proof -
  let ?env = "env\<lparr>y_send := send m\<rparr>"
  have fails: "\<not> send m cs" for cs using off send_connected by blast
  obtain batch cs where "rows' = rows \<or> sync_batch db rows = Inr batch \<and> collect_changes ?env db batch rows = (cs, rows')" "changes = []"
    using run fails by (auto simp: syncFileTreeOnce_def db Let_def split: if_splits sum.splits prod.splits)
  then show ?thesis using collect_changes_pending [OF sound] collect_changes_touches [OF sound] by (auto simp: touches_only_def)
qed

end

subsection \<open>Starvation\<close>

fun sync_rounds :: "sync_env list \<Rightarrow> monitored \<Rightarrow> FileChange list list \<times> monitored" where
  "sync_rounds [] rows = ([], rows)"
| "sync_rounds (env # envs) rows =
     (case syncFileTreeOnce env rows of (e, cs, rows1) \<Rightarrow>
        (case sync_rounds envs rows1 of (css, rows2) \<Rightarrow> (cs # css, rows2)))"

definition gone_before :: "time \<Rightarrow> MonitoredFile \<Rightarrow> bool" where
  "gone_before t x \<longleftrightarrow> (mf_LastAction x = ''delete'' \<or> mf_LastAction x = ''move_out'') \<and> mf_LastEventAt x < t"

lemma sorted_count_before:
  assumes "sorted (map f xs)" "j < length xs"
  shows "length (filter (\<lambda>y. f y < f (xs ! j)) xs) \<le> j"
proof -
  have none: "\<not> f y < f (xs ! j)" if y: "y \<in> set (drop j xs)" for y
  proof -
    obtain k where "k < length xs - j" "y = drop j xs ! k" using y unfolding in_set_conv_nth length_drop by blast
    then have k: "y = xs ! (j + k)" "j + k < length xs" using assms(2) by simp_all
    then show ?thesis using sorted_nth_mono [OF assms(1), of j "j + k"] assms(2) by simp
  qed
  have "filter (\<lambda>y. f y < f (xs ! j)) xs =
      filter (\<lambda>y. f y < f (xs ! j)) (take j xs) @ filter (\<lambda>y. f y < f (xs ! j)) (drop j xs)"
    by (metis append_take_drop_id filter_append)
  moreover have "filter (\<lambda>y. f y < f (xs ! j)) (drop j xs) = []" using none by (simp add: filter_empty_conv)
  moreover have "length (filter (\<lambda>y. f y < f (xs ! j)) (take j xs)) \<le> j"
    using length_filter_le [of _ "take j xs"] assms(2) by (metis length_take less_or_eq_imp_le min.absorb2 order_trans)
  ultimately show ?thesis by simp
qed

lemma length_filter_mono: "(\<And>x. P x \<Longrightarrow> Q x) \<Longrightarrow> length (filter P xs) \<le> length (filter Q xs)"
  by (induction xs) (auto intro: le_SucI)

lemma batch_excludes:
  assumes sound: "gorm_sound db" and batch: "sync_batch db rows = Inr batch"
    and many: "256 \<le> length (filter (gone_before t) rows)"
  shows "\<forall>r\<in>set batch. mf_LastEventAt r < t"
proof
  fix r assume r: "r \<in> set batch"
  obtain found where found: "g_find db wants_sync rows = Inr found"
    and b: "batch = take 256 (sort_key mf_LastEventAt found)"
    using batch by (cases "g_find db wants_sync rows") (auto simp: sync_batch_def g_ordered_def)
  let ?s = "sort_key mf_LastEventAt found"
  obtain j where j: "j < 256" "j < length ?s" "r = ?s ! j" using r b by (auto simp: in_set_conv_nth)
  show "mf_LastEventAt r < t"
  proof (rule ccontr)
    assume late: "\<not> mf_LastEventAt r < t"
    have "mset (filter (gone_before t) ?s) = mset (filter (gone_before t) (filter wants_sync rows))"
      using gorm_findD(1) [OF sound found] by (simp add: filter_filter_mset conj_commute)
    moreover have "filter (gone_before t) (filter wants_sync rows) = filter (gone_before t) rows"
      by (auto simp: filter_filter gone_before_def wants_sync_def intro: filter_cong)
    ultimately have "length (filter (gone_before t) ?s) = length (filter (gone_before t) rows)"
      by (metis size_mset)
    then have "256 \<le> length (filter (gone_before t) ?s)" using many by simp
    also have "\<dots> \<le> length (filter (\<lambda>y. mf_LastEventAt y < mf_LastEventAt (?s ! j)) ?s)"
      using late j(3) by (intro length_filter_mono) (auto simp: gone_before_def)
    also have "\<dots> \<le> j" by (rule sorted_count_before) (simp_all add: j(2) del: length_sort)
    finally show False using j(1) by simp
  qed
qed


definition starved :: "nat \<Rightarrow> monitored \<Rightarrow> bool" where
  "starved i rows \<longleftrightarrow>
     (\<exists>r\<in>set rows. mf_ID r = i \<and> 256 \<le> length (filter (gone_before (mf_LastEventAt r)) rows))"

lemma starved_core:
  assumes core: "map row_core rows' = map row_core rows" and "starved i rows"
  shows "starved i rows'"
proof -
  let ?G = "\<lambda>t c. (fst (snd c) = ''delete'' \<or> fst (snd c) = ''move_out'') \<and> snd (snd c) < t"
  have G: "gone_before t = ?G t \<circ> row_core" for t by (simp add: fun_eq_iff gone_before_def row_core_def)
  have len: "length (filter (gone_before t) rows') = length (filter (gone_before t) rows)" for t
    using arg_cong [OF core, of "\<lambda>cs. length (filter (?G t) cs)"] unfolding G by (simp add: filter_map)
  obtain r where r: "r \<in> set rows" "mf_ID r = i" "256 \<le> length (filter (gone_before (mf_LastEventAt r)) rows)"
    using assms(2) by (auto simp: starved_def)
  have "row_core r \<in> set (map row_core rows')" using r(1) unfolding core by simp
  then obtain r' where r': "r' \<in> set rows'" "row_core r' = row_core r" by auto
  then show ?thesis using r len unfolding starved_def by (intro bexI [of _ r']) (simp_all add: row_core_def)
qed

lemma sync_starved:
  assumes sound: "gorm_sound db" and db: "y_db env = Some db" and dist: "distinct (map mf_ID rows)" and st: "starved i rows"
    and run: "syncFileTreeOnce env rows = (e, changes, rows')"
  shows "starved i rows' \<and> distinct (map mf_ID rows') \<and> filter (\<lambda>x. mf_ID x = i) rows' = filter (\<lambda>x. mf_ID x = i) rows \<and>
    (\<exists>batch. i \<notin> mf_ID ` set batch \<and> changes = List.map_filter (row_change env) batch)"
proof -
  obtain r where r: "r \<in> set rows" "mf_ID r = i" "256 \<le> length (filter (gone_before (mf_LastEventAt r)) rows)"
    using st by (auto simp: starved_def)
  have out: "i \<notin> mf_ID ` set batch" if batch: "sync_batch db rows = Inr batch" for batch
  proof
    assume "i \<in> mf_ID ` set batch"
    then obtain b where b: "b \<in> set batch" "mf_ID b = mf_ID r" using r(2) by auto
    obtain found where f: "g_find db wants_sync rows = Inr found" "batch = take 256 (sort_key mf_LastEventAt found)"
      using batch by (cases "g_find db wants_sync rows") (auto simp: sync_batch_def g_ordered_def)
    have "b \<in> set rows" using b(1) f gorm_findD(2) [OF sound f(1)] by (auto dest: in_set_takeD)
    then have "b = r" using b(2) r(1) dist by (auto simp: distinct_map dest: inj_onD)
    then show False using batch_excludes [OF sound batch r(3)] b(1) by auto
  qed
  have t: "\<exists>I. i \<notin> I \<and> touches_only I rows rows'"
    and c: "\<exists>batch. i \<notin> mf_ID ` set batch \<and> changes = List.map_filter (row_change env) batch"
  proof -
    have nil: "\<exists>batch. i \<notin> mf_ID ` set batch \<and> [] = List.map_filter (row_change env) batch"
      by (intro exI [of _ "[]"]) (simp add: List.map_filter_simps)
    show "\<exists>I. i \<notin> I \<and> touches_only I rows rows'"
      using syncFileTreeOnce_batch [OF sound db run] out by (auto intro: exI [of _ "{}"])
    show "\<exists>batch. i \<notin> mf_ID ` set batch \<and> changes = List.map_filter (row_change env) batch"
      using syncFileTreeOnce_batch [OF sound db run] out nil by blast
  qed
  obtain I where I: "i \<notin> I" "touches_only I rows rows'" using t by blast
  have core: "map row_core rows' = map row_core rows" using I(2) by (simp add: touches_only_def)
  have "filter (\<lambda>x. mf_ID x = i) xs = filter (\<lambda>x. mf_ID x = i) (filter (\<lambda>x. mf_ID x \<notin> I) xs)" for xs
    using I(1) by (auto simp: filter_filter intro!: filter_cong)
  then have "filter (\<lambda>x. mf_ID x = i) rows' = filter (\<lambda>x. mf_ID x = i) rows" using I(2) unfolding touches_only_def by metis
  moreover have "map mf_ID rows' = map mf_ID rows"
    using arg_cong [OF core, of "map fst"] by (simp add: row_core_def comp_def)
  ultimately show ?thesis using starved_core [OF core st] dist c by simp
qed



definition sample_monitored :: "nat \<Rightarrow> string \<Rightarrow> MonitoredFile" where
  "sample_monitored i action = \<lparr>mf_ID = i, mf_Path = ''/w/'' @ show_nat i, mf_ItemID = ''x'', mf_LastAction = action,
     mf_LastEventAt = int i, mf_LastBackupAt = None, mf_ChangePending = True, mf_CreatedAt = 0, mf_UpdatedAt = 0\<rparr>"

definition sample_sync_env :: sync_env where
  "sample_sync_env = \<lparr>y_db = Some memory_gorm, y_device = ''d'', y_cwd = None, y_roots = [''/w''], y_stat = (\<lambda>_. NotExist),
     y_sha = (\<lambda>s. CHR ''#'' # s), y_now = 0, y_send = (\<lambda>_. True)\<rparr>"



subsection \<open>Logical paths\<close>

definition rooted :: "string list \<Rightarrow> string" where
  "rooted es = CHR ''/'' # Join es ''/''"

lemma Split_rooted: "es \<noteq> [] \<Longrightarrow> \<forall>e\<in>set es. plain_elem e \<Longrightarrow> Split (CHR ''/'') (rooted es) = [] # es"
  using Split_append_sep [of "CHR ''/''" "[]" "Join es ''/''"] Split_Join [of es "CHR ''/''"]
  by (simp add: rooted_def plain_elem_def)

lemma Clean_rooted: "es \<noteq> [] \<Longrightarrow> \<forall>e\<in>set es. plain_elem e \<Longrightarrow> Clean (rooted es) = rooted es"
proof -
  assume es: "es \<noteq> []" "\<forall>e\<in>set es. plain_elem e"
  have "foldl (clean_push True) [] ([] # es) = rev es"
    using foldl_clean_push_plain [OF es(2), of True "[]"] by (simp add: clean_push_def)
  then show ?thesis using Split_rooted [OF es] by (simp add: Clean_def rooted_def)
qed

lemma path_elems_rooted: "es \<noteq> [] \<Longrightarrow> \<forall>e\<in>set es. plain_elem e \<Longrightarrow> path_elems (rooted es) = es"
  using Split_rooted [of es] by (auto simp: path_elems_def plain_elem_def filter_id_conv)

lemma rel_elems_prefix: "rel_elems bs (bs @ ts) = ts"
  by (induction bs) (cases ts, simp_all)

lemma Join_append: "xs \<noteq> [] \<Longrightarrow> ys \<noteq> [] \<Longrightarrow> Join (xs @ ys) sep = Join xs sep @ sep @ Join ys sep"
proof (induction xs rule: induct_list012)
  case (2 x)
  then show ?case by (cases ys) simp_all
qed simp_all

lemma Rel_rooted:
  assumes "rs \<noteq> []" "\<forall>e\<in>set (rs @ es). plain_elem e"
  shows "Rel (rooted rs) (rooted (rs @ es)) = (if es = [] then ''.'' else Join es ''/'')"
proof -
  have p: "Clean (rooted rs) = rooted rs" "path_elems (rooted rs) = rs"
    "Clean (rooted (rs @ es)) = rooted (rs @ es)" "path_elems (rooted (rs @ es)) = rs @ es"
    using assms by (simp_all add: Clean_rooted path_elems_rooted)
  then show ?thesis using rel_elems_prefix [of rs es]
    by (auto simp: Rel_def)
qed

lemma last_Join: "rs \<noteq> [] \<Longrightarrow> last rs \<noteq> [] \<Longrightarrow> last (Join rs sep) = last (last rs) \<and> Join rs sep \<noteq> []"
  by (induction rs rule: induct_list012) auto

lemma Base_rooted:
  assumes "rs \<noteq> []" "\<forall>e\<in>set rs. plain_elem e"
  shows "Base (rooted rs) = last rs"
proof -
  have l: "plain_elem (last rs)" using assms by simp
  obtain pre where pre: "rooted rs = pre @ CHR ''/'' # last rs"
  proof (cases "butlast rs = []")
    case True
    then have "rs = [last rs]" using assms(1) append_butlast_last_id by fastforce
    then have "rooted rs = [] @ CHR ''/'' # last rs" by (metis rooted_def Join.simps(2) append_Nil)
    then show ?thesis using that by blast
  next
    case False
    have "Join rs ''/'' = Join (butlast rs) ''/'' @ ''/'' @ last rs"
      using Join_append [OF False, of "[last rs]" "''/''"] assms(1) by simp
    then show ?thesis using that by (auto simp: rooted_def)
  qed
  have "rev (last rs) \<noteq> []" "CHR ''/'' \<notin> set (rev (last rs))" using l by (auto simp: plain_elem_def)
  then obtain c cs where c: "rev (last rs) = c # cs" "c \<noteq> CHR ''/''" "CHR ''/'' \<notin> set cs" by (cases "rev (last rs)") auto
  have "takeWhile (\<lambda>c. c \<noteq> CHR ''/'') (c # cs @ CHR ''/'' # rev pre) = c # cs"
    using c(2,3) by (simp add: takeWhile_append)
  then have "Base (rooted rs) = rev (c # cs)" using c by (simp add: Base_def pre)
  then show ?thesis using c(1) by (metis rev_rev_ident)
qed


lemma TrimSpace_rooted: "TrimSpace (rooted es) \<noteq> []"
  by (simp add: TrimSpace_def strip_eq_Nil rooted_def is_space_def)

lemma Abs_rooted: "es \<noteq> [] \<Longrightarrow> \<forall>e\<in>set es. plain_elem e \<Longrightarrow> Abs cwd (rooted es) = Some (rooted es)"
  by (simp add: Abs_def IsAbs_def Clean_rooted) (simp add: rooted_def HasPrefix_def)

definition clean_root :: "string \<Rightarrow> bool" where
  "clean_root R \<longleftrightarrow> (\<exists>es. es \<noteq> [] \<and> (\<forall>e\<in>set es. plain_elem e) \<and> R = rooted es)"

lemma clean_rootD: "clean_root R \<Longrightarrow> TrimSpace R \<noteq> [] \<and> Abs cwd R = Some R"
  by (auto simp: clean_root_def TrimSpace_rooted Abs_rooted)

lemma match_root_found:
  assumes "\<forall>R\<in>set roots. clean_root R" "root \<in> set roots" "under_root root p" "\<forall>R\<in>set roots. R \<noteq> root \<longrightarrow> \<not> under_root R p"
  shows "match_root cwd roots p = Some (logical_segments root p)"
  using assms by (induction roots) (auto simp: clean_rootD)

lemma find_root_found:
  assumes "\<forall>R\<in>set roots. clean_root R" "root \<in> set roots" "\<forall>R\<in>set roots. R \<noteq> root \<longrightarrow> Base R \<noteq> Base root"
  shows "find_root cwd roots (Base root) = Some root"
  using assms by (induction roots) (auto simp: clean_rootD)

lemma Split_Join_plain: "es \<noteq> [] \<Longrightarrow> \<forall>e\<in>set es. plain_elem e \<Longrightarrow> Split (CHR ''/'') (Join es ''/'') = es"
  using Split_Join [of es "CHR ''/''"] by (simp add: plain_elem_def)

lemma strip_ends:
  assumes "xs \<noteq> []" "\<not> P (hd xs)" "\<not> P (last xs)"
  shows "strip P xs = xs"
proof -
  have "dropWhile P xs = xs" using assms by (cases xs) auto
  moreover have "dropWhile P (rev xs) = rev xs" using assms by (cases xs rule: rev_cases) auto
  ultimately show ?thesis by (simp add: strip_def)
qed

lemma TrimSlash_Join: "es \<noteq> [] \<Longrightarrow> \<forall>e\<in>set es. plain_elem e \<Longrightarrow> TrimSlash (Join es ''/'') = Join es ''/''"
proof -
  assume es: "es \<noteq> []" "\<forall>e\<in>set es. plain_elem e"
  have pl: "plain_elem (hd es)" "plain_elem (last es)" using es by simp_all
  then have ne: "hd es \<noteq> []" "last es \<noteq> []" by (simp_all add: plain_elem_def)
  have "CHR ''/'' \<notin> set (hd es)" "CHR ''/'' \<notin> set (last es)" using pl by (simp_all add: plain_elem_def)
  then have "hd (hd es) \<noteq> CHR ''/''" "last (last es) \<noteq> CHR ''/''"
    using hd_in_set [OF ne(1)] last_in_set [OF ne(2)] by metis+
  then show ?thesis unfolding TrimSlash_def
    using hd_Join [OF es(1) ne(1), of "''/''"] last_Join [OF es(1) ne(2), of "''/''"] by (intro strip_ends) auto
qed

lemma logical_segments_rooted:
  assumes "rs \<noteq> []" "\<forall>e\<in>set (rs @ es). plain_elem e" "\<forall>e\<in>set es. TrimSpace e = e"
  shows "logical_segments (rooted rs) (rooted (rs @ es)) = last rs # es"
proof -
  have base: "Base (rooted rs) = last rs" "last rs \<noteq> []" using assms(1,2) Base_rooted [of rs] by (auto simp: plain_elem_def)
  have "Join es ''/'' \<noteq> ''.''" if "es \<noteq> []"
  proof
    assume "Join es ''/'' = ''.''"
    then have "es = [''.'']" using Split_Join_plain [OF that] assms(2) by simp
    then show False using assms(2) by (simp add: plain_elem_def)
  qed
  moreover have "filter (\<lambda>s. s \<noteq> []) (map TrimSpace es) = es"
    using assms(2,3) by (auto simp: plain_elem_def filter_id_conv map_idI)
  ultimately show ?thesis
    using base Rel_rooted [OF assms(1,2)] Split_Join_plain [of es] assms(2) by (simp add: logical_segments_def Let_def)
qed



subsection \<open>The two sides read a path alike\<close>

definition segment :: "string \<Rightarrow> bool" where
  "segment s \<longleftrightarrow> TrimSpace s = s \<and> s \<noteq> [] \<and> CHR ''/'' \<notin> set s"

lemma segments_trimmed: "s \<in> set (filter (\<lambda>s. s \<noteq> []) (map TrimSpace (Split (CHR ''/'') p))) \<Longrightarrow> segment s"
  using Split_no_sep [of _ "CHR ''/''" p] set_strip_subset [of is_space] by (fastforce simp: segment_def TrimSpace_def)

lemma segments_of_Join: "ss \<noteq> [] \<Longrightarrow> \<forall>s\<in>set ss. segment s \<Longrightarrow> segments_of (Join ss ''/'') = ss"
  using Split_Join [of ss "CHR ''/''"] by (simp add: segments_of_def segment_def filter_id_conv map_idI)

text \<open>No monitored directory is the file system's root or has a name with blanks at its ends.\<close>

definition tidy_roots :: "string option \<Rightarrow> string list \<Rightarrow> bool" where
  "tidy_roots cwd roots \<longleftrightarrow> (\<forall>root\<in>set roots. \<forall>R. Abs cwd root = Some R \<longrightarrow> segment (Base R))"

lemma match_root_segments:
  "tidy_roots cwd roots \<Longrightarrow> match_root cwd roots p = Some ss \<Longrightarrow> s \<in> set ss \<Longrightarrow> segment s"
proof (induction roots)
  case (Cons root roots)
  have tidy: "tidy_roots cwd roots" using Cons.prems(1) by (simp add: tidy_roots_def)
  show ?case
  proof (cases "\<exists>R. TrimSpace root \<noteq> [] \<and> Abs cwd root = Some R \<and> under_root R p")
    case True
    then obtain R where R: "Abs cwd root = Some R" "ss = logical_segments R p" using Cons.prems(2) by auto
    then have "segment (Base R)" using Cons.prems(1) by (simp add: tidy_roots_def)
    then show ?thesis using Cons.prems(3) segments_trimmed [of s "Rel R p"]
      by (auto simp: R(2) logical_segments_def Let_def split: if_splits)
  next
    case False
    then show ?thesis using Cons.IH [OF tidy _ Cons.prems(3)] Cons.prems(2) by (auto split: option.splits if_splits)
  qed
qed simp

lemma row_segments_segment:
  assumes "tidy_roots (y_cwd env) (y_roots env)" "s \<in> set (row_segments env p)"
  shows "segment s"
proof -
  have split: "segment s" if "s \<in> set (splitSegments q)" for q
    using that segments_trimmed [of s q] by (auto simp: splitSegments_def split: if_splits)
  show ?thesis
    using assms split match_root_segments
    by (auto simp: row_segments_def buildLogicalSegments_def Let_def split: if_splits option.splits)
qed



end
