(* ===== verification/Scheduler.thy ===== *)
theory Scheduler
  imports FileTransfer TreeSync
begin

text \<open>
  Automatic backups of the agent (\<open>agent/internal/service/service.go\<close>): which file events start a backup,
  the wait until a file is settled, and the backup itself.  The goroutine that a backup runs in is a job of the state; its end
  is an event of its own.
\<close>

subsection \<open>Scheduling\<close>

record backup_state =
  inFlight :: "string set"
  recent :: "string \<Rightarrow> time option"
  auto_enabled :: bool

definition backupState :: backup_state where
  "backupState = \<lparr>inFlight = {}, recent = (\<lambda>_. None), auto_enabled = True\<rparr>"

definition backupCooldown :: time where "backupCooldown = 10 * second"

definition SetBackupEnabled :: "bool \<Rightarrow> backup_state \<Rightarrow> backup_state" where
  "SetBackupEnabled b st = st\<lparr>auto_enabled := b\<rparr>"

definition IsBackupEnabled :: "backup_state \<Rightarrow> bool" where
  "IsBackupEnabled st = auto_enabled st"

text \<open>Whether a backup of the path is started, and the state.\<close>

definition scheduleBackup :: "string \<Rightarrow> time \<Rightarrow> backup_state \<Rightarrow> bool \<times> backup_state" where
  "scheduleBackup path now st =
     (if \<not> auto_enabled st then (False, st)
      else if (case recent st path of None \<Rightarrow> False | Some t \<Rightarrow> now - t < backupCooldown) then (False, st)
      else if path \<in> inFlight st then (False, st)
      else (True, st\<lparr>inFlight := insert path (inFlight st)\<rparr>))"

definition finishBackup :: "string \<Rightarrow> time \<Rightarrow> backup_state \<Rightarrow> backup_state" where
  "finishBackup path now st = st\<lparr>inFlight := inFlight st - {path}, recent := (recent st)(path \<mapsto> now)\<rparr>"

text \<open>The consumer of the monitor's events.\<close>

definition on_file_event :: "FileEvent \<Rightarrow> time \<Rightarrow> backup_state \<Rightarrow> bool \<times> backup_state" where
  "on_file_event event now st =
     (if ev_Path event = [] then (False, st)
      else case ev_Action event of
             ActionDelete \<Rightarrow> (False, st)
           | ActionMoveOut \<Rightarrow> (False, st)
           | _ \<Rightarrow> scheduleBackup (ev_Path event) now st)"

subsection \<open>Waiting for a file to settle\<close>

definition fileSettleInterval :: time where "fileSettleInterval = 500 * millisecond"
definition fileSettleMaxWait :: time where "fileSettleMaxWait = 15 * second"
definition fileSettleStablePass :: nat where "fileSettleStablePass = 2"

text \<open>What the loop sees in its \<open>i\<close>th round: the clock, the file and whether it can be opened.\<close>

record settle_world =
  sw_now :: "nat \<Rightarrow> time"
  sw_stat :: "nat \<Rightarrow> stat_result"
  sw_open :: "nat \<Rightarrow> bool"

datatype settle_error = StatError | PathIsDirectory | NotReady

fun settle_loop ::
    "nat \<Rightarrow> settle_world \<Rightarrow> time \<Rightarrow> nat \<Rightarrow> int \<Rightarrow> nat \<Rightarrow> settle_error option option" where
  "settle_loop 0 w deadline i lastSize stablePasses = None"
| "settle_loop (Suc fuel) w deadline i lastSize stablePasses =
     (if \<not> sw_now w i < deadline then Some (if sw_open w i then None else Some NotReady)
      else case sw_stat w i of
             NotExist \<Rightarrow> settle_loop fuel w deadline (Suc i) lastSize stablePasses
           | StatFails \<Rightarrow> Some (Some StatError)
           | IsDirectory \<Rightarrow> Some (Some PathIsDirectory)
           | IsFile sz \<Rightarrow>
               if sz = lastSize then
                 (if Suc stablePasses \<ge> fileSettleStablePass \<and> sw_open w i then Some None
                  else settle_loop fuel w deadline (Suc i) lastSize (Suc stablePasses))
               else settle_loop fuel w deadline (Suc i) sz 0)"

definition waitForStableFile :: "nat \<Rightarrow> time \<Rightarrow> settle_world \<Rightarrow> settle_error option option" where
  "waitForStableFile fuel start w = settle_loop fuel w (start + fileSettleMaxWait) 0 (- 1) 0"

text \<open>
  A round ends with a sleep of the interval, so the clock of the next round is at least that much later.
\<close>

definition clock_advances :: "time \<Rightarrow> settle_world \<Rightarrow> bool" where
  "clock_advances start w \<longleftrightarrow> start \<le> sw_now w 0 \<and> (\<forall>i. sw_now w i + fileSettleInterval \<le> sw_now w (Suc i))"

lemma clock_after: "clock_advances start w \<Longrightarrow> start + int i * fileSettleInterval \<le> sw_now w i"
proof (induction i)
  case (Suc i)
  then have "sw_now w i + fileSettleInterval \<le> sw_now w (Suc i)" by (simp add: clock_advances_def)
  with Suc show ?case by (simp add: algebra_simps)
qed (simp add: clock_advances_def)

lemma settle_loop_ends:
  assumes "clock_advances start w" "deadline \<le> start + int (i + fuel) * fileSettleInterval"
  shows "settle_loop (Suc fuel) w deadline i lastSize passes \<noteq> None"
  using assms(2)
proof (induction fuel arbitrary: i lastSize passes)
  case 0
  then show ?case using clock_after [OF assms(1), of i] by simp
next
  case (Suc fuel)
  have "settle_loop (Suc fuel) w deadline (Suc i) l s \<noteq> None" for l s by (rule Suc.IH) (use Suc.prems in simp)
  then show ?case by (subst settle_loop.simps) (simp split: stat_result.split)
qed

text \<open>The sizes seen in the last rounds.\<close>

definition settled_at :: "settle_world \<Rightarrow> nat \<Rightarrow> bool" where
  "settled_at w i \<longleftrightarrow> (\<exists>sz a b. a < b \<and> b < i \<and> sw_stat w a = IsFile sz \<and> sw_stat w b = IsFile sz \<and> sw_stat w i = IsFile sz)"

definition seen :: "settle_world \<Rightarrow> nat \<Rightarrow> int \<Rightarrow> nat \<Rightarrow> bool" where
  "seen w i n passes \<longleftrightarrow> passes = 0 \<and> n = - 1 \<or>
     (\<exists>a<i. sw_stat w a = IsFile n \<and> (passes > 0 \<longrightarrow> (\<exists>b. a < b \<and> b < i \<and> sw_stat w b = IsFile n)))"

lemma seen_later: "seen w i n passes \<Longrightarrow> seen w (Suc i) n passes"
  by (auto simp: seen_def intro: less_SucI)

lemma seen_new: "sw_stat w i = IsFile n \<Longrightarrow> seen w (Suc i) n 0"
  by (auto simp: seen_def)

lemma seen_again: "a < i \<Longrightarrow> sw_stat w a = IsFile n \<Longrightarrow> sw_stat w i = IsFile n \<Longrightarrow> seen w (Suc i) n (Suc passes)"
  unfolding seen_def by (intro disjI2 exI [of _ a]) auto

lemma settle_loop_success:
  assumes "settle_loop fuel w deadline i lastSize passes = Some None" and "seen w i lastSize passes"
    and sizes: "\<And>k n. sw_stat w k = IsFile n \<Longrightarrow> 0 \<le> n"
  shows "\<exists>j. sw_open w j \<and> (settled_at w j \<or> deadline \<le> sw_now w j)"
  using assms(1,2)
proof (induction fuel arbitrary: i lastSize passes)
  case (Suc fuel)
  show ?case
  proof (cases "sw_now w i < deadline")
    case False
    then show ?thesis using Suc.prems(1) by (auto intro!: exI [of _ i] split: if_splits)
  next
    case now: True
    show ?thesis
    proof (cases "sw_stat w i")
      case NotExist
      then show ?thesis using Suc.IH [OF _ seen_later [OF Suc.prems(2)]] Suc.prems(1) now by simp
    next
      case (IsFile sz)
      show ?thesis
      proof (cases "sz = lastSize")
        case False
        then show ?thesis using Suc.IH [OF _ seen_new [OF IsFile]] Suc.prems(1) now IsFile by simp
      next
        case same: True
        have "lastSize \<noteq> - 1" using sizes [OF IsFile] same by auto
        then obtain a where a: "a < i" "sw_stat w a = IsFile lastSize"
          "passes > 0 \<longrightarrow> (\<exists>b. a < b \<and> b < i \<and> sw_stat w b = IsFile lastSize)"
          using Suc.prems(2) unfolding seen_def by auto
        show ?thesis
        proof (cases "Suc passes \<ge> fileSettleStablePass \<and> sw_open w i")
          case True
          then have "settled_at w i" using a IsFile same by (auto simp: settled_at_def fileSettleStablePass_def)
          then show ?thesis using True by blast
        next
          case False
          then have "settle_loop fuel w deadline (Suc i) lastSize (Suc passes) = Some None"
            using Suc.prems(1) now IsFile same by auto
          then show ?thesis by (rule Suc.IH) (rule seen_again [OF a(1,2)], use IsFile same in simp)
        qed
      qed
    qed (use Suc.prems now in simp_all)
  qed
qed simp

text \<open>
  C30: the wait for a file always ends, and soon.  Whatever the file does, 31 rounds suffice to reach an answer; and if the answer is
  to go ahead, the file could be opened and had the same size in three rounds, or the 15 seconds were over.
\<close>
theorem settle_wait_ends:
  assumes clock: "clock_advances start w" and sizes: "\<And>k n. sw_stat w k = IsFile n \<Longrightarrow> 0 \<le> n"
  shows "\<exists>r. waitForStableFile 31 start w = Some r \<and>
    (r = None \<longrightarrow> (\<exists>j. sw_open w j \<and> (settled_at w j \<or> start + fileSettleMaxWait \<le> sw_now w j)))"
proof -
  have "waitForStableFile (Suc 30) start w \<noteq> None" unfolding waitForStableFile_def
    by (rule settle_loop_ends [OF clock]) (simp add: fileSettleMaxWait_def fileSettleInterval_def)
  then obtain r where r: "waitForStableFile 31 start w = Some r" by auto
  moreover have "\<exists>j. sw_open w j \<and> (settled_at w j \<or> start + fileSettleMaxWait \<le> sw_now w j)" if "r = None"
    by (rule settle_loop_success [of 31 _ _ 0 "- 1" 0]) (use r that sizes in \<open>simp_all add: waitForStableFile_def seen_def\<close>)
  ultimately show ?thesis by blast
qed

theorem settle_wait_ends_witness:
  "\<exists>r. waitForStableFile 31 0 \<lparr>sw_now = (\<lambda>i. int i * second), sw_stat = (\<lambda>i. IsFile 7), sw_open = (\<lambda>_. True)\<rparr> = Some r"
  using settle_wait_ends [of 0 "\<lparr>sw_now = (\<lambda>i. int i * second), sw_stat = (\<lambda>i. IsFile 7), sw_open = (\<lambda>_. True)\<rparr>"]
  by (auto simp: clock_advances_def fileSettleInterval_def algebra_simps)


subsection \<open>Backing up one file\<close>

record backup_env =
  b_db :: "MonitoredFile gorm option"
  b_stat :: stat_result
  b_token :: string
  b_device :: string
  b_host :: string
  b_port :: int
  b_net :: action_net
  b_marshal :: "string \<Rightarrow> BackupUploadInitRequest \<Rightarrow> bytes option"
  b_unmarshal :: "bytes \<Rightarrow> Session option"
  b_connect :: "string \<Rightarrow> int \<Rightarrow> int"
  b_sent :: "nat \<Rightarrow> bool"
  b_reads :: reads
  b_content :: "byte list option"
  b_now :: time

definition file_id_of :: "backup_env \<Rightarrow> string \<Rightarrow> monitored \<Rightarrow> string" where
  "file_id_of env path rows =
     (case b_db env of
        None \<Rightarrow> []
      | Some db \<Rightarrow> (case g_first db mf_ID (\<lambda>r. mf_Path r = path) rows of Inr (Some r) \<Rightarrow> mf_ItemID r | _ \<Rightarrow> []))"

text \<open>
  The error, the frames of the request, those of the transfer, and the table.  A file size of the stat call is announced to the
  backend; the content is read later.
\<close>

definition backupFile ::
    "backup_env \<Rightarrow> string \<Rightarrow> monitored \<Rightarrow> agent_error option \<times> frame list \<times> frame list \<times> monitored" where
  "backupFile env path rows =
     (case b_stat env of
        NotExist \<Rightarrow> (Some StatFailed, [], [], rows)
      | StatFails \<Rightarrow> (Some StatFailed, [], [], rows)
      | IsDirectory \<Rightarrow> (None, [], [], rows)
      | IsFile sz \<Rightarrow>
          let token = TrimSpace (b_token env)
          in if token = [] then (None, [], [], rows)
             else case InitUpload (b_net env) (b_marshal env) (b_unmarshal env) (b_device env) (b_host env) (b_port env) token path
                         (file_id_of env path rows) (Some sz) of
                    (out, Inl e) \<Rightarrow> (Some e, out, [], rows)
                  | (out, Inr session) \<Rightarrow>
                      (case UploadFile (b_connect env) (b_sent env) (b_reads env) (b_device env) session (b_content env) of
                         (out2, Some e) \<Rightarrow> (Some e, out, out2, rows)
                       | (out2, None) \<Rightarrow>
                           (None, out, out2,
                            case b_db env of
                              None \<Rightarrow> rows
                            | Some db \<Rightarrow>
                                (case g_exec db (map (\<lambda>r. if mf_Path r = path
                                        then r\<lparr>mf_LastBackupAt := Some (b_now env), mf_UpdatedAt := b_now env\<rparr> else r)) rows of
                                   Inl e \<Rightarrow> rows
                                 | Inr rows' \<Rightarrow> rows'))))"

subsection \<open>Runs of the scheduler\<close>

text \<open>
  A run interleaves file events, the ends of backup jobs and the switch of the command \<open>backup_auto\<close>, at times that
  do not decrease.  The state is completed by the paths of the jobs that run.
\<close>

datatype sched_event = FileSeen FileEvent time | JobEnds string time | Switch bool

inductive sched_step :: "backup_state \<times> string list \<Rightarrow> sched_event \<Rightarrow> backup_state \<times> string list \<Rightarrow> bool" where
  Starts: "on_file_event e now st = (True, st') \<Longrightarrow> sched_step (st, jobs) (FileSeen e now) (st', ev_Path e # jobs)"
| Ignored: "on_file_event e now st = (False, st') \<Longrightarrow> sched_step (st, jobs) (FileSeen e now) (st', jobs)"
| Ends: "p \<in> set jobs \<Longrightarrow> sched_step (st, jobs) (JobEnds p now) (finishBackup p now st, remove1 p jobs)"
| Switched: "sched_step (st, jobs) (Switch b) (SetBackupEnabled b st, jobs)"

inductive sched_run :: "sched_event list \<Rightarrow> backup_state \<times> string list \<Rightarrow> bool" where
  Init: "sched_run [] (backupState, [])"
| Step: "sched_run es s \<Longrightarrow> sched_step s e s' \<Longrightarrow> sched_run (es @ [e]) s'"

inductive_cases sched_stepE: "sched_step s e s'"

lemma on_file_event_started:
  assumes "on_file_event e now st = (True, st')"
  shows "ev_Path e \<notin> inFlight st" "st' = st\<lparr>inFlight := insert (ev_Path e) (inFlight st)\<rparr>"
    "\<forall>t. recent st (ev_Path e) = Some t \<longrightarrow> backupCooldown \<le> now - t"
  using assms by (auto simp: on_file_event_def scheduleBackup_def split: if_splits ActionType.splits option.splits)

lemma on_file_event_ignored: "on_file_event e now st = (False, st') \<Longrightarrow> st' = st"
  by (auto simp: on_file_event_def scheduleBackup_def split: if_splits ActionType.splits)

lemma sched_step_jobs:
  assumes "sched_step (st, jobs) e (st', jobs')" "distinct jobs" "set jobs = inFlight st"
  shows "distinct jobs' \<and> set jobs' = inFlight st'"
  using assms(1)
proof (cases rule: sched_step.cases)
  case (Starts e now)
  then show ?thesis using on_file_event_started [OF Starts(3)] assms(2,3) by simp
next
  case (Ignored e now)
  then show ?thesis using on_file_event_ignored [OF Ignored(3)] assms(2,3) by simp
next
  case (Ends p now)
  then show ?thesis using assms(2,3) by (simp add: finishBackup_def set_remove1_eq)
next
  case (Switched b)
  then show ?thesis using assms(2,3) by (simp add: SetBackupEnabled_def)
qed

lemma sched_run_jobs: "sched_run es s \<Longrightarrow> distinct (snd s) \<and> set (snd s) = inFlight (fst s)"
proof (induction rule: sched_run.induct)
  case (Step es s e s')
  then show ?case using sched_step_jobs [of "fst s" "snd s" e "fst s'" "snd s'"] by simp
qed (simp add: backupState_def)

text \<open>When a job of a path last ended, according to the history.\<close>

fun last_end :: "sched_event list \<Rightarrow> string \<Rightarrow> time option" where
  "last_end [] p = None"
| "last_end (JobEnds q t # es) p = (case last_end es p of None \<Rightarrow> (if q = p then Some t else None) | Some t' \<Rightarrow> Some t')"
| "last_end (_ # es) p = last_end es p"

lemma last_end_snoc:
  "last_end (es @ [e]) p = (case e of JobEnds q t \<Rightarrow> if q = p then Some t else last_end es p | _ \<Rightarrow> last_end es p)"
  by (induction es p rule: last_end.induct) (auto split: sched_event.splits option.splits)

lemma sched_run_recent: "sched_run es s \<Longrightarrow> recent (fst s) = last_end es"
proof (induction rule: sched_run.induct)
  case (Step es s e s')
  show ?case using Step(2,3)
    by (cases rule: sched_step.cases)
      (auto simp: fun_eq_iff last_end_snoc finishBackup_def SetBackupEnabled_def dest: on_file_event_started(2) on_file_event_ignored)
qed (simp add: backupState_def fun_eq_iff)

text \<open>
  C31: in every run of the scheduler, whatever the interleaving, at most one backup of a path runs at a time and the in-flight set is
  exactly the set of running backups; a backup of a path starts only if none is running and the last one ended at least ten
  seconds ago.  An event that comes earlier leaves no trace in the state: the change it reports is not backed up unless another event
  of the same file follows.
\<close>
theorem one_backup_per_path:
  assumes run: "sched_run es (st, jobs)" and step: "sched_step (st, jobs) (FileSeen e now) (st', jobs')"
  shows "distinct jobs \<and> set jobs = inFlight st \<and>
    (jobs' = jobs \<and> st' = st \<or>
     jobs' = ev_Path e # jobs \<and> ev_Path e \<notin> set jobs \<and>
       (\<forall>t. last_end es (ev_Path e) = Some t \<longrightarrow> backupCooldown \<le> now - t)) \<and>
    (ev_Path e \<in> set jobs \<or> (\<exists>t. last_end es (ev_Path e) = Some t \<and> now - t < backupCooldown) \<longrightarrow> jobs' = jobs \<and> st' = st)"
proof -
  have inv: "distinct jobs" "set jobs = inFlight st" and hist: "recent st = last_end es"
    using sched_run_jobs [OF run] sched_run_recent [OF run] by simp_all
  from step show ?thesis
  proof (cases rule: sched_step.cases)
    case Starts
    then show ?thesis using on_file_event_started [OF Starts(2)] inv by (auto simp: hist)
  next
    case Ignored
    then show ?thesis using on_file_event_ignored [OF Ignored(2)] inv by simp
  qed
qed


theorem one_backup_per_path_witness:
  "let e = \<lparr>ev_Action = ActionModify, ev_Path = ''/a'', ev_OldPath = [], ev_Timestamp = Some 1\<rparr>
   in \<exists>st st' jobs'. sched_run [FileSeen e 1] (st, [''/a'']) \<and> sched_step (st, [''/a'']) (FileSeen e 2) (st', jobs') \<and>
     jobs' = [''/a''] \<and> st' = st"
proof -
  let ?e = "\<lparr>ev_Action = ActionModify, ev_Path = ''/a'', ev_OldPath = [], ev_Timestamp = Some 1\<rparr>"
  let ?st = "backupState\<lparr>inFlight := {''/a''}\<rparr>"
  have "sched_step (backupState, []) (FileSeen ?e 1) (?st, [ev_Path ?e])"
    by (rule sched_step.Starts) (simp add: on_file_event_def scheduleBackup_def backupState_def)
  then have run: "sched_run ([] @ [FileSeen ?e 1]) (?st, [''/a''])" using sched_run.Step [OF sched_run.Init] by simp
  have step: "sched_step (?st, [''/a'']) (FileSeen ?e 2) (?st, [''/a''])"
    by (rule sched_step.Ignored) (simp add: on_file_event_def scheduleBackup_def backupState_def)
  have "ev_Path ?e \<in> set [''/a'']" by simp
  then have "[''/a''] = [''/a''] \<and> ?st = ?st" using one_backup_per_path [OF run step] by blast
  then show ?thesis using run step by (auto simp: Let_def)
qed

end
