(* ===== verification/Hosts.thy ===== *)
theory Hosts
  imports GoStrings
begin

text \<open>
  The agent's website blocker (\<open>agent/internal/firewall\<close>): the category table of
  \<open>categories.go\<close> and the \<open>HostsManager\<close> of \<open>hosts.go\<close>, which keeps a marked section of
  \<open>/etc/hosts\<close> in step with its set of blocked domains.  The file system is explicit state,
  and every way in which a system call can fail is an argument (\<open>io\<close>).
\<close>

subsection \<open>Categories\<close>

definition CategoryDomains :: "(string \<times> string list) list" where
  "CategoryDomains =
    [(''social_media'',
       [''facebook.com'', ''www.facebook.com'', ''twitter.com'', ''www.twitter.com'',
        ''x.com'', ''www.x.com'', ''instagram.com'', ''www.instagram.com'',
        ''tiktok.com'', ''www.tiktok.com'', ''linkedin.com'', ''www.linkedin.com'',
        ''youtube.com'', ''www.youtube.com'', ''reddit.com'', ''www.reddit.com'',
        ''pinterest.com'', ''www.pinterest.com'', ''snapchat.com'', ''www.snapchat.com'',
        ''discord.com'', ''www.discord.com'', ''telegram.org'', ''web.telegram.org'']),
     (''ai'',
       [''chatgpt.com'', ''www.chatgpt.com'', ''openai.com'', ''www.openai.com'',
        ''claude.ai'', ''www.claude.ai'', ''bard.google.com'', ''gemini.google.com'',
        ''perplexity.ai'', ''www.perplexity.ai'', ''character.ai'', ''www.character.ai'',
        ''midjourney.com'', ''www.midjourney.com'', ''stability.ai'', ''www.stability.ai'']),
     (''gaming'',
       [''steamcommunity.com'', ''store.steampowered.com'', ''epicgames.com'',
        ''www.epicgames.com'', ''roblox.com'', ''www.roblox.com'', ''twitch.tv'',
        ''www.twitch.tv'', ''battlenet.com'', ''www.battlenet.com'', ''origin.com'',
        ''www.origin.com'']),
     (''shopping'',
       [''amazon.com'', ''www.amazon.com'', ''ebay.com'', ''www.ebay.com'', ''shopee.vn'',
        ''www.shopee.vn'', ''lazada.vn'', ''www.lazada.vn'', ''tiki.vn'', ''www.tiki.vn'',
        ''aliexpress.com'', ''www.aliexpress.com'']),
     (''news'',
       [''vnexpress.net'', ''www.vnexpress.net'', ''dantri.com.vn'', ''www.dantri.com.vn'',
        ''tuoitre.vn'', ''www.tuoitre.vn'', ''thanhnien.vn'', ''www.thanhnien.vn'',
        ''bbc.com'', ''www.bbc.com'', ''cnn.com'', ''www.cnn.com'']),
     (''entertainment'',
       [''netflix.com'', ''www.netflix.com'', ''disney.com'', ''www.disney.com'',
        ''hulu.com'', ''www.hulu.com'', ''spotify.com'', ''www.spotify.com'',
        ''soundcloud.com'', ''www.soundcloud.com'']),
     (''adult'',
       [''pornhub.com'', ''www.pornhub.com'', ''xvideos.com'', ''www.xvideos.com'',
        ''xhamster.com'', ''www.xhamster.com''])]"

text \<open>Indexing a Go map with an absent key gives the zero value, here the nil slice.\<close>

definition GetDomainsByCategory :: "string \<Rightarrow> string list" where
  "GetDomainsByCategory category =
     (case map_of CategoryDomains category of None \<Rightarrow> [] | Some ds \<Rightarrow> ds)"

text \<open>
  Ranging over a Go map visits the keys in an order the language leaves open; the order is
  the argument \<open>ord\<close>.
\<close>

definition GetAllCategories :: "(string list \<Rightarrow> string list) \<Rightarrow> string list" where
  "GetAllCategories ord = ord (map fst CategoryDomains)"

definition any_order :: "(string list \<Rightarrow> string list) \<Rightarrow> bool" where
  "any_order ord \<longleftrightarrow> (\<forall>ks. set (ord ks) = set ks \<and> length (ord ks) = length ks)"

subsection \<open>The hosts file as text\<close>

definition blockMarkerStart :: string where
  "blockMarkerStart = ''# === SAGIRI-GUARD BLOCK START ===''"

definition blockMarkerEnd :: string where
  "blockMarkerEnd = ''# === SAGIRI-GUARD BLOCK END ===''"

text \<open>
  \<open>bufio.Scanner\<close> with its default split function: lines end at a newline, one trailing
  carriage return is dropped, an empty rest after the last newline is no line, and a line
  that does not fit the 64 KiB buffer stops the scan with an error.
\<close>

definition raw_lines :: "string \<Rightarrow> string list" where
  "raw_lines s =
     (let ps = Split (CHR 0x0A) s in if last ps = [] then butlast ps else ps)"

definition drop_cr :: "string \<Rightarrow> string" where
  "drop_cr l = (if l \<noteq> [] \<and> last l = CHR 0x0D then butlast l else l)"

definition MaxScanTokenSize :: nat where
  "MaxScanTokenSize = 65536"

definition scan_lines :: "string \<Rightarrow> string list \<times> bool" where
  "scan_lines s =
     (let ls = raw_lines s; ok = takeWhile (\<lambda>l. length l < MaxScanTokenSize) ls
      in (map drop_cr ok, length ok = length ls))"

definition unlines :: "string list \<Rightarrow> string" where
  "unlines ls = concat (map (\<lambda>l. l @ [CHR 0x0A]) ls)"

text \<open>\<open>removeBlockSection\<close>, with the loop's flag \<open>inBlock\<close> as the first argument.\<close>

fun removeBlockSection_from :: "bool \<Rightarrow> string list \<Rightarrow> string list" where
  "removeBlockSection_from inBlock [] = []"
| "removeBlockSection_from inBlock (line # lines) =
     (if Contains line blockMarkerStart then removeBlockSection_from True lines
      else if Contains line blockMarkerEnd then removeBlockSection_from False lines
      else if \<not> inBlock then line # removeBlockSection_from inBlock lines
      else removeBlockSection_from inBlock lines)"

definition removeBlockSection :: "string list \<Rightarrow> string list" where
  "removeBlockSection lines = removeBlockSection_from False lines"

definition block_entry :: "string \<Rightarrow> string list" where
  "block_entry domain =
     (''127.0.0.1 '' @ domain) #
     (if \<not> HasPrefix domain ''www.'' then [''127.0.0.1 www.'' @ domain] else [])"

definition blockLines :: "(string list \<Rightarrow> string list) \<Rightarrow> string list \<Rightarrow> string list" where
  "blockLines ord ds =
     [blockMarkerStart] @ concat (map block_entry (ord ds)) @ [blockMarkerEnd]"

subsection \<open>State, system calls and operations\<close>

text \<open>
  \<open>domains\<close> holds the keys of the Go map (all its values are \<open>true\<close>), each once.
\<close>

record hosts_manager =
  enabled :: bool
  domains :: "string list"

record hosts_fs =
  hosts_file :: "string option"
  backup_file :: "string option"

text \<open>
  What the operating system does with the calls of one operation: whether \<open>os.Open\<close> is
  refused (other than by a missing file), whether reading fails half way, whether the backup
  file can be created and how much of the copy reaches it, whether the hosts file can be
  opened for writing and how many bytes can be written before an error.
\<close>

record hosts_io =
  open_denied :: bool
  read_fault :: bool
  backup_denied :: bool
  backup_limit :: "nat option"
  write_denied :: bool
  write_limit :: "nat option"

datatype hosts_error =
    EmptyDomain | ReadHostsFile | BackupFailed | OpenForWrite | WriteHosts

definition upto_limit :: "nat option \<Rightarrow> string \<Rightarrow> string" where
  "upto_limit lim s = (case lim of None \<Rightarrow> s | Some n \<Rightarrow> take n s)"

definition within_limit :: "nat option \<Rightarrow> string \<Rightarrow> bool" where
  "within_limit lim s \<longleftrightarrow> (case lim of None \<Rightarrow> True | Some n \<Rightarrow> length s \<le> n)"

definition readHostsFile :: "hosts_io \<Rightarrow> hosts_fs \<Rightarrow> (hosts_error, string list) res" where
  "readHostsFile io fs =
     (case hosts_file fs of
        None \<Rightarrow> Inr []
      | Some content \<Rightarrow>
          if open_denied io \<or> read_fault io then Inl ReadHostsFile
          else (case scan_lines content of
                  (lines, True) \<Rightarrow> Inr lines
                | (lines, False) \<Rightarrow> Inl ReadHostsFile))"

text \<open>The backup is best effort: \<open>writeHostsFile\<close> only logs its failure.\<close>

definition backupHostsFile :: "hosts_io \<Rightarrow> hosts_fs \<Rightarrow> hosts_error option \<times> hosts_fs" where
  "backupHostsFile io fs =
     (case hosts_file fs of
        None \<Rightarrow> (None, fs)
      | Some content \<Rightarrow>
          if open_denied io \<or> backup_denied io then (Some BackupFailed, fs)
          else (if within_limit (backup_limit io) content then None else Some BackupFailed,
                fs\<lparr>backup_file := Some (upto_limit (backup_limit io) content)\<rparr>))"

definition writeHostsFile :: "hosts_io \<Rightarrow> hosts_fs \<Rightarrow> string list \<Rightarrow> hosts_error option \<times> hosts_fs" where
  "writeHostsFile io fs lines =
     (let (ignored, fs1) = backupHostsFile io fs; content = unlines lines
      in if write_denied io then (Some OpenForWrite, fs1)
         else (if within_limit (write_limit io) content then None else Some WriteHosts,
               fs1\<lparr>hosts_file := Some (upto_limit (write_limit io) content)\<rparr>))"

definition applyBlocks ::
    "(string list \<Rightarrow> string list) \<Rightarrow> hosts_io \<Rightarrow> hosts_manager \<Rightarrow> hosts_fs \<Rightarrow> hosts_error option \<times> hosts_fs"
  where
  "applyBlocks ord io h fs =
     (case readHostsFile io fs of
        Inl e \<Rightarrow> (Some e, fs)
      | Inr content \<Rightarrow>
          let kept = removeBlockSection content;
              content' = (if length (domains h) > 0 then kept @ blockLines ord (domains h) else kept)
          in writeHostsFile io fs content')"

definition removeBlocks :: "hosts_io \<Rightarrow> hosts_fs \<Rightarrow> hosts_error option \<times> hosts_fs" where
  "removeBlocks io fs =
     (case readHostsFile io fs of
        Inl e \<Rightarrow> (Some e, fs)
      | Inr content \<Rightarrow> writeHostsFile io fs (removeBlockSection content))"

definition GetHostsManager :: hosts_manager where
  "GetHostsManager = \<lparr>enabled = False, domains = []\<rparr>"

type_synonym hosts_result = "hosts_error option \<times> hosts_manager \<times> hosts_fs"

definition SetEnabled ::
    "(string list \<Rightarrow> string list) \<Rightarrow> hosts_io \<Rightarrow> bool \<Rightarrow> hosts_manager \<Rightarrow> hosts_fs \<Rightarrow> hosts_result"
  where
  "SetEnabled ord io en h fs =
     (let h1 = h\<lparr>enabled := en\<rparr>;
          (err, fs1) = (if en then applyBlocks ord io h1 fs else removeBlocks io fs)
      in (err, h1, fs1))"

definition normalize_domain :: "string \<Rightarrow> string" where
  "normalize_domain d = ToLower (TrimSpace d)"

definition refresh ::
    "(string list \<Rightarrow> string list) \<Rightarrow> hosts_io \<Rightarrow> hosts_manager \<Rightarrow> hosts_fs \<Rightarrow> hosts_result" where
  "refresh ord io h fs =
     (if enabled h then (let (err, fs1) = applyBlocks ord io h fs in (err, h, fs1))
      else (None, h, fs))"

definition AddDomain ::
    "(string list \<Rightarrow> string list) \<Rightarrow> hosts_io \<Rightarrow> string \<Rightarrow> hosts_manager \<Rightarrow> hosts_fs \<Rightarrow> hosts_result"
  where
  "AddDomain ord io domain h fs =
     (if domain = [] then (Some EmptyDomain, h, fs)
      else refresh ord io (h\<lparr>domains := List.insert (normalize_domain domain) (domains h)\<rparr>) fs)"

definition RemoveDomain ::
    "(string list \<Rightarrow> string list) \<Rightarrow> hosts_io \<Rightarrow> string \<Rightarrow> hosts_manager \<Rightarrow> hosts_fs \<Rightarrow> hosts_result"
  where
  "RemoveDomain ord io domain h fs =
     refresh ord io (h\<lparr>domains := removeAll (normalize_domain domain) (domains h)\<rparr>) fs"

fun collect_domains :: "string list \<Rightarrow> string list \<Rightarrow> string list" where
  "collect_domains [] acc = acc"
| "collect_domains (d # ds) acc =
     collect_domains ds (if d \<noteq> [] then List.insert (normalize_domain d) acc else acc)"

definition SetDomains ::
    "(string list \<Rightarrow> string list) \<Rightarrow> hosts_io \<Rightarrow> string list \<Rightarrow> hosts_manager \<Rightarrow> hosts_fs \<Rightarrow> hosts_result"
  where
  "SetDomains ord io ds h fs = refresh ord io (h\<lparr>domains := collect_domains ds []\<rparr>) fs"

definition GetDomains :: "(string list \<Rightarrow> string list) \<Rightarrow> hosts_manager \<Rightarrow> string list" where
  "GetDomains ord h = ord (domains h)"

definition IsEnabled :: "hosts_manager \<Rightarrow> bool" where
  "IsEnabled h = enabled h"

subsection \<open>Lines and sections\<close>

definition unmarked :: "string \<Rightarrow> bool" where
  "unmarked l \<longleftrightarrow> \<not> Contains l blockMarkerStart \<and> \<not> Contains l blockMarkerEnd"

text \<open>A line that survives being written and scanned again.\<close>

definition text_line :: "string \<Rightarrow> bool" where
  "text_line l \<longleftrightarrow> CHR 0x0A \<notin> set l \<and> CHR 0x0D \<notin> set l \<and> length l < MaxScanTokenSize"

definition safe_domain :: "string \<Rightarrow> bool" where
  "safe_domain d \<longleftrightarrow>
     CHR 0x0A \<notin> set d \<and> CHR 0x0D \<notin> set d \<and> CHR ''#'' \<notin> set d \<and> length d < 65000"

lemma marker_facts [simp]:
  "Contains blockMarkerStart blockMarkerStart" "Contains blockMarkerEnd blockMarkerEnd"
  "\<not> Contains blockMarkerEnd blockMarkerStart"
  by (simp_all, code_simp)

lemma marker_hash [simp]: "CHR ''#'' \<in> set blockMarkerStart" "CHR ''#'' \<in> set blockMarkerEnd"
  by (simp_all add: blockMarkerStart_def blockMarkerEnd_def)

lemma Contains_set: "Contains l m \<Longrightarrow> set m \<subseteq> set l"
  by (auto simp: Contains_iff)

lemma no_hash_unmarked: "CHR ''#'' \<notin> set l \<Longrightarrow> unmarked l"
  unfolding unmarked_def using Contains_set marker_hash by blast

lemma rbs_unmarked: "x \<in> set (removeBlockSection_from b ls) \<Longrightarrow> unmarked x \<and> x \<in> set ls"
  by (induction b ls rule: removeBlockSection_from.induct) (auto simp: unmarked_def split: if_splits)

lemma rbs_keep: "\<forall>l\<in>set ls. unmarked l \<Longrightarrow> removeBlockSection_from False ls = ls"
  by (induction ls) (auto simp: unmarked_def)

lemma rbs_drop:
  "\<forall>l\<in>set ls. unmarked l \<Longrightarrow> removeBlockSection_from True (ls @ rest) = removeBlockSection_from True rest"
  by (induction ls) (auto simp: unmarked_def)

lemma rbs_keep_append:
  "\<forall>l\<in>set ls. unmarked l \<Longrightarrow>
   removeBlockSection_from False (ls @ rest) = ls @ removeBlockSection_from False rest"
  by (induction ls) (auto simp: unmarked_def)

lemma block_entry_text:
  assumes "safe_domain d" and "l \<in> set (block_entry d)"
  shows "unmarked l" and "text_line l"
proof -
  have "CHR ''#'' \<notin> set l" and "text_line l"
    using assms by (auto simp: block_entry_def safe_domain_def text_line_def MaxScanTokenSize_def
        split: if_splits)
  then show "unmarked l" and "text_line l" by (auto intro: no_hash_unmarked)
qed

lemma rbs_section:
  assumes "\<forall>l\<in>set ls. unmarked l" and "\<forall>d\<in>set (ord ds). safe_domain d"
  shows "removeBlockSection (ls @ blockLines ord ds) = ls"
proof -
  have "\<forall>l\<in>set (concat (map block_entry (ord ds))). unmarked l"
    using assms(2) by (auto intro: block_entry_text(1))
  then have "removeBlockSection_from False (blockLines ord ds) = []"
    by (simp add: blockLines_def rbs_drop)
  then show ?thesis
    using assms(1) by (simp add: removeBlockSection_def rbs_keep_append)
qed

lemma blockLines_text:
  "\<forall>d\<in>set (ord ds). safe_domain d \<Longrightarrow> \<forall>l\<in>set (blockLines ord ds). text_line l"
  by (auto simp: blockLines_def intro: block_entry_text(2))
     (simp_all add: text_line_def blockMarkerStart_def blockMarkerEnd_def MaxScanTokenSize_def)

subsection \<open>Writing and scanning\<close>

lemma Split_unlines:
  "\<forall>l\<in>set ls. CHR 0x0A \<notin> set l \<Longrightarrow> Split (CHR 0x0A) (unlines ls) = ls @ [[]]"
  by (induction ls) (auto simp: unlines_def Split_append_sep)

lemma scan_unlines:
  assumes "\<forall>l\<in>set ls. text_line l"
  shows "scan_lines (unlines ls) = (ls, True)"
proof -
  have nl: "\<forall>l\<in>set ls. CHR 0x0A \<notin> set l" and short: "\<forall>l\<in>set ls. length l < MaxScanTokenSize"
    using assms by (auto simp: text_line_def)
  have "\<forall>l\<in>set ls. drop_cr l = l"
    using assms by (auto simp: text_line_def drop_cr_def dest: last_in_set)
  then have "map drop_cr ls = ls" by (simp add: map_idI)
  moreover have "raw_lines (unlines ls) = ls"
    by (simp add: raw_lines_def Split_unlines [OF nl])
  moreover have "takeWhile (\<lambda>l. length l < MaxScanTokenSize) ls = ls"
    using short by (auto simp: takeWhile_eq_all_conv)
  ultimately show ?thesis
    by (simp add: scan_lines_def Let_def del: takeWhile_eq_all_conv)
qed

definition io_ok :: "hosts_io \<Rightarrow> bool" where
  "io_ok io \<longleftrightarrow>
     \<not> open_denied io \<and> \<not> read_fault io \<and> \<not> write_denied io \<and> write_limit io = None"

lemma readHostsFile_text:
  "io_ok io \<Longrightarrow> hosts_file fs = Some (unlines ls) \<Longrightarrow> \<forall>l\<in>set ls. text_line l \<Longrightarrow>
   readHostsFile io fs = Inr ls"
  by (simp add: readHostsFile_def io_ok_def scan_unlines)

lemma writeHostsFile_ok:
  assumes "io_ok io"
  shows "fst (writeHostsFile io fs ls) = None"
    and "hosts_file (snd (writeHostsFile io fs ls)) = Some (unlines ls)"
  using assms by (auto simp: writeHostsFile_def io_ok_def Let_def within_limit_def upto_limit_def
      split: prod.splits)

subsection \<open>The file follows the manager\<close>

text \<open>
  The abstract picture of the hosts file: the user's own lines \<open>U\<close>, then the section for the
  manager's domains when blocking is on and there is something to block.
\<close>

definition section_of :: "(string list \<Rightarrow> string list) \<Rightarrow> hosts_manager \<Rightarrow> string list" where
  "section_of ord h = (if enabled h \<and> domains h \<noteq> [] then blockLines ord (domains h) else [])"

definition in_step :: "(string list \<Rightarrow> string list) \<Rightarrow> string list \<Rightarrow> hosts_manager \<Rightarrow> hosts_fs \<Rightarrow> bool" where
  "in_step ord U h fs \<longleftrightarrow>
     hosts_file fs = Some (unlines (U @ section_of ord h)) \<and> (\<forall>d\<in>set (domains h). safe_domain d)"

definition user_lines :: "string list \<Rightarrow> bool" where
  "user_lines U \<longleftrightarrow> (\<forall>l\<in>set U. unmarked l \<and> text_line l)"

lemma in_step_read:
  assumes "any_order ord" "io_ok io" "user_lines U" "in_step ord U h fs"
  obtains ls where "readHostsFile io fs = Inr ls" and "removeBlockSection ls = U"
proof
  have safe: "\<forall>d\<in>set (ord (domains h)). safe_domain d"
    using assms(1,4) by (simp add: any_order_def in_step_def)
  have "\<forall>l\<in>set (section_of ord h). text_line l"
    using blockLines_text [of ord "domains h"] safe by (simp add: section_of_def)
  then show "readHostsFile io fs = Inr (U @ section_of ord h)"
    using assms(2-4) by (intro readHostsFile_text) (auto simp: in_step_def user_lines_def)
  show "removeBlockSection (U @ section_of ord h) = U"
    using assms(3) rbs_section [of U ord "domains h"] safe
    by (auto simp: section_of_def user_lines_def removeBlockSection_def rbs_keep)
qed

lemma applyBlocks_in_step:
  assumes "any_order ord" "io_ok io" "user_lines U" "in_step ord U h0 fs"
    and "enabled h" "\<forall>d\<in>set (domains h). safe_domain d"
  shows "fst (applyBlocks ord io h fs) = None"
    and "in_step ord U h (snd (applyBlocks ord io h fs))"
proof -
  obtain ls where "readHostsFile io fs = Inr ls" and "removeBlockSection ls = U"
    using in_step_read [OF assms(1-4)] .
  then have "applyBlocks ord io h fs = writeHostsFile io fs (U @ section_of ord h)"
    using assms(5) by (simp add: applyBlocks_def section_of_def Let_def)
  then show "fst (applyBlocks ord io h fs) = None"
    and "in_step ord U h (snd (applyBlocks ord io h fs))"
    using writeHostsFile_ok [OF assms(2)] assms(6) by (simp_all add: in_step_def)
qed

lemma removeBlocks_in_step:
  assumes "any_order ord" "io_ok io" "user_lines U" "in_step ord U h0 fs"
    and "\<not> enabled h" "\<forall>d\<in>set (domains h). safe_domain d"
  shows "fst (removeBlocks io fs) = None"
    and "in_step ord U h (snd (removeBlocks io fs))"
proof -
  obtain ls where "readHostsFile io fs = Inr ls" and "removeBlockSection ls = U"
    using in_step_read [OF assms(1-4)] .
  then have "removeBlocks io fs = writeHostsFile io fs (U @ section_of ord h)"
    using assms(5) by (simp add: removeBlocks_def section_of_def)
  then show "fst (removeBlocks io fs) = None"
    and "in_step ord U h (snd (removeBlocks io fs))"
    using writeHostsFile_ok [OF assms(2)] assms(6) by (simp_all add: in_step_def)
qed

lemma refresh_in_step:
  assumes "any_order ord" "io_ok io" "user_lines U" "in_step ord U h0 fs"
    and "enabled h = enabled h0" "\<forall>d\<in>set (domains h). safe_domain d"
    and "refresh ord io h fs = (err, h', fs')"
  shows "err = None \<and> h' = h \<and> in_step ord U h fs'"
proof (cases "enabled h")
  case True
  then show ?thesis
    using applyBlocks_in_step [OF assms(1-4) True assms(6)] assms(7)
    by (auto simp: refresh_def split: prod.splits)
next
  case False
  then show ?thesis
    using assms(4-7) by (auto simp: refresh_def in_step_def section_of_def)
qed

lemma normalize_idem [simp]: "normalize_domain (normalize_domain d) = normalize_domain d"
  by (simp add: normalize_domain_def TrimSpace_ToLower)

lemma set_collect_domains:
  "set (collect_domains ds acc) = normalize_domain ` (set ds - {[]}) \<union> set acc"
  by (induction ds arbitrary: acc) auto

lemma distinct_collect_domains: "distinct acc \<Longrightarrow> distinct (collect_domains ds acc)"
  by (induction ds arbitrary: acc) auto

subsection \<open>Operations as a machine\<close>

datatype hosts_op =
    OpSetEnabled bool | OpAddDomain string | OpRemoveDomain string | OpSetDomains "string list"

fun hosts_step ::
    "(string list \<Rightarrow> string list) \<Rightarrow> hosts_io \<Rightarrow> hosts_op \<Rightarrow> hosts_manager \<Rightarrow> hosts_fs \<Rightarrow> hosts_result"
  where
  "hosts_step ord io (OpSetEnabled b) h fs = SetEnabled ord io b h fs"
| "hosts_step ord io (OpAddDomain d) h fs = AddDomain ord io d h fs"
| "hosts_step ord io (OpRemoveDomain d) h fs = RemoveDomain ord io d h fs"
| "hosts_step ord io (OpSetDomains ds) h fs = SetDomains ord io ds h fs"

fun hosts_run ::
    "(string list \<Rightarrow> string list) \<Rightarrow> hosts_io \<Rightarrow> hosts_op list \<Rightarrow> hosts_manager \<Rightarrow> hosts_fs \<Rightarrow>
     hosts_error option list \<times> hosts_manager \<times> hosts_fs" where
  "hosts_run ord io [] h fs = ([], h, fs)"
| "hosts_run ord io (p # ps) h fs =
     (let (err, h1, fs1) = hosts_step ord io p h fs;
          (errs, h2, fs2) = hosts_run ord io ps h1 fs1
      in (err # errs, h2, fs2))"

fun good_op :: "hosts_op \<Rightarrow> bool" where
  "good_op (OpSetEnabled b) = True"
| "good_op (OpAddDomain d) = (d \<noteq> [] \<and> safe_domain (normalize_domain d))"
| "good_op (OpRemoveDomain d) = True"
| "good_op (OpSetDomains ds) = (\<forall>d\<in>set ds. safe_domain (normalize_domain d))"

lemma hosts_step_in_step:
  assumes "any_order ord" "io_ok io" "user_lines U" "in_step ord U h fs" "good_op p"
    and "hosts_step ord io p h fs = (err, h', fs')"
  shows "err = None \<and> in_step ord U h' fs'"
proof -
  have sd: "\<forall>d\<in>set (domains h). safe_domain d" using assms(4) by (simp add: in_step_def)
  note ref = refresh_in_step [OF assms(1-4)]
  show ?thesis
  proof (cases p)
    case (OpSetEnabled b)
    show ?thesis
    proof (cases b)
      case True
      then show ?thesis
        using applyBlocks_in_step [OF assms(1-4), of "h\<lparr>enabled := True\<rparr>"] sd assms(6) OpSetEnabled
        by (auto simp: SetEnabled_def Let_def split: prod.splits)
    next
      case False
      then show ?thesis
        using removeBlocks_in_step [OF assms(1-4), of "h\<lparr>enabled := False\<rparr>"] sd assms(6) OpSetEnabled
        by (auto simp: SetEnabled_def Let_def split: prod.splits)
    qed
  next
    case (OpAddDomain d)
    then show ?thesis
      using ref [of "h\<lparr>domains := List.insert (normalize_domain d) (domains h)\<rparr>" err h' fs'] sd assms(5,6)
      by (auto simp: AddDomain_def)
  next
    case (OpRemoveDomain d)
    then show ?thesis
      using ref [of "h\<lparr>domains := removeAll (normalize_domain d) (domains h)\<rparr>" err h' fs'] sd assms(6)
      by (auto simp: RemoveDomain_def)
  next
    case (OpSetDomains ds)
    then show ?thesis
      using ref [of "h\<lparr>domains := collect_domains ds []\<rparr>" err h' fs'] assms(5,6)
      by (auto simp: SetDomains_def set_collect_domains)
  qed
qed

lemma hosts_run_in_step:
  assumes "any_order ord" "io_ok io" "user_lines U" "in_step ord U h fs" "\<forall>p\<in>set ps. good_op p"
    and "hosts_run ord io ps h fs = (errs, h', fs')"
  shows "set errs \<subseteq> {None} \<and> in_step ord U h' fs'"
  using assms(4-6)
proof (induction ps arbitrary: h fs errs h' fs')
  case Nil
  then show ?case by simp
next
  case (Cons p ps)
  obtain err h1 fs1 where st: "hosts_step ord io p h fs = (err, h1, fs1)"
    by (cases "hosts_step ord io p h fs") auto
  obtain errs' h2 fs2 where rn: "hosts_run ord io ps h1 fs1 = (errs', h2, fs2)"
    by (cases "hosts_run ord io ps h1 fs1") auto
  have "err = None \<and> in_step ord U h1 fs1"
    using hosts_step_in_step [OF assms(1-3) Cons.prems(1) _ st] Cons.prems(2) by simp
  then show ?case
    using Cons.IH [OF _ _ rn] Cons.prems st rn by auto
qed

subsection \<open>Properties\<close>

definition good_io :: hosts_io where
  "good_io = \<lparr>open_denied = False, read_fault = False, backup_denied = False,
     backup_limit = None, write_denied = False, write_limit = None\<rparr>"

lemma good_io_ok [simp]: "io_ok good_io"
  by (simp add: io_ok_def good_io_def)

lemma any_order_id [simp]: "any_order (\<lambda>ks. ks)"
  by (simp add: any_order_def)

text \<open>
  C4: Starting from the process-wide manager and a hosts file with the user's own lines \<open>U\<close>,
  every sequence of \<open>SetEnabled\<close>, \<open>AddDomain\<close>, \<open>RemoveDomain\<close> and \<open>SetDomains\<close> calls on
  well-formed domains succeeds on a working file system, whatever order Go ranges over the
  map in, and leaves the file equal to the lines \<open>U\<close> untouched, followed by exactly the
  section for the manager's current domains when blocking is on.
\<close>

theorem hosts_file_tracks_blocklist:
  assumes "any_order ord" and "io_ok io" and "user_lines U"
    and "hosts_file fs = Some (unlines U)" and "\<forall>p\<in>set ps. good_op p"
    and run: "hosts_run ord io ps GetHostsManager fs = (errs, h', fs')"
  shows "set errs \<subseteq> {None} \<and> hosts_file fs' = Some (unlines (U @ section_of ord h'))"
proof -
  have "in_step ord U GetHostsManager fs"
    using assms(4) by (simp add: in_step_def section_of_def GetHostsManager_def)
  from hosts_run_in_step [OF assms(1-3) this assms(5) run] show ?thesis
    by (simp add: in_step_def)
qed

theorem hosts_file_tracks_blocklist_witness:
  "let U = [''::1 localhost'']; ps = [OpAddDomain '' Foo.com'', OpSetEnabled True];
       fs = \<lparr>hosts_file = Some (unlines U), backup_file = None\<rparr>;
       (errs, h', fs') = hosts_run (\<lambda>ks. ks) good_io ps GetHostsManager fs
   in set errs \<subseteq> {None} \<and> domains h' = [''foo.com''] \<and>
      hosts_file fs' = Some (unlines (U @ section_of (\<lambda>ks. ks) h'))"
proof -
  let ?U = "[''::1 localhost'']"
  let ?ps = "[OpAddDomain '' Foo.com'', OpSetEnabled True]"
  let ?fs = "\<lparr>hosts_file = Some (unlines ?U), backup_file = None\<rparr>"
  have u: "user_lines ?U"
    by (simp add: user_lines_def no_hash_unmarked text_line_def MaxScanTokenSize_def)
  have n: "normalize_domain '' Foo.com'' = ''foo.com''" by code_simp
  have g: "\<forall>p\<in>set ?ps. good_op p" by (simp add: n safe_domain_def)
  obtain errs h' fs' where r: "hosts_run (\<lambda>ks. ks) good_io ?ps GetHostsManager ?fs = (errs, h', fs')"
    by (metis prod_cases3)
  then have "domains h' = [''foo.com'']"
    by (auto simp: AddDomain_def refresh_def SetEnabled_def GetHostsManager_def n Let_def
        split: prod.splits)
  then show ?thesis
    using hosts_file_tracks_blocklist [OF any_order_id good_io_ok u _ g r] r by (simp add: Let_def)
qed

text \<open>
  Switching blocking off, whatever was blocked before, gives back the hosts file the user
  had, byte for byte, and reports success.
\<close>
theorem disable_restores_hosts_file:
  assumes "any_order ord" and "io_ok io" and "user_lines U"
    and "hosts_file fs = Some (unlines U)" and "\<forall>p\<in>set ps. good_op p"
    and run: "hosts_run ord io ps GetHostsManager fs = (errs, h1, fs1)"
    and off: "SetEnabled ord io False h1 fs1 = (err, h2, fs2)"
  shows "err = None \<and> \<not> IsEnabled h2 \<and> hosts_file fs2 = hosts_file fs"
proof -
  have "in_step ord U GetHostsManager fs"
    using assms(4) by (simp add: in_step_def section_of_def GetHostsManager_def)
  then have "in_step ord U h1 fs1"
    using hosts_run_in_step [OF assms(1-3) _ assms(5) run] by simp
  then have "err = None \<and> in_step ord U h2 fs2"
    using hosts_step_in_step [OF assms(1-3), of h1 fs1 "OpSetEnabled False"] off by simp
  moreover have "\<not> enabled h2"
    using off by (auto simp: SetEnabled_def Let_def split: prod.splits)
  ultimately show ?thesis
    using assms(4) by (simp add: in_step_def section_of_def IsEnabled_def)
qed

theorem disable_restores_hosts_file_witness:
  "let U = [''::1 localhost'']; ps = [OpSetDomains [''x.com'', ''www.y.com''], OpSetEnabled True];
       fs = \<lparr>hosts_file = Some (unlines U), backup_file = None\<rparr>;
       (errs, h1, fs1) = hosts_run (\<lambda>ks. ks) good_io ps GetHostsManager fs;
       (err, h2, fs2) = SetEnabled (\<lambda>ks. ks) good_io False h1 fs1
   in err = None \<and> \<not> IsEnabled h2 \<and> hosts_file fs2 = hosts_file fs"
proof -
  let ?U = "[''::1 localhost'']"
  let ?ps = "[OpSetDomains [''x.com'', ''www.y.com''], OpSetEnabled True]"
  let ?fs = "\<lparr>hosts_file = Some (unlines ?U), backup_file = None\<rparr>"
  have u: "user_lines ?U"
    by (simp add: user_lines_def no_hash_unmarked text_line_def MaxScanTokenSize_def)
  have n: "normalize_domain ''x.com'' = ''x.com''" "normalize_domain ''www.y.com'' = ''www.y.com''"
    by code_simp+
  have g: "\<forall>p\<in>set ?ps. good_op p" by (simp add: n safe_domain_def)
  obtain errs h1 fs1 where r: "hosts_run (\<lambda>ks. ks) good_io ?ps GetHostsManager ?fs = (errs, h1, fs1)"
    by (metis prod_cases3)
  obtain err h2 fs2 where f: "SetEnabled (\<lambda>ks. ks) good_io False h1 fs1 = (err, h2, fs2)"
    by (metis prod_cases3)
  show ?thesis
    using disable_restores_hosts_file [OF any_order_id good_io_ok u _ g r f] r f
    by (simp add: Let_def)
qed

text \<open>
  While blocking is on, the file \<open>applyBlocks\<close> writes has a loopback line for every
  blocked domain, and one for its \<open>www.\<close> form unless the domain already starts with \<open>www.\<close>.
\<close>
theorem every_domain_is_blocked:
  assumes "any_order ord" and "d \<in> set (domains h)"
    and "readHostsFile io fs = Inr lines"
  shows "\<exists>out. snd (applyBlocks ord io h fs) = snd (writeHostsFile io fs out) \<and>
           (''127.0.0.1 '' @ d) \<in> set out \<and>
           (HasPrefix d ''www.'' \<or> (''127.0.0.1 www.'' @ d) \<in> set out)"
proof -
  let ?out = "removeBlockSection lines @ blockLines ord (domains h)"
  have "applyBlocks ord io h fs = writeHostsFile io fs ?out"
    using assms(2,3) by (auto simp: applyBlocks_def Let_def)
  moreover have "set (block_entry d) \<subseteq> set ?out"
    using assms(1,2) by (auto simp: blockLines_def any_order_def)
  ultimately show ?thesis
    by (intro exI [of _ ?out]) (auto simp: block_entry_def)
qed

theorem every_domain_is_blocked_witness:
  "\<exists>out. snd (applyBlocks (\<lambda>ks. ks) good_io \<lparr>enabled = True, domains = [''x.com'']\<rparr>
        \<lparr>hosts_file = None, backup_file = None\<rparr>) =
      snd (writeHostsFile good_io \<lparr>hosts_file = None, backup_file = None\<rparr> out) \<and>
      ''127.0.0.1 x.com'' \<in> set out \<and> ''127.0.0.1 www.x.com'' \<in> set out"
  using every_domain_is_blocked [OF any_order_id, of "''x.com''" "\<lparr>enabled = True, domains = [''x.com'']\<rparr>"
      good_io "\<lparr>hosts_file = None, backup_file = None\<rparr>" "[]"]
  by (simp add: readHostsFile_def HasPrefix_def)

text \<open>
  C5: A failed refresh never loses the hosts file silently: when the file cannot be read or
  opened for writing it is unchanged, and when a write stops half way the copy made just
  before holds the old content, provided that copy could be made.
\<close>

theorem failed_apply_is_recoverable:
  assumes "applyBlocks ord io h fs = (Some e, fs')"
  shows "hosts_file fs' = hosts_file fs \<or>
         (e = WriteHosts \<and>
          (fst (backupHostsFile io fs) = None \<longrightarrow>
             (hosts_file fs = None \<and> backup_file fs' = backup_file fs) \<or>
             (hosts_file fs \<noteq> None \<and> backup_file fs' = hosts_file fs)))"
  using assms
  by (auto simp: applyBlocks_def writeHostsFile_def backupHostsFile_def Let_def within_limit_def
      upto_limit_def split: sum.splits option.splits if_splits prod.splits)

theorem failed_apply_is_recoverable_witness:
  "let io = good_io\<lparr>write_limit := Some 3\<rparr>; h = \<lparr>enabled = True, domains = [''x.com'']\<rparr>;
       fs = \<lparr>hosts_file = Some ''::1 me'', backup_file = None\<rparr>;
       (err, fs') = applyBlocks (\<lambda>ks. ks) io h fs
   in err = Some WriteHosts \<and> hosts_file fs' \<noteq> hosts_file fs \<and> backup_file fs' = hosts_file fs"
proof -
  let ?io = "good_io\<lparr>write_limit := Some 3\<rparr>"
  let ?h = "\<lparr>enabled = True, domains = [''x.com'']\<rparr>"
  let ?fs = "\<lparr>hosts_file = Some ''::1 me'', backup_file = None\<rparr>"
  have rd: "readHostsFile (good_io\<lparr>write_limit := Some 3\<rparr>) ?fs = Inr [''::1 me'']"
    by (simp add: readHostsFile_def good_io_def scan_lines_def raw_lines_def drop_cr_def
        MaxScanTokenSize_def Let_def)
  have kp: "removeBlockSection [''::1 me''] = [''::1 me'']"
    unfolding removeBlockSection_def by (rule rbs_keep) (simp add: no_hash_unmarked)
  have "applyBlocks (\<lambda>ks. ks) ?io ?h ?fs =
      (Some WriteHosts, \<lparr>hosts_file = Some ''::1'', backup_file = Some ''::1 me''\<rparr>)"
    unfolding applyBlocks_def rd sum.case kp
    by (simp add: writeHostsFile_def backupHostsFile_def good_io_def Let_def
        within_limit_def upto_limit_def unlines_def)
  moreover note failed_apply_is_recoverable [OF this]
  ultimately show ?thesis by (simp add: Let_def)
qed

text \<open>
  The emptiness test of \<open>AddDomain\<close> runs before the domain is trimmed, so a blank string
  passes it and the empty domain becomes a member of the block list.
\<close>
theorem AddDomain_blank_adds_empty_domain:
  assumes "d \<noteq> []" and "\<forall>c\<in>set d. is_space c" and "\<not> enabled h"
  shows "AddDomain ord io d h fs = (None, h\<lparr>domains := List.insert [] (domains h)\<rparr>, fs)"
proof -
  have "normalize_domain d = []"
    using assms(2) by (simp add: normalize_domain_def TrimSpace_def ToLower_def strip_eq_Nil)
  then show ?thesis using assms(1,3) by (simp add: AddDomain_def refresh_def)
qed

theorem AddDomain_blank_adds_empty_domain_witness:
  "AddDomain (\<lambda>ks. ks) good_io '' '' GetHostsManager \<lparr>hosts_file = None, backup_file = None\<rparr> =
     (None, \<lparr>enabled = False, domains = [[]]\<rparr>, \<lparr>hosts_file = None, backup_file = None\<rparr>)"
  by (subst AddDomain_blank_adds_empty_domain) (simp_all add: is_space_def GetHostsManager_def)


subsection \<open>The blocker as its clients see it\<close>

text \<open>
  What the command handlers rely on: the two calls they make succeed on well-formed domains, keep the invariant, and set what is
  blocked and whether blocking is on, each without touching the other.
\<close>

locale website_blocker =
  fixes set_domains :: "string list \<Rightarrow> 's \<Rightarrow> 'e option \<times> 's"
    and set_enabled :: "bool \<Rightarrow> 's \<Rightarrow> 'e option \<times> 's"
    and inv :: "'s \<Rightarrow> bool" and blocked :: "'s \<Rightarrow> string set" and active :: "'s \<Rightarrow> bool"
  assumes set_domains_law:
      "inv s \<Longrightarrow> \<forall>d\<in>set ds. safe_domain (normalize_domain d) \<Longrightarrow> set_domains ds s = (e, s') \<Longrightarrow>
       e = None \<and> inv s' \<and> blocked s' = normalize_domain ` (set ds - {[]}) \<and> active s' = active s"
    and set_enabled_law:
      "inv s \<Longrightarrow> set_enabled b s = (e, s') \<Longrightarrow> e = None \<and> inv s' \<and> blocked s' = blocked s \<and> active s' = b"

definition hosts_set_domains ::
    "(string list \<Rightarrow> string list) \<Rightarrow> hosts_io \<Rightarrow> string list \<Rightarrow> hosts_manager \<times> hosts_fs \<Rightarrow> hosts_error option \<times> hosts_manager \<times> hosts_fs" where
  "hosts_set_domains ord io ds s = SetDomains ord io ds (fst s) (snd s)"

definition hosts_set_enabled ::
    "(string list \<Rightarrow> string list) \<Rightarrow> hosts_io \<Rightarrow> bool \<Rightarrow> hosts_manager \<times> hosts_fs \<Rightarrow> hosts_error option \<times> hosts_manager \<times> hosts_fs" where
  "hosts_set_enabled ord io b s = SetEnabled ord io b (fst s) (snd s)"

lemma hosts_manager_is_blocker:
  assumes ctx: "any_order ord" "io_ok io" "user_lines U"
  shows "website_blocker (hosts_set_domains ord io) (hosts_set_enabled ord io) (\<lambda>s. in_step ord U (fst s) (snd s))
    (\<lambda>s. set (domains (fst s))) (\<lambda>s. enabled (fst s))"
proof (unfold_locales, goal_cases)
  case (1 s ds e s')
  have run: "hosts_step ord io (OpSetDomains ds) (fst s) (snd s) = (e, fst s', snd s')" using 1 by (simp add: hosts_set_domains_def)
  have "fst s' = (fst s)\<lparr>domains := collect_domains ds []\<rparr>"
    using run by (auto simp: SetDomains_def refresh_def split: if_splits prod.splits)
  then show ?case using hosts_step_in_step [OF ctx _ _ run] 1 by (simp add: set_collect_domains)
next
  case (2 s b e s')
  have run: "hosts_step ord io (OpSetEnabled b) (fst s) (snd s) = (e, fst s', snd s')" using 2 by (simp add: hosts_set_enabled_def)
  have "fst s' = (fst s)\<lparr>enabled := b\<rparr>" using run by (auto simp: SetEnabled_def Let_def split: prod.splits)
  then show ?case using hosts_step_in_step [OF ctx _ _ run] 2 by simp
qed

interpretation plain_hosts: website_blocker "hosts_set_domains (\<lambda>ks. ks) good_io" "hosts_set_enabled (\<lambda>ks. ks) good_io"
  "\<lambda>s. in_step (\<lambda>ks. ks) [] (fst s) (snd s)" "\<lambda>s. set (domains (fst s))" "\<lambda>s. enabled (fst s)"
  by (rule hosts_manager_is_blocker) (simp_all add: user_lines_def)

lemma category_domains_safe: "d \<in> set (GetDomainsByCategory c) \<Longrightarrow> safe_domain (normalize_domain d)"
proof -
  have all: "list_all (\<lambda>(c, ds). list_all (\<lambda>d. list_all (\<lambda>x. x \<noteq> CHR 0x0A \<and> x \<noteq> CHR 0x0D \<and> x \<noteq> CHR ''#'') (normalize_domain d) \<and>
      length (normalize_domain d) < 50) ds) CategoryDomains" by code_simp
  assume "d \<in> set (GetDomainsByCategory c)"
  then obtain ds where ds: "map_of CategoryDomains c = Some ds" "d \<in> set ds"
    unfolding GetDomainsByCategory_def by (cases "map_of CategoryDomains c") simp_all
  have "(c, ds) \<in> set CategoryDomains" by (rule map_of_SomeD [OF ds(1)])
  then have "list_all (\<lambda>x. x \<noteq> CHR 0x0A \<and> x \<noteq> CHR 0x0D \<and> x \<noteq> CHR ''#'') (normalize_domain d) \<and> length (normalize_domain d) < 50"
    using all ds(2) unfolding list_all_iff by blast
  then show ?thesis by (auto simp: safe_domain_def list_all_iff)
qed

end
