(* ===== verification/Command.thy ===== *)
theory Command
  imports Scheduler Hosts
begin

text \<open>
  Commands that the backend sends to an agent: the dispatcher (\<open>agent/internal/command\<close>) and the entry point
  (\<open>agent/internal/socket/handler.go\<close>).  JSON decoding, files and the network are parameters; a panic of the program is a
  value.
\<close>

subsection \<open>Envelopes and handlers (types.go)\<close>

type_synonym Kind = string

definition KindOnce :: Kind where "KindOnce = ''once''"
definition KindStream :: Kind where "KindStream = ''stream''"

record Envelope =
  en_DeviceID :: string
  en_Name :: string
  en_Kind :: Kind
  en_Argument :: bytes

datatype handler = GetLogs | BackupAuto | RestoreFile | BlockWebsite

definition registry_table :: "(string \<times> handler) list" where
  "registry_table = [(''get_logs'', GetLogs), (''backup_auto'', BackupAuto), (''restore'', RestoreFile), (''block_website'', BlockWebsite)]"

definition GetHandler :: "string \<Rightarrow> handler option" where
  "GetHandler name = map_of registry_table name"

fun handler_kind :: "handler \<Rightarrow> Kind" where
  "handler_kind GetLogs = KindOnce"
| "handler_kind BackupAuto = KindStream"
| "handler_kind RestoreFile = KindOnce"
| "handler_kind BlockWebsite = KindOnce"

definition resolveKind :: "Envelope \<Rightarrow> Kind" where
  "resolveKind env =
     (if en_Kind env \<noteq> [] then en_Kind env
      else case GetHandler (en_Name env) of Some h \<Rightarrow> handler_kind h | None \<Rightarrow> KindOnce)"

definition Format :: "Envelope \<Rightarrow> string" where
  "Format env = ''command='' @ en_Name env @ '' kind='' @ resolveKind env @ '' device='' @ en_DeviceID env"

subsection \<open>Arguments\<close>

record restoreArg =
  ra_FileID :: string
  ra_VersionID :: nat
  ra_FileName :: string
  ra_DestPath :: string

record blockWebsiteRule =
  br_ID :: nat
  br_Type :: string
  br_Category :: string
  br_Domain :: string
  br_Enabled :: bool

record blockWebsiteArg =
  ba_Action :: string
  ba_Rules :: "blockWebsiteRule list"
  ba_Status :: "bool option"

datatype cmd_arg = NilArg | LogsArg int | AutoArg "bool option" | RestoreArg restoreArg | BlockArg blockWebsiteArg

text \<open>What a handler depends on: decoders, the agent's identity, the backend's address, files and connections.\<close>

record cmd_env =
  j_logs :: "bytes \<Rightarrow> int option"
  j_auto :: "bytes \<Rightarrow> bool option option"
  j_restore :: "bytes \<Rightarrow> restoreArg option"
  j_block :: "bytes \<Rightarrow> blockWebsiteArg option"
  j_envelope :: "bytes \<Rightarrow> Envelope option"
  c_host :: string
  c_port :: int
  c_token :: string
  c_device :: string
  c_LogPath :: string
  c_TokenPath :: string
  c_TempDir :: string
  c_net :: action_net
  c_net2 :: action_net
  c_log_json :: "string \<Rightarrow> byte list \<Rightarrow> bytes option"
  c_down_json :: "string \<Rightarrow> BackupDownloadInitRequest \<Rightarrow> bytes option"
  c_session :: "bytes \<Rightarrow> Session option"
  c_start_json :: "Session \<Rightarrow> bytes"
  c_dest :: dest_io
  c_mkdir_ok :: bool
  c_db :: "MonitoredFile gorm option"
  c_key :: "monitored \<Rightarrow> nat"
  c_time :: time
  c_ord :: "string list \<Rightarrow> string list"
  c_hosts :: hosts_io

definition decode_get_logs :: "cmd_env \<Rightarrow> bytes \<Rightarrow> (string, cmd_arg) res" where
  "decode_get_logs env raw =
     (if raw = [] then Inr (LogsArg 100)
      else case j_logs env raw of
             None \<Rightarrow> Inl ''json''
           | Some n \<Rightarrow> Inr (LogsArg (if n = 0 then 100 else n)))"

definition decode_backup_auto :: "cmd_env \<Rightarrow> bytes \<Rightarrow> (string, cmd_arg) res" where
  "decode_backup_auto env raw =
     (if raw = [] then Inr (AutoArg None)
      else case j_auto env raw of None \<Rightarrow> Inl ''json'' | Some b \<Rightarrow> Inr (AutoArg b))"

definition decode_restore :: "cmd_env \<Rightarrow> bytes \<Rightarrow> (string, cmd_arg) res" where
  "decode_restore env raw =
     (case (if raw = [] then Some \<lparr>ra_FileID = [], ra_VersionID = 0, ra_FileName = [], ra_DestPath = []\<rparr> else j_restore env raw) of
        None \<Rightarrow> Inl ''json''
      | Some a \<Rightarrow>
          if ra_FileName a = [] then Inl ''missing file_name''
          else if ra_DestPath a = [] then Inl ''missing dest_path''
          else Inr (RestoreArg a))"

definition decode_block_website :: "cmd_env \<Rightarrow> bytes \<Rightarrow> (string, cmd_arg) res" where
  "decode_block_website env raw =
     (case (if raw = [] then Some \<lparr>ba_Action = [], ba_Rules = [], ba_Status = None\<rparr> else j_block env raw) of
        None \<Rightarrow> Inl ''json''
      | Some a \<Rightarrow> Inr (BlockArg a))"

text \<open>The dispatcher calls \<open>DecodeArg\<close> of the handler it found.\<close>

fun DecodeArg :: "cmd_env \<Rightarrow> handler \<Rightarrow> bytes \<Rightarrow> (string, cmd_arg) res" where
  "DecodeArg env GetLogs raw = decode_get_logs env raw"
| "DecodeArg env BackupAuto raw = decode_backup_auto env raw"
| "DecodeArg env RestoreFile raw = decode_restore env raw"
| "DecodeArg env BlockWebsite raw = decode_block_website env raw"

subsection \<open>State\<close>

text \<open>The function that stops a stream command may be nil; calling it then panics.\<close>

datatype stop_fun = NilStop | StopBackup

record agent_state =
  ag_active :: "string \<Rightarrow> stop_fun option"
  ag_backup :: backup_state
  ag_hosts :: hosts_manager
  ag_hostfs :: hosts_fs
  ag_files :: files
  ag_rows :: monitored
  ag_sent :: "frame list"

datatype run_result = Done | Fails string | Panics

subsection \<open>One-off commands (handlers.go)\<close>

definition log_path :: "cmd_env \<Rightarrow> string" where
  "log_path env = (if c_LogPath env = [] then JoinPath [DirPath (c_TokenPath env), ''agent.log''] else c_LogPath env)"

text \<open>
  After an error of \<open>SendAction\<close> there is no message, and the error report reads its status code: the program panics.
\<close>

definition once_get_logs :: "cmd_env \<Rightarrow> agent_state \<Rightarrow> run_result \<times> agent_state" where
  "once_get_logs env st =
     (let data = (case ag_files st (log_path env) of None \<Rightarrow> to_bytes ''<no log available>'' | Some b \<Rightarrow> b);
          token = TrimSpace (c_token env)
      in if token = [] then (Done, st)
         else case SendAction (c_net env) (c_log_json env) (c_host env) (c_port env) (c_device env) token ''agent_log'' data of
                (out, r) \<Rightarrow>
                  let st' = st\<lparr>ag_sent := ag_sent st @ out\<rparr>
                  in case r of Inl e \<Rightarrow> (Panics, st') | Inr m \<Rightarrow> (Done, st'))"

definition once_backup_auto :: "cmd_arg \<Rightarrow> agent_state \<Rightarrow> run_result \<times> agent_state" where
  "once_backup_auto arg st =
     (case arg of
        AutoArg a \<Rightarrow>
          (Done, case a of None \<Rightarrow> st | Some b \<Rightarrow> st\<lparr>ag_backup := SetBackupEnabled b (ag_backup st)\<rparr>)
      | _ \<Rightarrow> (Fails ''invalid argument type'', st))"

definition restored_row :: "cmd_env \<Rightarrow> restoreArg \<Rightarrow> string \<Rightarrow> monitored \<Rightarrow> monitored" where
  "restored_row env a dest rows =
     (case c_db env of
        None \<Rightarrow> rows
      | Some db \<Rightarrow>
          let run = (\<lambda>f. case g_exec db f rows of Inl e \<Rightarrow> rows | Inr rows' \<Rightarrow> rows')
          in case g_first db mf_ID (\<lambda>r. mf_Path r = dest) rows of
               Inr (Some mf) \<Rightarrow>
                 run (map (\<lambda>r. if mf_ID r = mf_ID mf
                        then r\<lparr>mf_ItemID := ra_FileID a, mf_LastAction := ''restore'', mf_LastEventAt := c_time env,
                               mf_ChangePending := True, mf_UpdatedAt := c_time env\<rparr> else r))
             | _ \<Rightarrow>
                 run (\<lambda>rs. rs @ [\<lparr>mf_ID = c_key env rs, mf_Path = dest, mf_ItemID = ra_FileID a, mf_LastAction = ''restore'',
                        mf_LastEventAt = c_time env, mf_LastBackupAt = None, mf_ChangePending = True,
                        mf_CreatedAt = c_time env, mf_UpdatedAt = c_time env\<rparr>]))"

definition dest_path :: "cmd_env \<Rightarrow> restoreArg \<Rightarrow> string" where
  "dest_path env a =
     (if ra_DestPath a = [] then JoinPath [c_TempDir env, ''sagiri-restore'', Base (ra_FileName a)] else ra_DestPath a)"

definition once_restore :: "cmd_env \<Rightarrow> cmd_arg \<Rightarrow> agent_state \<Rightarrow> run_result \<times> agent_state" where
  "once_restore env arg st =
     (case arg of
        RestoreArg a \<Rightarrow>
          (let token = TrimSpace (c_token env); dest = dest_path env a; dir = DirPath dest
           in if token = [] then (Fails ''missing token'', st)
              else if dir \<noteq> [] \<and> dir \<noteq> ''.'' \<and> \<not> c_mkdir_ok env then (Fails ''create dest directory'', st)
              else case InitDownload (c_net env) (c_down_json env) (c_session env) (c_device env) (c_host env) (c_port env) token
                          (ra_FileName a) of
                     (out, Inl e) \<Rightarrow> (Fails ''init download'', st\<lparr>ag_sent := ag_sent st @ out\<rparr>)
                   | (out, Inr session) \<Rightarrow>
                       (case DownloadFile (c_dest env) (c_net2 env) (c_start_json env) session dest (ag_files st) of
                          (e, out2, fs', session') \<Rightarrow>
                            let st' = st\<lparr>ag_sent := ag_sent st @ out @ out2, ag_files := fs'\<rparr>
                            in case e of
                                 Some e' \<Rightarrow> (Fails ''download file'', st')
                               | None \<Rightarrow> (Done, st'\<lparr>ag_rows := restored_row env a dest (ag_rows st)\<rparr>)))
      | _ \<Rightarrow> (Fails ''invalid argument type'', st))"

fun rule_domains :: "blockWebsiteRule \<Rightarrow> string list" where
  "rule_domains r =
     (if \<not> br_Enabled r then []
      else if br_Type r = ''category'' then GetDomainsByCategory (br_Category r)
      else if br_Type r = ''domain'' \<and> br_Domain r \<noteq> [] then [br_Domain r] else [])"

definition domainsToBlock :: "blockWebsiteRule list \<Rightarrow> string list" where
  "domainsToBlock rules = remdups (concat (map rule_domains rules))"

definition once_block_website :: "cmd_env \<Rightarrow> cmd_arg \<Rightarrow> agent_state \<Rightarrow> run_result \<times> agent_state" where
  "once_block_website env arg st =
     (case arg of
        BlockArg a \<Rightarrow>
          (let enable = (\<lambda>b h fs. SetEnabled (c_ord env) (c_hosts env) b h fs)
           in if ba_Action a = ''sync'' \<or> ba_Action a = ''apply'' then
                (if ba_Status a = Some False then
                   (case enable False (ag_hosts st) (ag_hostfs st) of
                      (e, h, fs) \<Rightarrow> ((if e = None then Done else Fails ''disable blocking''), st\<lparr>ag_hosts := h, ag_hostfs := fs\<rparr>))
                 else
                   (case SetDomains (c_ord env) (c_hosts env) (c_ord env (domainsToBlock (ba_Rules a))) (ag_hosts st) (ag_hostfs st) of
                      (Some e, h, fs) \<Rightarrow> (Fails ''set domains'', st\<lparr>ag_hosts := h, ag_hostfs := fs\<rparr>)
                    | (None, h, fs) \<Rightarrow>
                        (case enable True h fs of
                           (e, h', fs') \<Rightarrow> ((if e = None then Done else Fails ''enable blocking''), st\<lparr>ag_hosts := h', ag_hostfs := fs'\<rparr>))))
              else if ba_Action a = ''remove'' then
                (case enable False (ag_hosts st) (ag_hostfs st) of
                   (e, h, fs) \<Rightarrow> ((if e = None then Done else Fails ''disable blocking''), st\<lparr>ag_hosts := h, ag_hostfs := fs\<rparr>))
              else (Fails (''unknown action: '' @ ba_Action a), st))
      | _ \<Rightarrow> (Fails ''invalid argument type'', st))"

fun HandleOnce :: "cmd_env \<Rightarrow> handler \<Rightarrow> cmd_arg \<Rightarrow> agent_state \<Rightarrow> run_result \<times> agent_state" where
  "HandleOnce env GetLogs arg st = once_get_logs env st"
| "HandleOnce env BackupAuto arg st = once_backup_auto arg st"
| "HandleOnce env RestoreFile arg st = once_restore env arg st"
| "HandleOnce env BlockWebsite arg st = once_block_website env arg st"

text \<open>Only \<open>backup_auto\<close> is a stream; the others return a nil function and no error.\<close>

fun Start :: "handler \<Rightarrow> cmd_arg \<Rightarrow> agent_state \<Rightarrow> (string, stop_fun) res \<times> agent_state" where
  "Start BackupAuto arg st =
     (case arg of
        AutoArg a \<Rightarrow>
          (Inr StopBackup, case a of None \<Rightarrow> st | Some b \<Rightarrow> st\<lparr>ag_backup := SetBackupEnabled b (ag_backup st)\<rparr>)
      | _ \<Rightarrow> (Inl ''invalid argument type'', st))"
| "Start h arg st = (Inr NilStop, st)"

subsection \<open>Dispatch (dispatcher.go)\<close>

fun call_stop :: "stop_fun \<Rightarrow> agent_state \<Rightarrow> agent_state option" where
  "call_stop NilStop st = None"
| "call_stop StopBackup st = Some (st\<lparr>ag_backup := SetBackupEnabled False (ag_backup st)\<rparr>)"

definition start_stream :: "string \<Rightarrow> handler \<Rightarrow> cmd_arg \<Rightarrow> agent_state \<Rightarrow> run_result \<times> agent_state" where
  "start_stream name h arg st =
     (case (case ag_active st name of
              None \<Rightarrow> Some st
            | Some stop \<Rightarrow> map_option (\<lambda>s. s\<lparr>ag_active := (ag_active s)(name := None)\<rparr>) (call_stop stop st)) of
        None \<Rightarrow> (Panics, st)
      | Some st1 \<Rightarrow>
          (case Start h arg st1 of
             (Inl e, st2) \<Rightarrow> (Fails e, st2)
           | (Inr stop, st2) \<Rightarrow> (Done, st2\<lparr>ag_active := (ag_active st2)(name \<mapsto> stop)\<rparr>)))"

definition Dispatch :: "cmd_env \<Rightarrow> Envelope \<Rightarrow> agent_state \<Rightarrow> run_result \<times> agent_state" where
  "Dispatch env e st =
     (case GetHandler (en_Name e) of
        None \<Rightarrow> (Fails ''Unknown command'', st)
      | Some h \<Rightarrow>
          let k = resolveKind e
          in case (if en_Argument e \<noteq> [] then DecodeArg env h (en_Argument e) else Inr NilArg) of
               Inl err \<Rightarrow> (Fails ''Decode arg failed'', st)
             | Inr arg \<Rightarrow>
                 if k = KindOnce then HandleOnce env h arg st
                 else if k = KindStream then start_stream (en_Name e) h arg st
                 else (Done, st))"

definition Stop :: "string \<Rightarrow> agent_state \<Rightarrow> run_result \<times> agent_state" where
  "Stop name st =
     (case ag_active st name of
        None \<Rightarrow> (Done, st)
      | Some stop \<Rightarrow>
          let st1 = st\<lparr>ag_active := (ag_active st)(name := None)\<rparr>
          in case call_stop stop st1 of None \<Rightarrow> (Panics, st1) | Some st2 \<Rightarrow> (Done, st2))"

text \<open>\<open>bytes.TrimSpace\<close> on the frame, then the dispatcher.\<close>

definition HandleMessage :: "cmd_env \<Rightarrow> bytes \<Rightarrow> agent_state \<Rightarrow> run_result \<times> agent_state" where
  "HandleMessage env data st =
     (let line = to_bytes (TrimSpace (to_string data))
      in if line = [] then (Done, st)
         else case j_envelope env line of
                None \<Rightarrow> (Fails ''Invalid command'', st)
              | Some e \<Rightarrow> Dispatch env e st)"


subsection \<open>Blocking through a command\<close>

definition sync_blocking ::
    "(string list \<Rightarrow> 's \<Rightarrow> 'e option \<times> 's) \<Rightarrow> (bool \<Rightarrow> 's \<Rightarrow> 'e option \<times> 's) \<Rightarrow> string list \<Rightarrow> 's \<Rightarrow> 'e option \<times> 's" where
  "sync_blocking set_domains set_enabled ds s =
     (case set_domains ds s of (Some e, s') \<Rightarrow> (Some e, s') | (None, s') \<Rightarrow> set_enabled True s')"

context website_blocker
begin

lemma sync_blocks:
  assumes "inv s" "\<forall>d\<in>set ds. safe_domain (normalize_domain d)" "sync_blocking set_domains set_enabled ds s = (e, s')"
  shows "e = None \<and> inv s' \<and> active s' \<and> blocked s' = normalize_domain ` (set ds - {[]})"
proof -
  obtain e1 s1 where one: "set_domains ds s = (e1, s1)" by fastforce
  note l1 = set_domains_law [OF assms(1,2) one]
  then have "set_enabled True s1 = (e, s')" using assms(3) one by (simp add: sync_blocking_def)
  then show ?thesis using set_enabled_law [of s1 True e s'] l1 by simp
qed

lemma switch_off:
  assumes "inv s" "set_enabled False s = (e, s')"
  shows "e = None \<and> inv s' \<and> \<not> active s' \<and> blocked s' = blocked s"
  using set_enabled_law [OF assms] by simp

end

lemma once_block_website_sync:
  assumes "ba_Action a = ''sync'' \<or> ba_Action a = ''apply''" "ba_Status a \<noteq> Some False"
  shows "once_block_website env (BlockArg a) st =
    (case sync_blocking (hosts_set_domains (c_ord env) (c_hosts env)) (hosts_set_enabled (c_ord env) (c_hosts env))
            (c_ord env (domainsToBlock (ba_Rules a))) (ag_hosts st, ag_hostfs st) of
       (e, h, fs) \<Rightarrow> (if e = None then Done else fst (once_block_website env (BlockArg a) st), st\<lparr>ag_hosts := h, ag_hostfs := fs\<rparr>))"
  using assms
  by (auto simp: once_block_website_def sync_blocking_def hosts_set_domains_def hosts_set_enabled_def Let_def split: prod.split option.split)

lemma rule_domains_safe:
  assumes "\<forall>r\<in>set rules. safe_domain (normalize_domain (br_Domain r))" "d \<in> set (domainsToBlock rules)"
  shows "safe_domain (normalize_domain d)"
proof -
  obtain r where r: "r \<in> set rules" "d \<in> set (rule_domains r)" using assms(2) by (auto simp del: rule_domains.simps simp: domainsToBlock_def)
  then have "d = br_Domain r \<or> d \<in> set (GetDomainsByCategory (br_Category r))" by (simp split: if_splits)
  then show ?thesis using category_domains_safe r(1) assms(1) by blast
qed

lemma GetHandler_names:
  "GetHandler ''get_logs'' = Some GetLogs" "GetHandler ''backup_auto'' = Some BackupAuto"
  "GetHandler ''restore'' = Some RestoreFile" "GetHandler ''block_website'' = Some BlockWebsite"
  by (simp_all add: GetHandler_def registry_table_def)

lemma block_website_dispatch:
  assumes ctx: "any_order (c_ord env)" "io_ok (c_hosts env)" "user_lines U"
    and before: "in_step (c_ord env) U (ag_hosts st) (ag_hostfs st)"
    and e: "en_Name e = ''block_website''" "en_Kind e = [] \<or> en_Kind e = KindOnce" "en_Argument e \<noteq> []"
      "j_block env (en_Argument e) = Some a"
    and a: "ba_Action a = ''sync'' \<or> ba_Action a = ''apply''" "ba_Status a \<noteq> Some False"
    and safe: "\<forall>r\<in>set (ba_Rules a). safe_domain (normalize_domain (br_Domain r))"
    and run: "Dispatch env e st = (res, st')"
  shows "res = Done \<and> hosts_file (ag_hostfs st') = Some (unlines (U @ section_of (c_ord env) (ag_hosts st'))) \<and>
    enabled (ag_hosts st') \<and>
    set (domains (ag_hosts st')) = normalize_domain ` ((\<Union>r\<in>set (ba_Rules a). set (rule_domains r)) - {[]}) \<and>
    st' = st\<lparr>ag_hosts := ag_hosts st', ag_hostfs := ag_hostfs st'\<rparr>"
proof -
  let ?dom = "hosts_set_domains (c_ord env) (c_hosts env)" and ?en = "hosts_set_enabled (c_ord env) (c_hosts env)"
  let ?ds = "c_ord env (domainsToBlock (ba_Rules a))"
  obtain err h fs where sync: "sync_blocking ?dom ?en ?ds (ag_hosts st, ag_hostfs st) = (err, h, fs)" using prod_cases3 by blast
  have ds: "set ?ds = (\<Union>r\<in>set (ba_Rules a). set (rule_domains r))"
    using ctx(1) by (auto simp: any_order_def domainsToBlock_def simp del: rule_domains.simps)
  have "\<forall>d\<in>set ?ds. safe_domain (normalize_domain d)"
    using ctx(1) rule_domains_safe [OF safe] by (auto simp: any_order_def)
  then have ok: "err = None \<and> in_step (c_ord env) U h fs \<and> enabled h \<and> set (domains h) = normalize_domain ` (set ?ds - {[]})"
    using website_blocker.sync_blocks [OF hosts_manager_is_blocker [OF ctx] _ _ sync] before by simp
  have "Dispatch env e st = once_block_website env (BlockArg a) st"
    using e by (auto simp: Dispatch_def GetHandler_names resolveKind_def decode_block_website_def)
  then have "res = Done" "st' = st\<lparr>ag_hosts := h, ag_hostfs := fs\<rparr>"
    using run ok once_block_website_sync [OF a, of env st] sync by auto
  then show ?thesis using ok ds by (simp add: in_step_def)
qed

text \<open>
  C32: a synchronisation command makes the hosts file what the rules say.  When the backend's rules reach the agent with blocking on
  and the file system works, the command succeeds: the user's own lines stay, the section that follows them blocks exactly the
  domains of the enabled rules, with categories expanded and names normalised, and nothing else of the agent's state changes.
\<close>
theorem block_website_sync_enforces_rules:
  assumes ctx: "any_order (c_ord env)" "io_ok (c_hosts env)" "user_lines U"
    and before: "in_step (c_ord env) U (ag_hosts st) (ag_hostfs st)"
    and e: "en_Name e = ''block_website''" "en_Kind e = [] \<or> en_Kind e = KindOnce" "en_Argument e \<noteq> []"
      "j_block env (en_Argument e) = Some a"
    and a: "ba_Action a = ''sync'' \<or> ba_Action a = ''apply''" "ba_Status a \<noteq> Some False"
    and safe: "\<forall>r\<in>set (ba_Rules a). safe_domain (normalize_domain (br_Domain r))"
    and run: "Dispatch env e st = (res, st')"
  shows "res = Done \<and> hosts_file (ag_hostfs st') = Some (unlines (U @ section_of (c_ord env) (ag_hosts st'))) \<and>
    enabled (ag_hosts st') \<and>
    set (domains (ag_hosts st')) = normalize_domain ` ((\<Union>r\<in>set (ba_Rules a). set (rule_domains r)) - {[]}) \<and>
    st' = st\<lparr>ag_hosts := ag_hosts st', ag_hostfs := ag_hostfs st'\<rparr>"
  by (rule block_website_dispatch [OF assms])

definition sample_cmd_env :: cmd_env where
  "sample_cmd_env = \<lparr>j_logs = (\<lambda>_. None), j_auto = (\<lambda>_. None), j_restore = (\<lambda>_. None),
     j_block = (\<lambda>_. Some \<lparr>ba_Action = ''sync'', ba_Rules = [\<lparr>br_ID = 1, br_Type = ''domain'', br_Category = [], br_Domain = ''x.com'',
        br_Enabled = True\<rparr>], ba_Status = Some True\<rparr>),
     j_envelope = (\<lambda>_. None), c_host = ''h'', c_port = 1, c_token = ''t'', c_device = ''d'', c_LogPath = ''/l'', c_TokenPath = ''/t'', c_TempDir = ''/tmp'',
     c_net = \<lparr>a_connect = (\<lambda>_ _. - 1), a_sent = (\<lambda>_. False), a_incoming = []\<rparr>,
     c_net2 = \<lparr>a_connect = (\<lambda>_ _. - 1), a_sent = (\<lambda>_. False), a_incoming = []\<rparr>, c_log_json = (\<lambda>_ _. None),
     c_down_json = (\<lambda>_ _. None), c_session = (\<lambda>_. None), c_start_json = (\<lambda>_. []),
     c_dest = \<lparr>dest_mkdir_ok = True, dest_open_ok = True, dest_write_ok = (\<lambda>_. True)\<rparr>, c_mkdir_ok = True, c_db = None,
     c_key = length, c_time = 0, c_ord = (\<lambda>ks. ks), c_hosts = good_io\<rparr>"

definition sample_agent :: agent_state where
  "sample_agent = \<lparr>ag_active = (\<lambda>_. None), ag_backup = backupState, ag_hosts = GetHostsManager,
     ag_hostfs = \<lparr>hosts_file = Some [], backup_file = None\<rparr>, ag_files = (\<lambda>_. None), ag_rows = [], ag_sent = []\<rparr>"

theorem block_website_sync_enforces_rules_witness:
  "\<exists>res st'. Dispatch sample_cmd_env \<lparr>en_DeviceID = ''d'', en_Name = ''block_website'', en_Kind = [], en_Argument = [123]\<rparr> sample_agent
       = (res, st') \<and> res = Done \<and> set (domains (ag_hosts st')) = {''x.com''} \<and> enabled (ag_hosts st')"
proof -
  let ?e = "\<lparr>en_DeviceID = ''d'', en_Name = ''block_website'', en_Kind = [], en_Argument = [123]\<rparr>"
  let ?r = "\<lparr>br_ID = 1, br_Type = ''domain'', br_Category = [], br_Domain = ''x.com'', br_Enabled = True\<rparr>"
  obtain res st' where run: "Dispatch sample_cmd_env ?e sample_agent = (res, st')" by fastforce
  have n: "normalize_domain ''x.com'' = ''x.com''" by code_simp
  have before: "in_step (c_ord sample_cmd_env) [] (ag_hosts sample_agent) (ag_hostfs sample_agent)"
    by (simp add: in_step_def section_of_def sample_agent_def GetHostsManager_def unlines_def)
  have j: "j_block sample_cmd_env (en_Argument ?e) = Some \<lparr>ba_Action = ''sync'', ba_Rules = [?r], ba_Status = Some True\<rparr>"
    by (simp add: sample_cmd_env_def)
  have ctx: "any_order (c_ord sample_cmd_env)" "io_ok (c_hosts sample_cmd_env)" by (simp_all add: sample_cmd_env_def)
  have "res = Done \<and> set (domains (ag_hosts st')) = normalize_domain ` ((\<Union>r\<in>set [?r]. set (rule_domains r)) - {[]}) \<and> enabled (ag_hosts st')"
    using block_website_sync_enforces_rules [OF ctx _ before _ _ _ j _ _ _ run]
    by (simp add: user_lines_def n safe_domain_def)
  then show ?thesis using run n by simp
qed


subsection \<open>Commands that crash the agent\<close>

text \<open>
  A one-off command that is sent as a stream is not executed, and sending it again crashes the agent: \<open>Start\<close> of
  such a handler returns neither a function nor an error, the dispatcher stores the nil function as the way to stop the
  command, reports success without having done anything, and calls it at the next command of that name.
\<close>
theorem streamed_one_off_command_panics:
  assumes h: "GetHandler (en_Name e) = Some h" "h \<noteq> BackupAuto" and k: "en_Kind e = KindStream"
    and arg: "en_Argument e = [] \<or> DecodeArg env h (en_Argument e) = Inr arg" and fresh: "ag_active st (en_Name e) = None"
    and first: "Dispatch env e st = (r1, st1)" and second: "Dispatch env e st1 = (r2, st2)"
  shows "r1 = Done \<and> st1 = st\<lparr>ag_active := (ag_active st)(en_Name e \<mapsto> NilStop)\<rparr> \<and> r2 = Panics"
proof -
  have start: "Start h x s = (Inr NilStop, s)" for x s using h(2) by (cases h) simp_all
  have kinds: "resolveKind e = KindStream" "KindStream \<noteq> KindOnce" using k by (simp_all add: resolveKind_def KindStream_def KindOnce_def)
  have run: "\<exists>x. Dispatch env e s = start_stream (en_Name e) h x s" for s
    using h(1) kinds arg by (auto simp: Dispatch_def)
  have one: "r1 = Done \<and> st1 = st\<lparr>ag_active := (ag_active st)(en_Name e \<mapsto> NilStop)\<rparr>"
    using run [of st] first fresh by (auto simp: start_stream_def start)
  then have "ag_active st1 (en_Name e) = Some NilStop" by simp
  then have "r2 = Panics" using run [of st1] second by (auto simp: start_stream_def)
  with one show ?thesis by simp
qed

theorem streamed_one_off_command_panics_witness:
  "\<exists>r1 st1 r2 st2. Dispatch sample_cmd_env \<lparr>en_DeviceID = ''d'', en_Name = ''get_logs'', en_Kind = ''stream'', en_Argument = []\<rparr> sample_agent
       = (r1, st1) \<and>
     Dispatch sample_cmd_env \<lparr>en_DeviceID = ''d'', en_Name = ''get_logs'', en_Kind = ''stream'', en_Argument = []\<rparr> st1 = (r2, st2) \<and>
     r1 = Done \<and> r2 = Panics"
proof -
  let ?e = "\<lparr>en_DeviceID = ''d'', en_Name = ''get_logs'', en_Kind = ''stream'', en_Argument = []\<rparr>"
  obtain r1 st1 where one: "Dispatch sample_cmd_env ?e sample_agent = (r1, st1)" by fastforce
  obtain r2 st2 where two: "Dispatch sample_cmd_env ?e st1 = (r2, st2)" by fastforce
  have "r1 = Done \<and> st1 = sample_agent\<lparr>ag_active := (ag_active sample_agent)(en_Name ?e \<mapsto> NilStop)\<rparr> \<and> r2 = Panics"
    by (rule streamed_one_off_command_panics [OF _ _ _ _ _ one two, of GetLogs])
      (simp_all add: GetHandler_names KindStream_def sample_agent_def)
  then show ?thesis using one two by blast
qed

text \<open>A log request whose reply does not arrive crashes the agent as well.\<close>

lemma get_logs_without_reply_panics:
  assumes "TrimSpace (c_token env) \<noteq> []"
    and "snd (SendAction (c_net env) (c_log_json env) (c_host env) (c_port env) (c_device env) (TrimSpace (c_token env)) ''agent_log''
           (case ag_files st (log_path env) of None \<Rightarrow> to_bytes ''<no log available>'' | Some b \<Rightarrow> b)) = Inl err"
  shows "fst (once_get_logs env st) = Panics"
  using assms by (auto simp: once_get_logs_def Let_def split: prod.splits)

text \<open>A kind that is neither of the two is accepted and nothing is done.\<close>

lemma unknown_kind_is_ignored:
  assumes "en_Kind e \<noteq> []" "en_Kind e \<noteq> KindOnce" "en_Kind e \<noteq> KindStream"
  shows "snd (Dispatch env e st) = st" "fst (Dispatch env e st) \<noteq> Panics"
  using assms by (auto simp: Dispatch_def resolveKind_def Let_def split: option.splits sum.splits)

end
