(* ===== verification/Agent.thy ===== *)
theory Agent
  imports Command
begin

text \<open>
  The agent's start and its lasting connection: configuration (\<open>agent/internal/config\<close>), login and the files it leaves
  (\<open>agent/internal/auth\<close>), registration (\<open>agent/internal/device\<close>, \<open>service.BootstrapDevice\<close>), the connection manager
  (\<open>agent/internal/connection\<close>) and the start sequence of \<open>agent/main.go\<close>.  The configuration file, osquery, the
  network, the terminal and the file system are parameters.
\<close>

subsection \<open>Configuration (config.go)\<close>

record AppConfig =
  BackendHost :: string
  BackendPort :: int
  TokenPath :: string
  LogPath :: string
  OsqueryPath :: string
  MonitorPaths :: "string list"
  DBPath :: string

definition defaultToken :: "string \<Rightarrow> string" where
  "defaultToken tmp = JoinPath [JoinPath [tmp, ''sagiri-guard''], ''agent.token'']"

definition backend_port :: "settings \<Rightarrow> int" where
  "backend_port v =
     (let port = get_or (set_int v) ''agent.backend.port'' 9200
      in if port = 0 then
           (let p = get_or (set_int v) ''agent.backend.tcp'' 0
            in if p \<noteq> 0 then p else get_or (set_int v) ''agent.backend.http'' 0)
         else port)"

definition Init :: "string \<Rightarrow> settings \<Rightarrow> AppConfig" where
  "Init tmp v =
     \<lparr>BackendHost = get_or (set_str v) ''agent.backend.host'' ''127.0.0.1'', BackendPort = backend_port v,
      TokenPath = get_or (set_str v) ''agent.token_path'' (defaultToken tmp),
      LogPath = get_or (set_str v) ''agent.log_path'' [], OsqueryPath = get_or (set_str v) ''agent.osquery_path'' [],
      MonitorPaths = get_or (set_list v) ''agent.monitor_paths'' [],
      DBPath = get_or (set_str v) ''agent.db_path'' (JoinPath [tmp, ''sagiri-guard'', ''agent.db''])\<rparr>"

definition TokenFilePath :: "string \<Rightarrow> AppConfig \<Rightarrow> string" where
  "TokenFilePath tmp cfg =
     (if TokenPath cfg = [] then JoinPath [tmp, ''sagiri-guard'', ''agent.token''] else TokenPath cfg)"

definition BackendHostPort :: "AppConfig \<Rightarrow> string \<times> int" where
  "BackendHostPort cfg = (BackendHost cfg, BackendPort cfg)"

definition BackendAddr :: "AppConfig \<Rightarrow> string" where
  "BackendAddr cfg = BackendHost cfg @ '':'' @ show_int (BackendPort cfg)"

subsection \<open>Identity of the machine (osquery/collector.go)\<close>

record SystemInfo =
  si_UUID :: string
  si_Hostname :: string
  si_CPUBrand :: string
  si_Hardware :: string

record OSVersion =
  os_Name :: string
  os_Version :: string

text \<open>What \<open>osqueryi\<close> answers to a query: nothing in time, an error, or the rows of its JSON output.\<close>

datatype 'r query_result = Timeout | QueryFails string | Rows "'r list"

definition runJSON :: "'r query_result \<Rightarrow> (string, 'r) res" where
  "runJSON r =
     (case r of Timeout \<Rightarrow> Inl ''osquery timeout'' | QueryFails e \<Rightarrow> Inl e
      | Rows rs \<Rightarrow> if length rs = 0 then Inl ''no rows'' else Inr (hd rs))"

definition Collect :: "SystemInfo query_result \<Rightarrow> OSVersion query_result \<Rightarrow> (string, SystemInfo \<times> OSVersion) res" where
  "Collect q1 q2 =
     (case runJSON q1 of
        Inl e \<Rightarrow> Inl e
      | Inr si \<Rightarrow> (case runJSON q2 of Inl e \<Rightarrow> Inl e | Inr osv \<Rightarrow> Inr (si, osv)))"

subsection \<open>Login (auth.go)\<close>

record Credentials =
  cr_Username :: string
  cr_Password :: string
  cr_DeviceID :: string
  cr_Name :: string
  cr_OSName :: string
  cr_OSVersion :: string
  cr_Hostname :: string
  cr_Arch :: string

record TokenResponse =
  tr_AccessToken :: string
  tr_DeviceID :: string

text \<open>
  The state of a start: files, the token and device id the process holds, the token rows of the local database and the
  frames that went out.  Writing a file gives its new content and whether it succeeded.
\<close>

record agent_start =
  w_files :: files
  w_current :: string
  w_token :: string
  w_device :: string
  w_rows :: "string list"
  w_sent :: "frame list"

record start_env =
  e_tmp :: string
  e_cfg :: AppConfig
  e_mkdir :: "string \<Rightarrow> bool"
  e_write :: "string \<Rightarrow> byte list option \<Rightarrow> byte list \<Rightarrow> byte list option \<times> bool"
  e_info :: "(string, SystemInfo \<times> OSVersion) res"
  e_hostname :: string
  e_uuid :: string
  e_net :: "nat \<Rightarrow> action_net"
  e_creds_json :: "string \<Rightarrow> Credentials \<Rightarrow> bytes option"
  e_reply :: "bytes \<Rightarrow> TokenResponse option"
  e_has_db :: bool

definition deviceIDFilePath :: "start_env \<Rightarrow> string" where
  "deviceIDFilePath env = JoinPath [DirPath (TokenFilePath (e_tmp env) (e_cfg env)), ''device.id'']"

definition loadDeviceIDFromDisk :: "start_env \<Rightarrow> agent_start \<Rightarrow> string" where
  "loadDeviceIDFromDisk env w = (case w_files w (deviceIDFilePath env) of None \<Rightarrow> [] | Some b \<Rightarrow> to_string b)"

definition write_file :: "start_env \<Rightarrow> string \<Rightarrow> byte list \<Rightarrow> agent_start \<Rightarrow> bool \<times> agent_start" where
  "write_file env p data w =
     (case e_write env p (w_files w p) data of (content, ok) \<Rightarrow> (ok, w\<lparr>w_files := (w_files w)(p := content)\<rparr>))"

definition saveDeviceID :: "start_env \<Rightarrow> string \<Rightarrow> agent_start \<Rightarrow> agent_start" where
  "saveDeviceID env dev w =
     (if dev = [] then w
      else let p = deviceIDFilePath env
           in if \<not> e_mkdir env (DirPath p) then w else snd (write_file env p (to_bytes dev) w))"

definition saveToken :: "start_env \<Rightarrow> string \<Rightarrow> agent_start \<Rightarrow> bool \<times> agent_start" where
  "saveToken env token w =
     (let p = TokenFilePath (e_tmp env) (e_cfg env)
      in if \<not> e_mkdir env (DirPath p) then (False, w) else write_file env p (to_bytes token) w)"

definition LoadToken :: "start_env \<Rightarrow> agent_start \<Rightarrow> string option" where
  "LoadToken env w = map_option to_string (w_files w (TokenFilePath (e_tmp env) (e_cfg env)))"

definition ClearToken :: "start_env \<Rightarrow> agent_start \<Rightarrow> agent_start" where
  "ClearToken env w = w\<lparr>w_files := (w_files w)(TokenFilePath (e_tmp env) (e_cfg env) := None)\<rparr>"

text \<open>The identifier is the machine's, else the one of an earlier login, else the host name, else a fresh one.\<close>

definition login_creds :: "start_env \<Rightarrow> string \<Rightarrow> string \<Rightarrow> string \<Rightarrow> Credentials" where
  "login_creds env cachedID username password =
     (let c0 = \<lparr>cr_Username = username, cr_Password = password, cr_DeviceID = [], cr_Name = [], cr_OSName = [],
                cr_OSVersion = [], cr_Hostname = [], cr_Arch = []\<rparr>;
          c1 = (case e_info env of
                  Inl e \<Rightarrow> c0
                | Inr (si, osv) \<Rightarrow> c0\<lparr>cr_DeviceID := si_UUID si, cr_Name := si_Hardware si, cr_Hostname := si_Hostname si,
                    cr_Arch := si_CPUBrand si, cr_OSName := os_Name osv, cr_OSVersion := os_Version osv\<rparr>);
          c2 = (if cr_DeviceID c1 = [] \<and> cachedID \<noteq> [] then c1\<lparr>cr_DeviceID := cachedID\<rparr> else c1)
      in if cr_DeviceID c2 = [] then c2\<lparr>cr_DeviceID := (if e_hostname env \<noteq> [] then e_hostname env else e_uuid env)\<rparr> else c2)"

datatype start_error =
    LoginNet agent_error | LoginRefused "16 word" | InvalidLoginResponse | TokenNotSaved | MissingCredentials
  | Unauthorized | OsqueryFailed string | RegisterNet agent_error | RegisterRefused "16 word"

text \<open>\<open>k\<close> numbers the connections of the start, for the network's answers.\<close>

definition Login ::
    "start_env \<Rightarrow> nat \<Rightarrow> string \<Rightarrow> string \<Rightarrow> agent_start \<Rightarrow> (start_error, string \<times> string) res \<times> agent_start" where
  "Login env k username password w =
     (let creds = login_creds env (loadDeviceIDFromDisk env w) username password;
          (host, port) = BackendHostPort (e_cfg env)
      in case SendAction (e_net env k) (e_creds_json env) host port (cr_DeviceID creds) [] ''login'' creds of
           (out, r) \<Rightarrow>
             (let w1 = w\<lparr>w_sent := w_sent w @ out\<rparr>
              in case r of
                   Inl e \<Rightarrow> (Inl (LoginNet e), w1)
                 | Inr m \<Rightarrow>
                     if Type m \<noteq> MSG_ACK \<or> StatusCode m \<noteq> 200 then (Inl (LoginRefused (StatusCode m)), w1)
                     else (case e_reply env (StatusMsg m) of
                             None \<Rightarrow> (Inl InvalidLoginResponse, w1)
                           | Some tr \<Rightarrow>
                               if tr_AccessToken tr = [] then (Inl InvalidLoginResponse, w1)
                               else
                                 let w2 = (if e_has_db env then w1\<lparr>w_rows := w_rows w1 @ [tr_AccessToken tr]\<rparr> else w1);
                                     (ok, w3) = saveToken env (tr_AccessToken tr) w2
                                 in if \<not> ok then (Inl TokenNotSaved, w3)
                                    else
                                      let w4 = saveDeviceID env (cr_DeviceID creds) (w3\<lparr>w_current := tr_AccessToken tr\<rparr>);
                                          w5 = (if tr_DeviceID tr \<noteq> []
                                                then saveDeviceID env (tr_DeviceID tr) (w4\<lparr>w_device := tr_DeviceID tr\<rparr>)
                                                else w4\<lparr>w_device := cr_DeviceID creds\<rparr>)
                                      in (Inr (tr_AccessToken tr, tr_DeviceID tr), w5))))"

subsection \<open>Registration (device/client.go, service.go)\<close>

record Info =
  in_UUID :: string
  in_Name :: string
  in_OSName :: string
  in_OSVersion :: string
  in_Hostname :: string
  in_Arch :: string

text \<open>The decoded answer is dropped by the only caller; its status code is kept.\<close>

definition Register ::
    "action_net \<Rightarrow> (string \<Rightarrow> Info \<Rightarrow> bytes option) \<Rightarrow> string \<Rightarrow> int \<Rightarrow> string \<Rightarrow> Info \<Rightarrow>
     frame list \<times> (start_error \<times> 16 word, 16 word) res" where
  "Register net marshal host port token d =
     (case SendAction net marshal host port (in_UUID d) token ''device_register'' d of
        (out, Inl e) \<Rightarrow> (out, Inl (RegisterNet e, 0))
      | (out, Inr m) \<Rightarrow>
          if Type m \<noteq> MSG_ACK \<or> StatusCode m \<noteq> 200 then (out, Inl (RegisterRefused (StatusCode m), StatusCode m))
          else (out, Inr (StatusCode m)))"

definition boot_uuid :: "string \<Rightarrow> SystemInfo \<Rightarrow> string" where
  "boot_uuid deviceID si =
     (if deviceID = [] then (if si_UUID si = [] then si_Hostname si else si_UUID si) else deviceID)"

text \<open>
  The result is the device's identifier; \<open>monitor\<close> is the platform's \<open>NewFileMonitor\<close> and what it gives is watched from
  then on, each event going to \<open>on_file_event\<close>.
\<close>

definition BootstrapDevice ::
    "start_env \<Rightarrow> (string \<Rightarrow> Info \<Rightarrow> bytes option) \<Rightarrow> (string list \<Rightarrow> (string, 'm) res) \<Rightarrow> nat \<Rightarrow> string \<Rightarrow> string \<Rightarrow> agent_start \<Rightarrow>
     (start_error, string \<times> 'm option) res \<times> agent_start" where
  "BootstrapDevice env marshal monitor k token deviceID w =
     (case e_info env of
        Inl e \<Rightarrow> (Inl (OsqueryFailed e), w)
      | Inr (si, osv) \<Rightarrow>
          let dev = \<lparr>in_UUID = boot_uuid deviceID si, in_Name = si_Hardware si, in_OSName = os_Name osv, in_OSVersion = os_Version osv,
                     in_Hostname = si_Hostname si, in_Arch = si_CPUBrand si\<rparr>;
              (host, port) = BackendHostPort (e_cfg env);
              (out, r) = Register (e_net env k) marshal host port token dev;
              w1 = w\<lparr>w_sent := w_sent w @ out\<rparr>
          in case r of
               Inl (e, code) \<Rightarrow> (Inl (if code = 401 then Unauthorized else e), w1)
             | Inr _ \<Rightarrow>
                 (Inr (in_UUID dev,
                       if length (MonitorPaths (e_cfg env)) > 0
                       then (case monitor (MonitorPaths (e_cfg env)) of Inl e \<Rightarrow> None | Inr fm \<Rightarrow> Some fm) else None), w1))"

subsection \<open>The connection manager (connection/manager.go)\<close>

record Manager =
  g_host :: string
  g_port :: int
  g_deviceID :: string
  g_token :: string
  g_client :: "TCPClient option"
  g_stopped :: bool

definition NewManager :: "string \<Rightarrow> int \<Rightarrow> string \<Rightarrow> string \<Rightarrow> Manager" where
  "NewManager host port deviceID token =
     \<lparr>g_host = host, g_port = port, g_deviceID = deviceID, g_token = token, g_client = None, g_stopped = False\<rparr>"

definition maxDelay :: time where "maxDelay = 30 * second"

text \<open>
  \<open>time.Duration(float64(delay) * 1.5)\<close>: a delay below \<open>2\<^sup>5\<^sup>2\<close> ns (52 days) is exact as a float, and the
  conversion back truncates towards zero; anything longer than 20 s is cut to \<open>maxDelay\<close> anyway.
\<close>

definition next_delay :: "time \<Rightarrow> time" where
  "next_delay d = (let d' = (if d \<ge> 0 then d * 3 div 2 else - (- d * 3 div 2)) in if d' > maxDelay then maxDelay else d')"

text \<open>What the network does with the attempts: the socket of a connect, and whether the login frame goes out.\<close>

record dial_net =
  d_connect :: "nat \<Rightarrow> string \<Rightarrow> int \<Rightarrow> int"
  d_login :: "nat \<Rightarrow> bool"

definition attempt :: "dial_net \<Rightarrow> Manager \<Rightarrow> nat \<Rightarrow> (net_error, TCPClient) res" where
  "attempt net m i =
     (case DialTCP (d_connect net i) (g_host m) (g_port m) of
        Inl e \<Rightarrow> Inl e
      | Inr client \<Rightarrow>
          (case SendLogin (d_login net i) (Some client) (to_bytes (g_deviceID m)) (to_bytes (g_token m)) of
             Inl e \<Rightarrow> Inl e
           | Inr _ \<Rightarrow> Inr client))"

text \<open>The result, and the delays that were slept.\<close>

function connect_loop ::
    "dial_net \<Rightarrow> int \<Rightarrow> nat \<Rightarrow> time \<Rightarrow> Manager \<Rightarrow> (net_error option \<times> Manager) \<times> time list" where
  "connect_loop net max_retries retryCount delay m =
     (case attempt net m retryCount of
        Inr client \<Rightarrow> ((None, m\<lparr>g_client := Some client\<rparr>), [])
      | Inl e \<Rightarrow>
          if int (Suc retryCount) \<ge> max_retries then ((Some e, m), [])
          else case connect_loop net max_retries (Suc retryCount) (next_delay delay) m of
                 (r, sleeps) \<Rightarrow> (r, delay # sleeps))"
  by pat_completeness auto
termination
  by (relation "measure (\<lambda>(net, n, k, d, m). nat (n - int k))") auto

declare connect_loop.simps [simp del]

definition Connect :: "dial_net \<Rightarrow> int \<Rightarrow> time \<Rightarrow> Manager \<Rightarrow> (net_error option \<times> Manager) \<times> time list" where
  "Connect net max_retries baseDelay m = connect_loop net max_retries 0 baseDelay m"

datatype send_error = NotConnected | MarshalPayload | SendCommandError net_error

definition Send :: "bool \<Rightarrow> (string \<Rightarrow> 'd \<Rightarrow> bytes option) \<Rightarrow> string \<Rightarrow> 'd \<Rightarrow> Manager \<Rightarrow> (send_error, frame) res" where
  "Send sent marshal action data m =
     (case g_client m of
        None \<Rightarrow> Inl NotConnected
      | Some client \<Rightarrow>
          (case marshal action data of
             None \<Rightarrow> Inl MarshalPayload
           | Some b \<Rightarrow>
               (case SendCommand sent (Some client) b of
                  Inl e \<Rightarrow> Inl (SendCommandError e)
                | Inr _ \<Rightarrow> Inr (FCommand b))))"

text \<open>
  One turn of the receive loop that finds \<open>stopCh\<close> open: the bytes still to come on the socket are given; an error is logged
  and the loop goes on.
\<close>

definition receive_once :: "cmd_env \<Rightarrow> Manager \<Rightarrow> bytes \<Rightarrow> agent_state \<Rightarrow> run_result \<times> bytes \<times> agent_state" where
  "receive_once env m s st =
     (case g_client m of
        None \<Rightarrow> (Done, s, st)
      | Some client \<Rightarrow>
          (case RecvProtocolMessage (Some client) s of
             Inl e \<Rightarrow> (Done, s, st)
           | Inr (msg, s') \<Rightarrow>
               if Type msg = MSG_COMMAND \<and> length (CommandJSON msg) > 0
               then (case Command.HandleMessage env (CommandJSON msg) st of (r, st') \<Rightarrow> (r, s', st'))
               else (Done, s', st)))"

text \<open>Closing \<open>stopCh\<close> a second time panics (\<open>None\<close>).\<close>

definition CloseManager :: "bool \<Rightarrow> Manager \<Rightarrow> (net_error option \<times> Manager) option" where
  "CloseManager close_ok m =
     (if g_stopped m then None
      else case g_client m of
             None \<Rightarrow> Some (None, m\<lparr>g_stopped := True\<rparr>)
           | Some client \<Rightarrow> Some (fst (Close close_ok (Some client)), m\<lparr>g_stopped := True, g_client := None\<rparr>))"

definition IsConnected :: "Manager \<Rightarrow> bool" where
  "IsConnected m \<longleftrightarrow> g_client m \<noteq> None"

subsection \<open>The start sequence (agent/main.go)\<close>

text \<open>
  Before anything else: the user id, the network library, the database file and its tables, and on request a restart with more
  rights; an error of that request is logged and the agent goes on.
\<close>

datatype preflight = NotRoot | NetworkFailed | DatabaseFailed | MigrationFailed | Relaunched | Ready

definition agent_preflight :: "nat \<Rightarrow> bool \<Rightarrow> bool \<Rightarrow> bool \<Rightarrow> bool \<Rightarrow> bool \<Rightarrow> (string, bool) res \<Rightarrow> preflight" where
  "agent_preflight euid net_ok db_ok migrate_ok elevate elevated attempted =
     (if euid \<noteq> 0 then NotRoot
      else if \<not> net_ok then NetworkFailed
      else if \<not> db_ok then DatabaseFailed
      else if \<not> migrate_ok then MigrationFailed
      else if elevate \<and> \<not> elevated \<and> attempted = Inr True then Relaunched
      else Ready)"

text \<open>The lines typed at the terminal; at its end both names are empty.\<close>

definition PromptCredentials :: "(string \<times> string) list \<Rightarrow> (string \<times> string) option \<times> (string \<times> string) list" where
  "PromptCredentials typed =
     (let (u, p) = (case typed of [] \<Rightarrow> ([], []) | up # _ \<Rightarrow> up); u' = TrimSpace u; p' = TrimSpace p
      in (if u' = [] \<or> p' = [] then None else Some (u', p'), tl typed))"

definition promptLogin ::
    "start_env \<Rightarrow> nat \<Rightarrow> (string \<times> string) list \<Rightarrow> agent_start \<Rightarrow> (start_error, string \<times> string) res \<times> agent_start" where
  "promptLogin env k typed w =
     (case fst (PromptCredentials typed) of
        None \<Rightarrow> (Inl MissingCredentials, w)
      | Some (u, p) \<Rightarrow> Login env k u p w)"

definition loadOrPromptToken ::
    "start_env \<Rightarrow> (string \<times> string) list \<Rightarrow> agent_start \<Rightarrow> (start_error, string \<times> string) res \<times> agent_start \<times> (string \<times> string) list" where
  "loadOrPromptToken env typed w =
     (case LoadToken env w of
        Some existing \<Rightarrow>
          if TrimSpace existing \<noteq> [] then (Inr (TrimSpace existing, w_device w), w, typed)
          else (let (r, w') = promptLogin env 0 typed w in (r, w', tl typed))
      | None \<Rightarrow> (let (r, w') = promptLogin env 0 typed w in (r, w', tl typed)))"

definition adopt :: "string \<Rightarrow> string \<Rightarrow> agent_start \<Rightarrow> agent_start" where
  "adopt token deviceID w =
     (let w' = w\<lparr>w_current := token, w_token := token\<rparr>
      in if deviceID \<noteq> [] then w'\<lparr>w_device := deviceID\<rparr> else w')"

text \<open>
  The loop around \<open>BootstrapDevice\<close>: a refused token is cleared and the user is asked again, once per pair of lines that
  is left, until the terminal ends (a login without a typed name fails, so the test for an empty list only shows that the
  loop ends).
\<close>

function bootstrap_loop ::
    "start_env \<Rightarrow> (string \<Rightarrow> Info \<Rightarrow> bytes option) \<Rightarrow> (string list \<Rightarrow> (string, 'm) res) \<Rightarrow> nat \<Rightarrow> (string \<times> string) list \<Rightarrow>
     string \<Rightarrow> string \<Rightarrow> agent_start \<Rightarrow> (start_error, string \<times> string \<times> 'm option) res \<times> agent_start" where
  "bootstrap_loop env marshal monitor k typed token deviceID w =
     (case BootstrapDevice env marshal monitor k token deviceID w of
        (Inr (uuid, fm), w1) \<Rightarrow> (Inr (uuid, token, fm), w1\<lparr>w_device := uuid\<rparr>)
      | (Inl Unauthorized, w1) \<Rightarrow>
          (case promptLogin env (Suc k) typed (ClearToken env w1) of
             (Inl e, w2) \<Rightarrow> (Inl e, w2)
           | (Inr (token', deviceID'), w2) \<Rightarrow>
               if typed = [] then (Inl MissingCredentials, w2)
               else bootstrap_loop env marshal monitor (k + 2) (tl typed) token' deviceID' (adopt token' deviceID' w2))
      | (Inl e, w1) \<Rightarrow> (Inl e, w1))"
  by pat_completeness auto
termination
  by (relation "measure (\<lambda>(env, ma, mo, k, typed, t, d, w). length typed)") auto

declare bootstrap_loop.simps [simp del]

definition start_agent ::
    "start_env \<Rightarrow> (string \<Rightarrow> Info \<Rightarrow> bytes option) \<Rightarrow> (string list \<Rightarrow> (string, 'm) res) \<Rightarrow> (string \<times> string) list \<Rightarrow> agent_start \<Rightarrow>
     (start_error, Manager \<times> 'm option) res \<times> agent_start" where
  "start_agent env marshal monitor typed w =
     (case loadOrPromptToken env typed w of
        (Inl e, w1, _) \<Rightarrow> (Inl e, w1)
      | (Inr (token, deviceID), w1, typed') \<Rightarrow>
          (case bootstrap_loop env marshal monitor 1 typed' token deviceID (adopt token deviceID w1) of
             (Inl e, w2) \<Rightarrow> (Inl e, w2)
           | (Inr (uuid, token', fm), w2) \<Rightarrow>
               (Inr (NewManager (BackendHost (e_cfg env)) (BackendPort (e_cfg env)) uuid token', fm), w2)))"

subsection \<open>Connecting\<close>

lemma connect_loop_result:
  assumes "connect_loop net n k d m = ((err, m'), sleeps)"
  shows "sleeps = map (\<lambda>j. (next_delay ^^ j) d) [0..<length sleeps] \<and>
    (\<forall>j<length sleeps. \<exists>e. attempt net m (k + j) = Inl e) \<and> (sleeps \<noteq> [] \<longrightarrow> int (k + length sleeps) < n) \<and>
    (case err of None \<Rightarrow> \<exists>c. attempt net m (k + length sleeps) = Inr c \<and> m' = m\<lparr>g_client := Some c\<rparr>
     | Some e \<Rightarrow> attempt net m (k + length sleeps) = Inl e \<and> m' = m \<and> n \<le> int (Suc (k + length sleeps)))"
  using assms
proof (induction net n k d m arbitrary: sleeps rule: connect_loop.induct)
  case (1 net n k d m)
  show ?case
  proof (cases "attempt net m k")
    case (Inr c)
    then show ?thesis using 1(2) by (auto simp: connect_loop.simps [of net n k d m])
  next
    case fails: (Inl e)
    show ?thesis
    proof (cases "n \<le> int (Suc k)")
      case True
      then show ?thesis using 1(2) fails by (auto simp: connect_loop.simps [of net n k d m])
    next
      case more: False
      then obtain rest where s: "sleeps = d # rest"
        and r: "connect_loop net n (Suc k) (next_delay d) m = ((err, m'), rest)"
        using 1(2) fails by (auto simp: connect_loop.simps [of net n k d m] split: prod.splits)
      note ih = 1(1) [OF fails more r]
      have "map (\<lambda>j. (next_delay ^^ j) d) [0..<length sleeps] = d # map (\<lambda>j. (next_delay ^^ j) (next_delay d)) [0..<length rest]"
        by (simp add: s upt_conv_Cons map_Suc_upt [symmetric] o_def funpow_swap1 del: upt_Suc)
      moreover have "\<exists>e. attempt net m (k + j) = Inl e" if "j < length sleeps" for j
        using that ih fails by (cases j) (auto simp: s)
      moreover have "int (k + length sleeps) < n" using ih more by (cases "rest = []") (auto simp: s)
      ultimately show ?thesis using ih by (cases err) (auto simp: s)
    qed
  qed
qed

lemma next_delay_grows:
  assumes "0 \<le> d" "d \<le> maxDelay"
  shows "d \<le> next_delay d" "next_delay d \<le> maxDelay"
  using assms by (auto simp: next_delay_def Let_def)

lemma delays_grow:
  assumes "0 \<le> d" "d \<le> maxDelay" "i \<le> j"
  shows "(next_delay ^^ i) d \<le> (next_delay ^^ j) d" "d \<le> (next_delay ^^ i) d" "(next_delay ^^ j) d \<le> maxDelay"
proof -
  have bounds: "d \<le> (next_delay ^^ k) d \<and> (next_delay ^^ k) d \<le> maxDelay" for k
  proof (induction k)
    case (Suc k)
    then show ?case using next_delay_grows [of "(next_delay ^^ k) d"] assms(1) by auto
  qed (use assms in simp)
  then show "d \<le> (next_delay ^^ i) d" "(next_delay ^^ j) d \<le> maxDelay" by auto
  have step: "(next_delay ^^ k) d \<le> (next_delay ^^ Suc k) d" for k
    using next_delay_grows(1) [of "(next_delay ^^ k) d"] bounds [of k] assms(1) by simp
  show "(next_delay ^^ i) d \<le> (next_delay ^^ j) d"
    using lift_Suc_mono_le [of "\<lambda>k. (next_delay ^^ k) d"] step assms(3) by blast
qed



subsection \<open>Receiving\<close>

text \<open>The receive loop for \<open>n\<close> turns; a panic of a command ends the agent.\<close>

fun receive_turns :: "cmd_env \<Rightarrow> Manager \<Rightarrow> nat \<Rightarrow> bytes \<Rightarrow> agent_state \<Rightarrow> run_result \<times> bytes \<times> agent_state" where
  "receive_turns env m 0 s st = (Done, s, st)"
| "receive_turns env m (Suc n) s st =
     (case receive_once env m s st of
        (r, s', st') \<Rightarrow> if r = Panics then (Panics, s', st') else receive_turns env m n s' st')"

text \<open>What should happen: the commands among the frames, in their order.\<close>

fun run_commands :: "cmd_env \<Rightarrow> frame list \<Rightarrow> agent_state \<Rightarrow> run_result \<times> agent_state" where
  "run_commands env [] st = (Done, st)"
| "run_commands env (FCommand j # fs) st =
     (if j = [] then run_commands env fs st
      else case Command.HandleMessage env j st of
             (r, st') \<Rightarrow> if r = Panics then (Panics, st') else run_commands env fs st')"
| "run_commands env (f # fs) st = run_commands env fs st"

lemma frame_view_command_iff:
  assumes "frame_view msg = Some f"
  shows "f = FCommand j \<longleftrightarrow> Type msg = MSG_COMMAND \<and> CommandJSON msg = j"
  using assms by (auto simp: frame_view_def msg_types split: if_splits option.splits)

lemma run_commands_cons:
  "run_commands env (f # fs) st =
     (case (case f of FCommand j \<Rightarrow> if j = [] then (Done, st) else Command.HandleMessage env j st | _ \<Rightarrow> (Done, st)) of
        (r, st') \<Rightarrow> if r = Panics then (Panics, st') else run_commands env fs st')"
  by (cases f) auto

lemma receive_once_frame:
  assumes "IsOpen (g_client m)" "wire_frame f" "send_frame f = Some b"
  shows "receive_once env m (b @ rest) st =
    (case (case f of FCommand j \<Rightarrow> if j = [] then (Done, st) else Command.HandleMessage env j st | _ \<Rightarrow> (Done, st)) of
       (r, st') \<Rightarrow> (r, rest, st'))"
proof -
  obtain client where c: "g_client m = Some client" using assms(1) by (auto simp: IsOpen_def split: option.splits)
  have "recv_frame (b @ rest) = Some (f, rest)" by (rule wire.dec_enc [OF assms(2,3)])
  then obtain msg where msg: "recv_go (b @ rest) = Some (msg, rest)" "frame_view msg = Some f"
    by (auto simp: recv_frame_def split: option.splits)
  have recv: "RecvProtocolMessage (Some client) (b @ rest) = Inr (msg, rest)"
    using assms(1) msg(1) by (simp add: RecvProtocolMessage_def c)
  show ?thesis
  proof (cases "Type msg = MSG_COMMAND")
    case True
    then have "f = FCommand (CommandJSON msg)" using frame_view_command_iff [OF msg(2)] by blast
    with True show ?thesis by (simp add: receive_once_def c recv)
  next
    case False
    then have "\<forall>j. f \<noteq> FCommand j" using frame_view_command_iff [OF msg(2)] by blast
    with False show ?thesis by (cases f) (auto simp: receive_once_def c recv)
  qed
qed

lemma receive_once_eof: "receive_once env m [] st = (Done, [], st)"
  by (simp add: receive_once_def RecvProtocolMessage_def recv_go_def protocol_recv_message_def split: option.splits)

lemma receive_turns_eof: "receive_turns env m n [] st = (Done, [], st)"
  by (induction n) (simp_all add: receive_once_eof)

text \<open>
  C36: the receive loop runs exactly the commands that arrive.  When the backend's frames come in on an open connection that
  then ends, any number of turns that is large enough has handed each command to the dispatcher once, in the order
  sent, with every other kind of frame skipped, unless a command panics, which ends the agent at that command.  No further turn
  has any effect: the manager keeps the dead connection and never dials again, so an agent that lost its connection obeys no
  command until it is restarted.
\<close>
theorem received_commands_run_in_order:
  assumes open_: "IsOpen (g_client m)" and wire: "\<forall>f\<in>set fs. wire_frame f" and sent: "encode_stream send_frame fs = Some bs"
    and turns: "length fs \<le> n" and run: "receive_turns env m n bs st = (r, rest, st')"
  shows "run_commands env fs st = (r, st') \<and> (r \<noteq> Panics \<longrightarrow> rest = [])"
  using wire sent turns run
proof (induction fs arbitrary: bs n st)
  case Nil
  then show ?case by (simp add: receive_turns_eof)
next
  case (Cons f fs)
  obtain b c where b: "send_frame f = Some b" and c: "encode_stream send_frame fs = Some c" and bs: "bs = b @ c"
    using Cons.prems(2) by (auto split: option.splits)
  obtain k where n: "n = Suc k" "length fs \<le> k" using Cons.prems(3) by (cases n) auto
  let ?step = "case f of FCommand j \<Rightarrow> if j = [] then (Done, st) else Command.HandleMessage env j st | _ \<Rightarrow> (Done, st)"
  obtain r1 st1 where step: "?step = (r1, st1)" by (cases ?step) blast
  have once: "receive_once env m bs st = (r1, c, st1)"
    using receive_once_frame [OF open_ _ b, of env c st] Cons.prems(1) by (simp add: bs step)
  show ?case
  proof (cases "r1 = Panics")
    case True
    then show ?thesis using Cons.prems(4) once by (simp add: n run_commands_cons step)
  next
    case False
    then have "receive_turns env m k c st1 = (r, rest, st')" using Cons.prems(4) once by (simp add: n)
    then show ?thesis using Cons.IH [OF _ c n(2)] Cons.prems(1) False by (simp add: run_commands_cons step)
  qed
qed

theorem received_commands_run_in_order_witness:
  "\<exists>bs env st'. encode_stream send_frame [FAck 200 [], FCommand [123], FCommand [123]] = Some bs \<and>
     receive_turns env ((NewManager ''h'' 1 ''d'' ''t'')\<lparr>g_client := Some \<lparr>fd = 7\<rparr>\<rparr>) 9 bs sample_agent = (Done, [], st') \<and>
     \<not> IsBackupEnabled (ag_backup st')"
proof -
  let ?fs = "[FAck 200 [], FCommand [123], FCommand [123]]" and ?m = "(NewManager ''h'' 1 ''d'' ''t'')\<lparr>g_client := Some \<lparr>fd = 7\<rparr>\<rparr>"
  let ?e = "\<lparr>en_DeviceID = ''d'', en_Name = ''backup_auto'', en_Kind = [], en_Argument = [1]\<rparr>"
  let ?env = "sample_cmd_env\<lparr>j_envelope := \<lambda>_. Some ?e, j_auto := \<lambda>_. Some (Some False)\<rparr>"
  obtain bs where bs: "encode_stream send_frame ?fs = Some bs"
    by (simp add: protocol_send_ack_def protocol_send_command_def protocol_send_frame_def PROTOCOL_MAX_PAYLOAD_def
        PROTOCOL_MAX_MESSAGE_def be16_def cstr_def Let_def)
  obtain r rest st' where run: "receive_turns ?env ?m 9 bs sample_agent = (r, rest, st')" by (metis surj_pair)
  have "run_commands ?env ?fs sample_agent = (r, st') \<and> (r \<noteq> Panics \<longrightarrow> rest = [])"
    by (rule received_commands_run_in_order [OF _ _ bs _ run]) (simp_all add: IsOpen_def INVALID_SOCKET_def nul_free_def)
  moreover have line: "TrimSpace (to_string [123]) \<noteq> []" by code_simp
  have disable: "\<exists>s'. Command.HandleMessage ?env [123] s = (Done, s') \<and> \<not> IsBackupEnabled (ag_backup s') \<and>
      ag_active s' ''backup_auto'' = Some StopBackup"
    if "ag_active s ''backup_auto'' = None \<or> ag_active s ''backup_auto'' = Some StopBackup" for s
    using that line
    by (auto simp: Command.HandleMessage_def Dispatch_def GetHandler_names resolveKind_def KindOnce_def KindStream_def start_stream_def
        decode_backup_auto_def SetBackupEnabled_def IsBackupEnabled_def to_bytes_def)
  obtain s1 where s1: "Command.HandleMessage ?env [123] sample_agent = (Done, s1)" "ag_active s1 ''backup_auto'' = Some StopBackup"
    using disable [of sample_agent] by (auto simp: sample_agent_def)
  obtain s2 where s2: "Command.HandleMessage ?env [123] s1 = (Done, s2)" "\<not> IsBackupEnabled (ag_backup s2)"
    using disable [OF disjI2, OF s1(2)] by blast
  have "run_commands ?env ?fs sample_agent = (Done, s2)" using s1(1) s2(1) by simp
  ultimately have "r = Done" "rest = []" "st' = s2" by simp_all
  with bs run s2(2) show ?thesis by blast
qed

subsection \<open>Identity after a restart\<close>

text \<open>
  The identifier that a login left on disk is read by the next login only: an agent that finds its token starts under the
  machine's identifier or, without one, under its host name, whatever \<open>device.id\<close> says.
\<close>

lemma restart_ignores_saved_device_id:
  assumes "LoadToken env w = Some t" "TrimSpace t \<noteq> []" "w_device w = []" "e_info env = Inr (si, osv)"
    and "loadOrPromptToken env typed w = (Inr (token, deviceID), w1, typed')"
    and "BootstrapDevice env marshal monitor k token deviceID w2 = (Inr (uuid, fm), w3)"
  shows "uuid = (if si_UUID si = [] then si_Hostname si else si_UUID si)"
  using assms
  by (auto simp: loadOrPromptToken_def BootstrapDevice_def boot_uuid_def BackendHostPort_def Let_def
      split: prod.splits sum.splits if_splits)

subsection \<open>Shutting down (main.go)\<close>

definition shutdown :: "cmd_env \<Rightarrow> agent_state \<Rightarrow> agent_state" where
  "shutdown env st =
     (if IsEnabled (ag_hosts st)
      then (case SetEnabled (c_ord env) (c_hosts env) False (ag_hosts st) (ag_hostfs st) of (e, h, fs) \<Rightarrow> st\<lparr>ag_hosts := h, ag_hostfs := fs\<rparr>)
      else st)"

text \<open>Whatever was blocked, the hosts file has the user's lines again when the agent ends on a signal.\<close>

lemma shutdown_in_step:
  assumes "any_order (c_ord env)" "io_ok (c_hosts env)" "user_lines U" "in_step (c_ord env) U (ag_hosts st) (ag_hostfs st)"
  shows "in_step (c_ord env) U (ag_hosts (shutdown env st)) (ag_hostfs (shutdown env st))" "\<not> enabled (ag_hosts (shutdown env st))"
proof -
  let ?h = "(ag_hosts st)\<lparr>enabled := False\<rparr>"
  have "in_step (c_ord env) U ?h (snd (removeBlocks (c_hosts env) (ag_hostfs st)))"
    using removeBlocks_in_step(2) [OF assms, of ?h] assms(4) by (simp add: in_step_def)
  then show "in_step (c_ord env) U (ag_hosts (shutdown env st)) (ag_hostfs (shutdown env st))"
    "\<not> enabled (ag_hosts (shutdown env st))"
    using assms(4) by (simp_all add: shutdown_def IsEnabled_def SetEnabled_def case_prod_beta Let_def)
qed

lemma shutdown_restores_hosts_file:
  assumes "any_order (c_ord env)" "io_ok (c_hosts env)" "user_lines U" "in_step (c_ord env) U (ag_hosts st) (ag_hostfs st)"
  shows "hosts_file (ag_hostfs (shutdown env st)) = Some (unlines U) \<and> \<not> enabled (ag_hosts (shutdown env st))"
  using shutdown_in_step [OF assms] by (simp add: in_step_def section_of_def)

subsection \<open>The manager as the synchronisation's connection\<close>

definition sends_changes :: "bool \<Rightarrow> (string \<Rightarrow> FileChange list \<Rightarrow> bytes option) \<Rightarrow> Manager \<Rightarrow> FileChange list \<Rightarrow> bool" where
  "sends_changes sent marshal m cs = (case Send sent marshal ''filetree_sync'' cs m of Inl e \<Rightarrow> False | Inr f \<Rightarrow> True)"

lemma manager_is_sender: "connection_sender (sends_changes sent marshal) IsConnected"
  by unfold_locales (auto simp: sends_changes_def Send_def IsConnected_def split: option.splits sum.splits)

interpretation manager: connection_sender "sends_changes True (\<lambda>action cs. Some (to_bytes action))" IsConnected
  by (rule manager_is_sender)

text \<open>No change is lost while the manager has no connection.\<close>

lemma disconnected_sync_loses_nothing:
  assumes "gorm_sound db" "y_db env = Some db" "g_client m = None"
    and "syncFileTreeOnce (env\<lparr>y_send := sends_changes sent marshal m\<rparr>) rows = (e, changes, rows')"
  shows "changes = [] \<and> map mf_ChangePending rows' = map mf_ChangePending rows"
proof -
  have "\<not> IsConnected m" using assms(3) by (simp add: IsConnected_def)
  from connection_sender.offline_sync_loses_nothing [OF manager_is_sender assms(1,2) this assms(4)] show ?thesis by blast
qed

end
