(* ===== verification/Threads.thy ===== *)
theory Threads
  imports Agent
begin

text \<open>
  The goroutines of the agent and the channels they share: the file monitor's workers, the goroutine that closes its event
  channel and the callers of \<open>Close\<close> (\<open>agent/internal/monitor\<close>), and the receive loop beside the main goroutine when the agent
  shuts down (\<open>agent/main.go\<close>, \<open>agent/internal/connection\<close>).  Both are step relations over all interleavings.
\<close>

subsection \<open>The file monitor's goroutines (MonitorFiles, Close)\<close>

text \<open>
  A worker (\<open>streamDirectory\<close> for each target on Windows, \<open>processEvents\<close> on Linux) waits for something to read, or has an event
  to send, or has returned.  A call of \<open>Close\<close> is before \<open>once.Do\<close>, inside its function, behind it, or has returned.
\<close>

datatype mon_worker = Watching | Emitting FileEvent | Returned

datatype close_call = NotCalled | Entering | InOnce | BehindOnce | CloseReturned

datatype once_state = Fresh | Busy nat | Finished

record mon_threads =
  mt_stop :: bool
  mt_once :: once_state
  mt_wg :: nat
  mt_workers :: "mon_worker list"
  mt_out_closed :: bool
  mt_panics :: bool
  mt_calls :: "nat \<Rightarrow> close_call"

datatype mon_event =
    Observe nat FileEvent
  | Emit nat
  | WorkerReturns nat
  | WorkerFails nat
  | CloseOut
  | CallClose nat
  | RunOnce nat
  | LeaveOnce nat
  | SkipOnce nat
  | AwaitWorkers nat

text \<open>\<open>MonitorFiles\<close> adds each worker to the wait group before it starts it, and starts the goroutine that closes the channel.\<close>

definition MonitorFiles :: "nat \<Rightarrow> mon_threads" where
  "MonitorFiles n = \<lparr>mt_stop = False, mt_once = Fresh, mt_wg = n, mt_workers = replicate n Watching, mt_out_closed = False,
     mt_panics = False, mt_calls = (\<lambda>_. NotCalled)\<rparr>"

text \<open>On Linux there is one worker.\<close>

definition MonitorFiles_linux :: mon_threads where "MonitorFiles_linux = MonitorFiles 1"

text \<open>
  \<open>wait_inside\<close> tells whether \<open>Close\<close> waits for the workers inside \<open>once.Do\<close> (Windows) or behind it (Linux).  A worker may see
  another event although \<open>stop\<close> is closed: Go's \<open>select\<close> chooses among the ready cases, and a call that is waiting in the
  operating system still delivers.  It returns because of \<open>stop\<close>, or at any time because of an error.  A send on a closed channel, a second
  close and a wait group below zero are panics.
\<close>

definition after_once :: "bool \<Rightarrow> close_call" where
  "after_once wait_inside = (if wait_inside then CloseReturned else BehindOnce)"

inductive mon_step :: "bool \<Rightarrow> mon_threads \<Rightarrow> mon_event \<Rightarrow> mon_threads \<Rightarrow> bool" for wait_inside where
  observe: "i < length (mt_workers s) \<Longrightarrow> mt_workers s ! i = Watching \<Longrightarrow> \<not> mt_panics s \<Longrightarrow>
    mon_step wait_inside s (Observe i e) (s\<lparr>mt_workers := (mt_workers s)[i := Emitting e]\<rparr>)"
| emit: "i < length (mt_workers s) \<Longrightarrow> mt_workers s ! i = Emitting e \<Longrightarrow> \<not> mt_panics s \<Longrightarrow>
    mon_step wait_inside s (Emit i) (s\<lparr>mt_workers := (mt_workers s)[i := Watching], mt_panics := mt_out_closed s\<rparr>)"
| return: "i < length (mt_workers s) \<Longrightarrow> mt_workers s ! i = Watching \<Longrightarrow> mt_stop s \<Longrightarrow> \<not> mt_panics s \<Longrightarrow>
    mon_step wait_inside s (WorkerReturns i)
      (s\<lparr>mt_workers := (mt_workers s)[i := Returned], mt_wg := mt_wg s - 1, mt_panics := (mt_wg s = 0)\<rparr>)"
| fail: "i < length (mt_workers s) \<Longrightarrow> mt_workers s ! i = Watching \<Longrightarrow> \<not> mt_panics s \<Longrightarrow>
    mon_step wait_inside s (WorkerFails i)
      (s\<lparr>mt_workers := (mt_workers s)[i := Returned], mt_wg := mt_wg s - 1, mt_panics := (mt_wg s = 0)\<rparr>)"
| close_out: "mt_wg s = 0 \<Longrightarrow> \<not> mt_out_closed s \<Longrightarrow> \<not> mt_panics s \<Longrightarrow> mon_step wait_inside s CloseOut (s\<lparr>mt_out_closed := True\<rparr>)"
| call: "mt_calls s k = NotCalled \<Longrightarrow> \<not> mt_panics s \<Longrightarrow>
    mon_step wait_inside s (CallClose k) (s\<lparr>mt_calls := (mt_calls s)(k := Entering)\<rparr>)"
| run_once: "mt_calls s k = Entering \<Longrightarrow> mt_once s = Fresh \<Longrightarrow> \<not> mt_panics s \<Longrightarrow>
    mon_step wait_inside s (RunOnce k)
      (s\<lparr>mt_calls := (mt_calls s)(k := InOnce), mt_once := Busy k, mt_stop := True, mt_panics := mt_stop s\<rparr>)"
| leave_once: "mt_calls s k = InOnce \<Longrightarrow> mt_once s = Busy k \<Longrightarrow> wait_inside \<longrightarrow> mt_wg s = 0 \<Longrightarrow> \<not> mt_panics s \<Longrightarrow>
    mon_step wait_inside s (LeaveOnce k)
      (s\<lparr>mt_calls := (mt_calls s)(k := after_once wait_inside), mt_once := Finished\<rparr>)"
| skip_once: "mt_calls s k = Entering \<Longrightarrow> mt_once s = Finished \<Longrightarrow> \<not> mt_panics s \<Longrightarrow>
    mon_step wait_inside s (SkipOnce k)
      (s\<lparr>mt_calls := (mt_calls s)(k := after_once wait_inside)\<rparr>)"
| await: "mt_calls s k = BehindOnce \<Longrightarrow> mt_wg s = 0 \<Longrightarrow> \<not> mt_panics s \<Longrightarrow>
    mon_step wait_inside s (AwaitWorkers k) (s\<lparr>mt_calls := (mt_calls s)(k := CloseReturned)\<rparr>)"

definition still_running :: "mon_worker list \<Rightarrow> nat" where
  "still_running ws = length (filter (\<lambda>w. w \<noteq> Returned) ws)"

lemma still_running_update:
  assumes "i < length ws" "ws ! i \<noteq> Returned"
  shows "still_running (ws[i := w]) = (if w = Returned then still_running ws - 1 else still_running ws)" "0 < still_running ws"
proof -
  have "still_running (ws[i := w]) = (if w = Returned then still_running ws - 1 else still_running ws) \<and> 0 < still_running ws"
    using assms
  proof (induction ws arbitrary: i)
    case (Cons x ws)
    then show ?case by (cases i) (auto simp: still_running_def)
  qed simp
  then show "still_running (ws[i := w]) = (if w = Returned then still_running ws - 1 else still_running ws)" "0 < still_running ws"
    by auto
qed

lemma still_running_0: "still_running ws = 0 \<longleftrightarrow> set ws \<subseteq> {Returned}"
  by (auto simp: still_running_def filter_empty_conv)

text \<open>
  The wait group counts the workers; the channel is closed, and a call of \<open>Close\<close> has returned, only after the last of
  them.
\<close>

definition monitor_ok :: "bool \<Rightarrow> mon_threads \<Rightarrow> bool" where
  "monitor_ok wait_inside s \<longleftrightarrow> \<not> mt_panics s \<and> mt_wg s = still_running (mt_workers s) \<and> (mt_out_closed s \<longrightarrow> mt_wg s = 0) \<and>
     (mt_stop s \<longleftrightarrow> mt_once s \<noteq> Fresh) \<and> (wait_inside \<and> mt_once s = Finished \<longrightarrow> mt_wg s = 0) \<and>
     (\<forall>k. mt_calls s k = InOnce \<longleftrightarrow> mt_once s = Busy k) \<and>
     (\<forall>k. mt_calls s k = BehindOnce \<longrightarrow> mt_once s = Finished) \<and>
     (\<forall>k. mt_calls s k = CloseReturned \<longrightarrow> mt_wg s = 0 \<and> mt_once s = Finished)"

lemma monitor_ok_in_once: "monitor_ok wait_inside s \<Longrightarrow> mt_calls s k = InOnce \<longleftrightarrow> mt_once s = Busy k"
  unfolding monitor_ok_def by blast

lemma monitor_ok_init: "monitor_ok wait_inside (MonitorFiles n)"
  by (simp add: monitor_ok_def MonitorFiles_def still_running_def)

lemma monitor_ok_step:
  assumes "monitor_ok wait_inside s" "mon_step wait_inside s e t" shows "monitor_ok wait_inside t"
  using assms(2,1)
proof (induction rule: mon_step.induct)
  case (observe i s e)
  then show ?case using still_running_update(1) [of i "mt_workers s" "Emitting e"] still_running_update(2) [of i "mt_workers s"] by (auto simp: monitor_ok_def)
next
  case (emit i s e)
  then show ?case using still_running_update(1) [of i "mt_workers s" Watching] still_running_update(2) [of i "mt_workers s"] by (auto simp: monitor_ok_def)
next
  case (return i s)
  then show ?case using still_running_update(1) [of i "mt_workers s" Returned] still_running_update(2) [of i "mt_workers s"] by (auto simp: monitor_ok_def)
next
  case (fail i s)
  then show ?case using still_running_update(1) [of i "mt_workers s" Returned] still_running_update(2) [of i "mt_workers s"]
    by (auto simp: monitor_ok_def)
next
  case (leave_once s k)
  then have "mt_calls s j = InOnce \<longleftrightarrow> j = k" for j by (auto simp: monitor_ok_def)
  with leave_once show ?case by (auto simp: monitor_ok_def after_once_def)
next
  case (run_once s k)
  then have "mt_calls s j \<noteq> InOnce" "mt_calls s j \<noteq> BehindOnce" "mt_calls s j \<noteq> CloseReturned" for j by (auto simp: monitor_ok_def)
  with run_once show ?case by (auto simp: monitor_ok_def)
next
  case (call s k)
  then have "mt_once s \<noteq> Busy k" using monitor_ok_in_once [of wait_inside s k] by simp
  then have "((mt_calls s)(k := Entering)) j = InOnce \<longleftrightarrow> mt_once s = Busy j" for j
    using monitor_ok_in_once [OF call(3), of j] by auto
  with call show ?case unfolding monitor_ok_def by simp metis
qed (auto simp: monitor_ok_def after_once_def split: if_splits)

interpretation monitor_threads: lts_invariant "MonitorFiles n" "mon_step wait_inside" "monitor_ok wait_inside" for n wait_inside
  by unfold_locales (auto intro: monitor_ok_init monitor_ok_step)

text \<open>
  Once \<open>stop\<close> is closed the workers can finish without any further event or error: each has at most an event to send and then
  returns.
\<close>

fun worker_work :: "mon_worker \<Rightarrow> nat" where
  "worker_work Watching = 1"
| "worker_work (Emitting e) = 2"
| "worker_work Returned = 0"

fun from_outside :: "mon_event \<Rightarrow> bool" where
  "from_outside (Observe i e) = True"
| "from_outside (WorkerFails i) = True"
| "from_outside (CallClose k) = True"
| "from_outside _ = False"

definition finishes :: "bool \<Rightarrow> mon_threads \<Rightarrow> (mon_threads \<Rightarrow> bool) \<Rightarrow> bool" where
  "finishes wait_inside s P \<longleftrightarrow> (\<exists>es t. lts_run s (mon_step wait_inside) es t \<and> (\<forall>e\<in>set es. \<not> from_outside e) \<and> P t)"

lemma finishes_refl: "P s \<Longrightarrow> finishes wait_inside s P"
  unfolding finishes_def by (rule exI [of _ "[]"]) (auto intro: lts_init)

lemma finishes_trans:
  assumes "finishes wait_inside s Q" "\<And>t. Q t \<Longrightarrow> finishes wait_inside t P"
  shows "finishes wait_inside s P"
proof -
  obtain es t where es: "lts_run s (mon_step wait_inside) es t" "\<forall>e\<in>set es. \<not> from_outside e" "Q t"
    using assms(1) by (auto simp: finishes_def)
  obtain fs u where fs: "lts_run t (mon_step wait_inside) fs u" "\<forall>e\<in>set fs. \<not> from_outside e" "P u"
    using assms(2) [OF es(3)] by (auto simp: finishes_def)
  have "\<forall>e\<in>set (es @ fs). \<not> from_outside e" using es(2) fs(2) by auto
  with lts_run_append [OF fs(1) es(1)] fs(3) show ?thesis unfolding finishes_def by blast
qed

lemma finishes_step: "mon_step wait_inside s e t \<Longrightarrow> \<not> from_outside e \<Longrightarrow> finishes wait_inside t P \<Longrightarrow> finishes wait_inside s P"
  by (rule finishes_trans [of wait_inside s "\<lambda>u. u = t"]) (auto simp: finishes_def intro!: exI [of _ "[e]"] lts_run_one)

lemma sum_list_update_less:
  "i < length ws \<Longrightarrow> worker_work w < worker_work (ws ! i) \<Longrightarrow> sum_list (map worker_work (ws[i := w])) < sum_list (map worker_work ws)"
  by (induction ws arbitrary: i) (auto split: nat.split simp: less_Suc_eq_0_disj)

lemma workers_finish:
  assumes "monitor_ok wait_inside s" "mt_stop s"
  shows "finishes wait_inside s (\<lambda>t. monitor_ok wait_inside t \<and> mt_wg t = 0 \<and> mt_calls t = mt_calls s \<and> mt_once t = mt_once s)"
  using assms
proof (induction "sum_list (map worker_work (mt_workers s))" arbitrary: s rule: less_induct)
  case less
  show ?case
  proof (cases "mt_wg s = 0")
    case False
    then have "\<not> set (mt_workers s) \<subseteq> {Returned}" using less.prems(1) by (simp add: monitor_ok_def flip: still_running_0)
    then have "\<exists>i<length (mt_workers s). mt_workers s ! i \<noteq> Returned" by (auto simp: set_conv_nth)
    then obtain i where i: "i < length (mt_workers s)" "mt_workers s ! i \<noteq> Returned" by blast
    have ok: "\<not> mt_panics s" using less.prems(1) by (simp add: monitor_ok_def)
    obtain e t where step: "mon_step wait_inside s e t" "\<not> from_outside e" "mt_stop t" "mt_calls t = mt_calls s" "mt_once t = mt_once s"
      "sum_list (map worker_work (mt_workers t)) < sum_list (map worker_work (mt_workers s))"
    proof (cases "mt_workers s ! i")
      case Watching
      from that [OF mon_step.return [OF i(1) Watching less.prems(2) ok]] show ?thesis
        using i less.prems(2) Watching by (simp add: sum_list_update_less)
    next
      case (Emitting e)
      from that [OF mon_step.emit [OF i(1) Emitting ok]] show ?thesis
        using i less.prems(2) Emitting by (simp add: sum_list_update_less)
    qed (use i in simp)
    show ?thesis
      using less.hyps [OF step(6) monitor_ok_step [OF less.prems(1) step(1)] step(3)] step
      by (intro finishes_step [OF step(1,2)]) simp
  qed (use less.prems in \<open>simp add: finishes_refl\<close>)
qed

lemma close_call_finishes:
  assumes ok: "monitor_ok wait_inside s" and wg: "mt_wg s = 0" and called: "mt_calls s k \<noteq> NotCalled" and once: "mt_once s \<noteq> Fresh"
  shows "finishes wait_inside s (\<lambda>t. monitor_ok wait_inside t \<and> mt_wg t = 0 \<and> mt_calls t k = CloseReturned)"
proof -
  let ?done = "\<lambda>t. monitor_ok wait_inside t \<and> mt_wg t = 0 \<and> mt_calls t k = CloseReturned"
  have behind: "finishes wait_inside t ?done" if "monitor_ok wait_inside t" "mt_wg t = 0" "mt_calls t k = BehindOnce" for t
  proof -
    have step: "mon_step wait_inside t (AwaitWorkers k) (t\<lparr>mt_calls := (mt_calls t)(k := CloseReturned)\<rparr>)"
      using that by (intro mon_step.await) (auto simp: monitor_ok_def)
    show ?thesis
      by (rule finishes_step [OF step]) (use monitor_ok_step [OF that(1) step] that in \<open>auto intro: finishes_refl\<close>)
  qed
  have after: "finishes wait_inside t ?done"
    if "monitor_ok wait_inside t" "mt_wg t = 0" "mt_calls t k = after_once wait_inside" for t
    using that behind [of t] by (cases wait_inside) (auto simp: after_once_def intro: finishes_refl)
  have entering: "finishes wait_inside t ?done"
    if "monitor_ok wait_inside t" "mt_wg t = 0" "mt_calls t k = Entering" "mt_once t = Finished" for t
  proof -
    have step: "mon_step wait_inside t (SkipOnce k) (t\<lparr>mt_calls := (mt_calls t)(k := after_once wait_inside)\<rparr>)"
      using that by (intro mon_step.skip_once) (auto simp: monitor_ok_def)
    have "finishes wait_inside (t\<lparr>mt_calls := (mt_calls t)(k := after_once wait_inside)\<rparr>) ?done"
      using that(2) by (intro after monitor_ok_step [OF that(1) step]) simp_all
    then show ?thesis by (rule finishes_step [OF step, rotated]) simp
  qed
  show ?thesis
  proof (cases "mt_once s")
    case Fresh
    then show ?thesis using once by simp
  next
    case (Busy j)
    let ?t = "s\<lparr>mt_calls := (mt_calls s)(j := after_once wait_inside), mt_once := Finished\<rparr>"
    have step: "mon_step wait_inside s (LeaveOnce j) ?t"
      using Busy ok wg monitor_ok_in_once [OF ok, of j] by (intro mon_step.leave_once) (auto simp: monitor_ok_def)
    note t = monitor_ok_step [OF ok step]
    have "mt_calls s k = Entering" if "k \<noteq> j"
      using that called Busy ok monitor_ok_in_once [OF ok, of k] by (cases "mt_calls s k") (auto simp: monitor_ok_def)
    then have "finishes wait_inside ?t ?done"
      using after [OF t] entering [OF t] wg by (cases "k = j") simp_all
    then show ?thesis by (rule finishes_step [OF step, rotated]) simp
  next
    case Finished
    then have "mt_calls s k \<noteq> InOnce" using monitor_ok_in_once [OF ok, of k] by simp
    then show ?thesis using called Finished ok wg entering [of s] behind [of s]
      by (cases "mt_calls s k") (auto intro: finishes_refl)
  qed
qed



subsection \<open>The receive loop and the end of the agent (manager.go, main.go)\<close>

text \<open>
  The receive loop is before its check of \<open>stopCh\<close>, has read the manager's client, holds a message, or has ended (and closed
  \<open>doneCh\<close>).  The main goroutine waits for a signal; then its deferred calls run, the last deferred first: the hosts file is
  cleaned up, the manager is closed, the process ends with whatever the other goroutines are doing.
\<close>

datatype recv_pc = AtSelect | HasClient "TCPClient option" | Holds ProtocolMessage | RecvEnded

datatype main_pc = Waiting | CleanedUp | ConnClosed | Exited

record agent_threads =
  at_main :: main_pc
  at_recv :: recv_pc
  at_mgr :: Manager
  at_stream :: bytes
  at_state :: agent_state

datatype agent_event = SeesStop | TakesClient | NoClient | RecvFails | RecvFrame | Handles bytes | Ignores | CleanUp | CloseConn | Exit

text \<open>
  A receive that has begun may still deliver a frame after the socket is closed, or fail.  A command that panics ends the process.
\<close>

inductive agent_step :: "cmd_env \<Rightarrow> agent_threads \<Rightarrow> agent_event \<Rightarrow> agent_threads \<Rightarrow> bool" for env where
  sees_stop: "at_main s \<noteq> Exited \<Longrightarrow> at_recv s = AtSelect \<Longrightarrow> g_stopped (at_mgr s) \<Longrightarrow> agent_step env s SeesStop (s\<lparr>at_recv := RecvEnded\<rparr>)"
| takes_client: "at_main s \<noteq> Exited \<Longrightarrow> at_recv s = AtSelect \<Longrightarrow> \<not> g_stopped (at_mgr s) \<Longrightarrow>
    agent_step env s TakesClient (s\<lparr>at_recv := HasClient (g_client (at_mgr s))\<rparr>)"
| no_client: "at_main s \<noteq> Exited \<Longrightarrow> at_recv s = HasClient None \<Longrightarrow> agent_step env s NoClient (s\<lparr>at_recv := AtSelect\<rparr>)"
| recv_fails: "at_main s \<noteq> Exited \<Longrightarrow> at_recv s = HasClient (Some c) \<Longrightarrow> agent_step env s RecvFails (s\<lparr>at_recv := AtSelect\<rparr>)"
| recv_frame: "at_main s \<noteq> Exited \<Longrightarrow> at_recv s = HasClient (Some c) \<Longrightarrow> RecvProtocolMessage (Some c) (at_stream s) = Inr (msg, rest) \<Longrightarrow>
    agent_step env s RecvFrame (s\<lparr>at_recv := Holds msg, at_stream := rest\<rparr>)"
| handles: "at_main s \<noteq> Exited \<Longrightarrow> at_recv s = Holds msg \<Longrightarrow> Type msg = MSG_COMMAND \<Longrightarrow> length (CommandJSON msg) > 0 \<Longrightarrow>
    Command.HandleMessage env (CommandJSON msg) (at_state s) = (r, st) \<Longrightarrow>
    agent_step env s (Handles (CommandJSON msg))
      (s\<lparr>at_recv := AtSelect, at_state := st, at_main := if r = Panics then Exited else at_main s\<rparr>)"
| ignores: "at_main s \<noteq> Exited \<Longrightarrow> at_recv s = Holds msg \<Longrightarrow> \<not> (Type msg = MSG_COMMAND \<and> length (CommandJSON msg) > 0) \<Longrightarrow>
    agent_step env s Ignores (s\<lparr>at_recv := AtSelect\<rparr>)"
| cleans_up: "at_main s = Waiting \<Longrightarrow> agent_step env s CleanUp (s\<lparr>at_main := CleanedUp, at_state := shutdown env (at_state s)\<rparr>)"
| closes: "at_main s = CleanedUp \<Longrightarrow> CloseManager close_ok (at_mgr s) = Some (e, m) \<Longrightarrow>
    agent_step env s CloseConn (s\<lparr>at_main := ConnClosed, at_mgr := m\<rparr>)"
| exits: "at_main s = ConnClosed \<Longrightarrow> agent_step env s Exit (s\<lparr>at_main := Exited\<rparr>)"

inductive_cases agent_stepE: "agent_step env s e t"

fun is_handles :: "agent_event \<Rightarrow> bool" where
  "is_handles (Handles j) = True"
| "is_handles _ = False"

text \<open>How many more commands the receive loop can run once the manager is closed.\<close>

definition commands_left :: "agent_threads \<Rightarrow> nat" where
  "commands_left s = (case at_recv s of AtSelect \<Rightarrow> 0 | RecvEnded \<Rightarrow> 0 | _ \<Rightarrow> 1)"

lemma stopped_step:
  assumes "agent_step env s e t" "g_stopped (at_mgr s)"
  shows "g_stopped (at_mgr t) \<and> commands_left t + (if is_handles e then 1 else 0) \<le> commands_left s"
  using assms by (cases rule: agent_step.cases) (auto simp: commands_left_def CloseManager_def split: option.splits if_splits)

lemma stopped_run:
  "lts_run s (agent_step env) es t \<Longrightarrow> g_stopped (at_mgr s) \<Longrightarrow>
   g_stopped (at_mgr t) \<and> commands_left t + length (filter is_handles es) \<le> commands_left s"
proof (induction rule: lts_run.induct)
  case (lts_step es t e u)
  then show ?case using stopped_step [of env t e u] by (auto split: if_splits)
qed simp

lemma quiet_step:
  "agent_step env s e t \<Longrightarrow> \<not> is_handles e \<Longrightarrow> at_main s \<noteq> Waiting \<Longrightarrow> at_state t = at_state s \<and> at_main t \<noteq> Waiting"
  by (cases rule: agent_step.cases) auto

lemma quiet_run:
  "lts_run s (agent_step env) es t \<Longrightarrow> at_main s \<noteq> Waiting \<Longrightarrow> \<forall>e\<in>set es. \<not> is_handles e \<Longrightarrow>
   at_state t = at_state s \<and> at_main t \<noteq> Waiting"
proof (induction rule: lts_run.induct)
  case (lts_step es t e u)
  then show ?case using quiet_step [of env t e u] by auto
qed simp

text \<open>
  C34: what a signal stops.  After the manager is closed the receive loop runs at most one more command, in every
  interleaving; and if it runs none after the clean-up, the hosts file has exactly the user's lines when the agent ends,
  whatever was blocked before.
\<close>
theorem closed_agent_runs_one_more_command:
  assumes stop: "lts_run s (agent_step env) (CleanUp # es @ CloseConn # fs) t"
    and ctx: "any_order (c_ord env)" "io_ok (c_hosts env)" "user_lines U"
      "in_step (c_ord env) U (ag_hosts (at_state s)) (ag_hostfs (at_state s))"
  shows "length (filter is_handles fs) \<le> 1 \<and>
    ((\<forall>e\<in>set (es @ fs). \<not> is_handles e) \<longrightarrow> hosts_file (ag_hostfs (at_state t)) = Some (unlines U) \<and> \<not> enabled (ag_hosts (at_state t)))"
proof -
  have split: "\<exists>u. lts_run s (agent_step env) xs u \<and> lts_run u (agent_step env) ys t" if "xs @ ys = CleanUp # es @ CloseConn # fs" for xs ys
    using lts_run_split [of s "agent_step env" xs ys t] stop that by simp
  obtain u where u: "lts_run s (agent_step env) (CleanUp # es @ [CloseConn]) u" "lts_run u (agent_step env) fs t"
    using split [of "CleanUp # es @ [CloseConn]" fs] by auto
  obtain v where v: "lts_run s (agent_step env) [CleanUp] v" "lts_run v (agent_step env) (es @ CloseConn # fs) t"
    using split [of "[CleanUp]" "es @ CloseConn # fs"] by auto
  obtain x where "agent_step env x CloseConn u"
    using u(1) lts_run_snocE [of s "agent_step env" "CleanUp # es" CloseConn u] by auto
  then have "g_stopped (at_mgr u)" by (cases rule: agent_step.cases) (auto simp: CloseManager_def split: option.splits if_splits)
  then have "length (filter is_handles fs) \<le> commands_left u" using stopped_run [OF u(2)] by simp
  moreover have "commands_left u \<le> 1" by (simp add: commands_left_def split: recv_pc.split)
  moreover have "agent_step env s CleanUp v"
    using v(1) lts_run_snocE [of s "agent_step env" "[]" CleanUp v] by (auto elim: lts_run_NilE)
  then have "at_main v = CleanedUp" "at_state v = shutdown env (at_state s)" by (cases rule: agent_step.cases; simp)+
  then have "at_state t = shutdown env (at_state s)" if "\<forall>e\<in>set (es @ fs). \<not> is_handles e"
    using quiet_run [OF v(2)] that by auto
  ultimately show ?thesis using shutdown_restores_hosts_file [OF ctx] by auto
qed


theorem closed_agent_runs_one_more_command_witness:
  "\<exists>t. lts_run \<lparr>at_main = Waiting, at_recv = AtSelect, at_mgr = NewManager ''h'' 1 ''d'' ''t'', at_stream = [], at_state = sample_agent\<rparr>
       (agent_step sample_cmd_env) [CleanUp, CloseConn] t \<and> hosts_file (ag_hostfs (at_state t)) = Some []"
proof -
  let ?s = "\<lparr>at_main = Waiting, at_recv = AtSelect, at_mgr = NewManager ''h'' 1 ''d'' ''t'', at_stream = [], at_state = sample_agent\<rparr>"
  let ?s1 = "?s\<lparr>at_main := CleanedUp, at_state := shutdown sample_cmd_env (at_state ?s)\<rparr>"
  let ?s2 = "?s1\<lparr>at_main := ConnClosed, at_mgr := (at_mgr ?s1)\<lparr>g_stopped := True\<rparr>\<rparr>"
  have 1: "agent_step sample_cmd_env ?s CleanUp ?s1" by (rule agent_step.cleans_up) simp
  have 2: "agent_step sample_cmd_env ?s1 CloseConn ?s2"
    by (rule agent_step.closes [where close_ok = True and e = None]) (simp_all add: CloseManager_def NewManager_def)
  have run: "lts_run ?s (agent_step sample_cmd_env) (CleanUp # [] @ CloseConn # []) ?s2"
    using lts_run_Cons [of "agent_step sample_cmd_env", OF 1 lts_run_one [of "agent_step sample_cmd_env", OF 2]] by simp
  have "in_step (c_ord sample_cmd_env) [] (ag_hosts (at_state ?s)) (ag_hostfs (at_state ?s))"
    by (simp add: in_step_def section_of_def sample_agent_def GetHostsManager_def unlines_def)
  then have "hosts_file (ag_hostfs (at_state ?s2)) = Some (unlines [])"
    using closed_agent_runs_one_more_command [OF run, of "[]"] by (simp add: sample_cmd_env_def user_lines_def)
  then show ?thesis using run by (intro exI [of _ ?s2]) (simp add: unlines_def)
qed

text \<open>
  C35: a command that arrives while the agent shuts down outlives it.  The clean-up runs before the receive loop is stopped; a blocking
  command that the loop holds at that moment is carried out after the clean-up, and the agent ends with the sites blocked in the
  hosts file, where nothing removes them any more.
\<close>
theorem command_during_shutdown_outlives_agent:
  assumes s: "at_main s = Waiting" "at_recv s = Holds msg" "Type msg = MSG_COMMAND" "\<not> g_stopped (at_mgr s)"
    and ctx: "any_order (c_ord env)" "io_ok (c_hosts env)" "user_lines U"
      "in_step (c_ord env) U (ag_hosts (at_state s)) (ag_hostfs (at_state s))"
    and cmd: "to_bytes (TrimSpace (to_string (CommandJSON msg))) = line" "line \<noteq> []" "j_envelope env line = Some e"
    and e: "en_Name e = ''block_website''" "en_Kind e = [] \<or> en_Kind e = KindOnce" "en_Argument e \<noteq> []"
      "j_block env (en_Argument e) = Some a"
    and a: "ba_Action a = ''sync'' \<or> ba_Action a = ''apply''" "ba_Status a \<noteq> Some False"
    and safe: "\<forall>r\<in>set (ba_Rules a). safe_domain (normalize_domain (br_Domain r))"
  shows "\<exists>t. lts_run s (agent_step env) [CleanUp, Handles (CommandJSON msg), CloseConn, Exit] t \<and> at_main t = Exited \<and>
    hosts_file (ag_hostfs (at_state t)) = Some (unlines (U @ section_of (c_ord env) (ag_hosts (at_state t)))) \<and>
    enabled (ag_hosts (at_state t)) \<and>
    set (domains (ag_hosts (at_state t))) = normalize_domain ` ((\<Union>r\<in>set (ba_Rules a). set (rule_domains r)) - {[]})"
proof -
  let ?st = "shutdown env (at_state s)"
  obtain res st' where run: "Dispatch env e ?st = (res, st')" by (cases "Dispatch env e ?st") blast
  note blocked = block_website_dispatch [OF ctx(1-3) shutdown_in_step(1) [OF ctx] e a safe run]
  have json: "CommandJSON msg \<noteq> []" using cmd(1,2) by (auto simp: to_bytes_def to_string_def)
  have handled: "Command.HandleMessage env (CommandJSON msg) ?st = (Done, st')"
    using run cmd blocked by (simp add: Command.HandleMessage_def Let_def)
  obtain m where m: "CloseManager True (at_mgr s) = Some m" using s(4) by (cases "g_client (at_mgr s)") (auto simp: CloseManager_def)
  let ?s1 = "s\<lparr>at_main := CleanedUp, at_state := ?st\<rparr>"
  let ?s2 = "?s1\<lparr>at_recv := AtSelect, at_state := st', at_main := CleanedUp\<rparr>"
  let ?s3 = "?s2\<lparr>at_main := ConnClosed, at_mgr := snd m\<rparr>"
  let ?s4 = "?s3\<lparr>at_main := Exited\<rparr>"
  have 1: "agent_step env s CleanUp ?s1" by (rule agent_step.cleans_up [OF s(1)])
  have 2: "agent_step env ?s1 (Handles (CommandJSON msg)) ?s2"
    using agent_step.handles [of ?s1 msg env Done st'] s json handled by simp
  have 3: "agent_step env ?s2 CloseConn ?s3" by (rule agent_step.closes [where close_ok = True and e = "fst m"]) (simp_all add: m)
  have 4: "agent_step env ?s3 Exit ?s4" by (rule agent_step.exits) simp
  note steps = lts_run_Cons [of "agent_step env", OF 1 lts_run_Cons [of "agent_step env", OF 2
      lts_run_Cons [of "agent_step env", OF 3 lts_run_one [of "agent_step env", OF 4]]]]
  show ?thesis by (rule exI [of _ ?s4]) (use steps blocked in simp)
qed

theorem command_during_shutdown_outlives_agent_witness:
  "\<exists>env s t. lts_run s (agent_step env) [CleanUp, Handles [123], CloseConn, Exit] t \<and> at_main t = Exited \<and>
     set (domains (ag_hosts (at_state t))) = {''x.com''} \<and> enabled (ag_hosts (at_state t))"
proof -
  let ?e = "\<lparr>en_DeviceID = ''d'', en_Name = ''block_website'', en_Kind = [], en_Argument = [123]\<rparr>"
  let ?env = "sample_cmd_env\<lparr>j_envelope := \<lambda>_. Some ?e\<rparr>"
  let ?r = "\<lparr>br_ID = 1, br_Type = ''domain'', br_Category = [], br_Domain = ''x.com'', br_Enabled = True\<rparr>"
  let ?a = "\<lparr>ba_Action = ''sync'', ba_Rules = [?r], ba_Status = Some True\<rparr>"
  have "\<exists>msg :: ProtocolMessage. CommandJSON msg = [123] \<and> Type msg = MSG_COMMAND"
    by (rule exI [of _ "convertProtocolMessage (zero_message MSG_COMMAND [123])"]) (simp add: convertProtocolMessage_def zero_message_def Let_def)
  then obtain msg :: ProtocolMessage where msg: "CommandJSON msg = [123]" "Type msg = MSG_COMMAND" by blast
  let ?s = "\<lparr>at_main = Waiting, at_recv = Holds msg, at_mgr = NewManager ''h'' 1 ''d'' ''t'', at_stream = [], at_state = sample_agent\<rparr>"
  have n: "normalize_domain ''x.com'' = ''x.com''" by code_simp
  have line: "TrimSpace (to_string [123]) \<noteq> []" by code_simp
  have before: "in_step (c_ord ?env) [] (ag_hosts (at_state ?s)) (ag_hostfs (at_state ?s))"
    by (simp add: in_step_def section_of_def sample_agent_def GetHostsManager_def unlines_def)
  have "\<exists>t. lts_run ?s (agent_step ?env) [CleanUp, Handles (CommandJSON msg), CloseConn, Exit] t \<and> at_main t = Exited \<and>
      hosts_file (ag_hostfs (at_state t)) = Some (unlines ([] @ section_of (c_ord ?env) (ag_hosts (at_state t)))) \<and>
      enabled (ag_hosts (at_state t)) \<and>
      set (domains (ag_hosts (at_state t))) = normalize_domain ` ((\<Union>r\<in>set (ba_Rules ?a). set (rule_domains r)) - {[]})"
    by (rule command_during_shutdown_outlives_agent [OF _ _ _ _ _ _ _ before refl, where e = ?e and a = ?a])
      (use line in \<open>simp_all add: msg NewManager_def sample_cmd_env_def user_lines_def n safe_domain_def to_bytes_def\<close>)
  then show ?thesis unfolding msg using n by auto
qed

end
