(* ===== verification/Registry.thy ===== *)
theory Registry
  imports Protocol
begin

text \<open>
  The server side of \<open>network/\<close>: the listening sockets and the callback bridges of \<open>server.go\<close>, the
  device registry and the per-connection loop of \<open>protocol_server.c\<close>.  Several connections are
  served at once; the registry's mutex makes each registry operation atomic, so a run of the server is
  an arbitrary interleaving of the events of its connections.
\<close>

subsection \<open>The device registry (protocol_server.c)\<close>

record device_entry =
  entry_id :: bytes
  entry_fd :: int

type_synonym registry = "device_entry list"

text \<open>\<open>strncmp\<close> looks at the first \<open>PROTOCOL_MAX_DEVICE_ID\<close> bytes of two C strings.\<close>

definition id_key :: "bytes \<Rightarrow> bytes" where
  "id_key s = take PROTOCOL_MAX_DEVICE_ID (cstr s)"

definition same_id :: "bytes \<Rightarrow> bytes \<Rightarrow> bool" where
  "same_id a b \<longleftrightarrow> id_key a = id_key b"

fun registry_replace :: "bytes \<Rightarrow> int \<Rightarrow> registry \<Rightarrow> registry option" where
  "registry_replace d f [] = None"
| "registry_replace d f (e # es) =
     (if same_id (entry_id e) d then Some (e\<lparr>entry_fd := f\<rparr> # es)
      else map_option ((#) e) (registry_replace d f es))"

definition registry_set :: "bool \<Rightarrow> bytes \<Rightarrow> int \<Rightarrow> registry \<Rightarrow> registry" where
  "registry_set alloc_ok device_id f reg =
     (if cstr device_id = [] \<or> f = INVALID_SOCKET then reg
      else case registry_replace device_id f reg of
             Some reg' \<Rightarrow> reg'
           | None \<Rightarrow> if alloc_ok then \<lparr>entry_id = id_key device_id, entry_fd = f\<rparr> # reg else reg)"

fun registry_unlink :: "int \<Rightarrow> registry \<Rightarrow> registry" where
  "registry_unlink f [] = []"
| "registry_unlink f (e # es) = (if entry_fd e = f then es else e # registry_unlink f es)"

definition registry_remove_fd :: "int \<Rightarrow> registry \<Rightarrow> registry" where
  "registry_remove_fd f reg = (if f = INVALID_SOCKET then reg else registry_unlink f reg)"

fun registry_find :: "bytes \<Rightarrow> registry \<Rightarrow> int" where
  "registry_find d [] = INVALID_SOCKET"
| "registry_find d (e # es) = (if same_id (entry_id e) d then entry_fd e else registry_find d es)"

definition registry_get :: "bytes \<Rightarrow> registry \<Rightarrow> int" where
  "registry_get device_id reg =
     (if cstr device_id = [] then INVALID_SOCKET else registry_find device_id reg)"

definition protocol_device_is_online :: "registry \<Rightarrow> bytes \<Rightarrow> bool" where
  "protocol_device_is_online reg device_id \<longleftrightarrow> registry_get device_id reg \<noteq> INVALID_SOCKET"

text \<open>The bytes are written to the socket the registry has for the device.\<close>

definition protocol_send_to_device :: "registry \<Rightarrow> bytes \<Rightarrow> bytes \<Rightarrow> (int \<times> bytes) option" where
  "protocol_send_to_device reg device_id json =
     (let f = registry_get device_id reg
      in if f = INVALID_SOCKET then None else map_option (Pair f) (protocol_send_command json))"

subsection \<open>One connection (protocol_connection_handler)\<close>

text \<open>
  For one message that was received: the message handed to the callback, the device id the
  connection remembers, and the registry.
\<close>

definition connection_message ::
    "bool \<Rightarrow> int \<Rightarrow> protocol_message_t \<Rightarrow> bytes \<Rightarrow> registry \<Rightarrow> protocol_message_t \<times> bytes \<times> registry" where
  "connection_message alloc_ok client_fd msg last_device reg =
     (let dev = cstr (c_device_id msg)
      in if dev = [] \<and> last_device \<noteq> [] then (msg\<lparr>c_device_id := last_device\<rparr>, last_device, reg)
         else if dev \<noteq> [] then
           (let last' = id_key dev
            in (msg, last',
                if c_type msg = MSG_LOGIN then registry_set alloc_ok last' client_fd reg else reg))
         else (msg, last_device, reg))"

subsection \<open>Go callbacks and the server object (server.go)\<close>

record ('h, 'd) net_globals =
  protocolHandler :: "'h option"
  protocolDisconnectHandler :: "'d option"

record TCPServer =
  server_fd :: int

datatype server_error =
    InvalidPort | ListenFailed | ServerNotOpen | AcceptFailed | ServerCloseFailed | HandlerRequired
  | CreateFailed | StopFailed | DeviceIdRequired | EmptySendPayload | SendToDeviceFailed

definition ListenTCP :: "(string option \<Rightarrow> int \<Rightarrow> int) \<Rightarrow> string \<Rightarrow> int \<Rightarrow> (server_error, TCPServer) res" where
  "ListenTCP tcp_server_start host port =
     (if port \<le> 0 then Inl InvalidPort
      else let s = tcp_server_start (if host \<noteq> [] then Some host else None) port
           in if s = INVALID_SOCKET then Inl ListenFailed else Inr \<lparr>server_fd = s\<rparr>)"

definition server_open :: "TCPServer option \<Rightarrow> bool" where
  "server_open s = (case s of None \<Rightarrow> False | Some x \<Rightarrow> server_fd x \<noteq> INVALID_SOCKET)"

definition Accept :: "int \<Rightarrow> TCPServer option \<Rightarrow> (server_error, TCPClient) res" where
  "Accept accepted s =
     (if \<not> server_open s then Inl ServerNotOpen
      else if accepted = INVALID_SOCKET then Inl AcceptFailed else Inr \<lparr>fd = accepted\<rparr>)"

definition TCPServer_Close :: "bool \<Rightarrow> TCPServer option \<Rightarrow> server_error option \<times> TCPServer option" where
  "TCPServer_Close tcp_close_ok s =
     (if \<not> server_open s then (Some ServerNotOpen, s)
      else if \<not> tcp_close_ok then (Some ServerCloseFailed, s)
      else (None, map_option (server_fd_update (\<lambda>_. INVALID_SOCKET)) s))"

definition goProtocolMessageBridge ::
    "(TCPClient \<Rightarrow> ProtocolMessage \<Rightarrow> 's \<Rightarrow> 's, 'd) net_globals \<Rightarrow> int \<Rightarrow> protocol_message_t \<Rightarrow> 's \<Rightarrow> 's" where
  "goProtocolMessageBridge g client_fd c_msg st =
     (case protocolHandler g of
        None \<Rightarrow> st
      | Some handler \<Rightarrow> handler \<lparr>fd = client_fd\<rparr> (convertProtocolMessage c_msg) st)"

definition goProtocolDisconnectBridge ::
    "('h, TCPClient \<Rightarrow> bytes \<Rightarrow> 's \<Rightarrow> 's) net_globals \<Rightarrow> int \<Rightarrow> bytes option \<Rightarrow> 's \<Rightarrow> 's" where
  "goProtocolDisconnectBridge g client_fd device_id st =
     (case protocolDisconnectHandler g of
        None \<Rightarrow> st
      | Some handler \<Rightarrow>
          handler \<lparr>fd = client_fd\<rparr> (case device_id of None \<Rightarrow> [] | Some d \<Rightarrow> cstr d) st)"

text \<open>
  The handlers are installed before the C server is created, and stay installed when that fails.
  The C server is represented by its handle; whether a disconnect callback was passed is its
  second component.
\<close>

type_synonym 'c ProtocolServer = "('c \<times> bool) option"

definition ListenProtocolWithDisconnect ::
    "(string option \<Rightarrow> int \<Rightarrow> 'c option) \<Rightarrow> string \<Rightarrow> int \<Rightarrow> 'h option \<Rightarrow> 'd option \<Rightarrow> ('h, 'd) net_globals \<Rightarrow>
     (server_error, 'c ProtocolServer) res \<times> ('h, 'd) net_globals" where
  "ListenProtocolWithDisconnect protocol_server_create host port handler disconnectHandler g =
     (if port \<le> 0 then (Inl InvalidPort, g)
      else if handler = None then (Inl HandlerRequired, g)
      else let g' = g\<lparr>protocolHandler := handler, protocolDisconnectHandler := disconnectHandler\<rparr>
           in case protocol_server_create (if host \<noteq> [] then Some host else None) port of
                None \<Rightarrow> (Inl CreateFailed, g')
              | Some srv \<Rightarrow> (Inr (Some (srv, disconnectHandler \<noteq> None)), g'))"

definition ListenProtocol ::
    "(string option \<Rightarrow> int \<Rightarrow> 'c option) \<Rightarrow> string \<Rightarrow> int \<Rightarrow> 'h option \<Rightarrow> ('h, 'd) net_globals \<Rightarrow>
     (server_error, 'c ProtocolServer) res \<times> ('h, 'd) net_globals" where
  "ListenProtocol protocol_server_create host port handler g =
     ListenProtocolWithDisconnect protocol_server_create host port handler None g"

definition Stop :: "('c \<Rightarrow> bool) \<Rightarrow> 'c ProtocolServer \<Rightarrow> server_error option" where
  "Stop protocol_server_stop s =
     (case s of None \<Rightarrow> Some ServerNotOpen
      | Some (srv, _) \<Rightarrow> if protocol_server_stop srv then None else Some StopFailed)"

definition ProtocolServer_Close ::
    "'c ProtocolServer \<Rightarrow> ('h, 'd) net_globals \<Rightarrow>
     server_error option \<times> 'c ProtocolServer \<times> ('h, 'd) net_globals" where
  "ProtocolServer_Close s g =
     (case s of None \<Rightarrow> (Some ServerNotOpen, s, g)
      | Some _ \<Rightarrow> (None, None, g\<lparr>protocolHandler := None, protocolDisconnectHandler := None\<rparr>))"

definition DeviceIsOnline :: "registry \<Rightarrow> bytes \<Rightarrow> bool" where
  "DeviceIsOnline reg deviceID \<longleftrightarrow> deviceID \<noteq> [] \<and> protocol_device_is_online reg (cstr deviceID)"

definition SendToDevice :: "bool \<Rightarrow> registry \<Rightarrow> bytes \<Rightarrow> bytes \<Rightarrow> (server_error, int \<times> bytes) res" where
  "SendToDevice sent reg deviceID jsonPayload =
     (if deviceID = [] then Inl DeviceIdRequired
      else if length jsonPayload = 0 then Inl EmptySendPayload
      else case protocol_send_to_device reg (cstr deviceID) jsonPayload of
             None \<Rightarrow> Inl SendToDeviceFailed
           | Some r \<Rightarrow> if sent then Inr r else Inl SendToDeviceFailed)"

subsection \<open>The server as a state machine\<close>

text \<open>
  The state is the registry and, for each open connection, the device id it remembers.  A
  connection ends by \<open>Hangup\<close>: its registry entry goes first, then the socket is closed, and the
  number is free for the next connection.  (The server's threads close the number once more a little later; the theory
  \<open>Sockets\<close> shows that they behave like this machine unless the number is handed out again in between, and what happens then.)
  The flag of \<open>Receive\<close> tells whether \<open>calloc\<close> would find memory for a new entry.
\<close>

record server_state =
  registry_of :: registry
  open_conns :: "int \<Rightarrow> bytes option"

datatype server_event =
    Connect int
  | Receive int bool protocol_message_t
  | Hangup int

definition server_init :: server_state where
  "server_init = \<lparr>registry_of = [], open_conns = (\<lambda>_. None)\<rparr>"

fun server_event_step :: "server_event \<Rightarrow> server_state \<Rightarrow> server_state" where
  "server_event_step (Connect f) s = s\<lparr>open_conns := (open_conns s)(f \<mapsto> [])\<rparr>"
| "server_event_step (Receive f alloc_ok m) s =
     (case open_conns s f of
        None \<Rightarrow> s
      | Some last_device \<Rightarrow>
          (case connection_message alloc_ok f m last_device (registry_of s) of
             (_, last', reg') \<Rightarrow> s\<lparr>registry_of := reg', open_conns := (open_conns s)(f \<mapsto> last')\<rparr>))"
| "server_event_step (Hangup f) s =
     s\<lparr>registry_of := registry_remove_fd f (registry_of s), open_conns := (open_conns s)(f := None)\<rparr>"

text \<open>
  What the operating system guarantees (a fresh socket number is valid and not in use; only an open
  connection delivers messages or ends), and the discipline of the agent: one connection
  logs in under one device id.
\<close>

fun event_possible :: "server_state \<Rightarrow> server_event \<Rightarrow> bool" where
  "event_possible s (Connect f) \<longleftrightarrow> f \<noteq> INVALID_SOCKET \<and> open_conns s f = None"
| "event_possible s (Receive f a m) \<longleftrightarrow> open_conns s f \<noteq> None"
| "event_possible s (Hangup f) \<longleftrightarrow> open_conns s f \<noteq> None"

fun one_device :: "server_state \<Rightarrow> server_event \<Rightarrow> bool" where
  "one_device s (Receive f a m) \<longleftrightarrow>
     cstr (c_device_id m) = [] \<or> open_conns s f = Some [] \<or> open_conns s f = Some (id_key (c_device_id m))"
| "one_device s _ \<longleftrightarrow> True"

inductive server_run :: "(server_state \<Rightarrow> server_event \<Rightarrow> bool) \<Rightarrow> server_event list \<Rightarrow> server_state \<Rightarrow> bool"
  for P where
  run_init: "server_run P [] server_init"
| run_event: "server_run P es s \<Longrightarrow> event_possible s e \<Longrightarrow> P s e \<Longrightarrow>
    server_run P (es @ [e]) (server_event_step e s)"

inductive_cases server_run_snocE: "server_run P (es @ [e]) s"

subsection \<open>The registry as a map\<close>

lemma cstr_idem [simp]: "cstr (cstr s) = cstr s"
  by simp

lemma cstr_take: "cstr (take n (cstr s)) = take n (cstr s)"
  by (rule cstr_id) (auto simp: nul_free_def cstr_def dest!: in_set_takeD set_takeWhileD)

lemma id_key_idem [simp]: "id_key (id_key s) = id_key s"
  by (simp add: id_key_def cstr_take)

lemma id_key_cstr [simp]: "id_key (cstr s) = id_key s"
  by (simp add: id_key_def)

lemma id_key_Nil [simp]: "id_key s = [] \<longleftrightarrow> cstr s = []"
  by (simp add: id_key_def PROTOCOL_MAX_DEVICE_ID_def)

lemma cstr_id_key [simp]: "cstr (id_key s) = id_key s"
  by (simp add: id_key_def cstr_take)

definition reg_map :: "registry \<Rightarrow> bytes \<Rightarrow> int option" where
  "reg_map reg = map_of (map (\<lambda>e. (entry_id e, entry_fd e)) reg)"

definition reg_ok :: "registry \<Rightarrow> bool" where
  "reg_ok reg \<longleftrightarrow> distinct (map entry_id reg) \<and>
     (\<forall>e\<in>set reg. id_key (entry_id e) = entry_id e \<and> entry_id e \<noteq> [] \<and> entry_fd e \<noteq> INVALID_SOCKET)"

lemma reg_map_simps [simp]:
  "reg_map [] d = None"
  "reg_map (e # es) d = (if d = entry_id e then Some (entry_fd e) else reg_map es d)"
  by (auto simp: reg_map_def)

lemma reg_ok_simps [simp]:
  "reg_ok []"
  "reg_ok (e # es) \<longleftrightarrow> entry_id e \<notin> entry_id ` set es \<and> id_key (entry_id e) = entry_id e \<and>
     entry_id e \<noteq> [] \<and> entry_fd e \<noteq> INVALID_SOCKET \<and> reg_ok es"
  by (auto simp: reg_ok_def)

lemma registry_find_map:
  "reg_ok reg \<Longrightarrow>
   registry_find d reg = (case reg_map reg (id_key d) of None \<Rightarrow> INVALID_SOCKET | Some f \<Rightarrow> f)"
  by (induction reg) (auto simp: same_id_def)

lemma registry_get_map:
  assumes "reg_ok reg"
  shows "registry_get d reg = (case reg_map reg (id_key d) of None \<Rightarrow> INVALID_SOCKET | Some f \<Rightarrow> f)"
proof (cases "cstr d = []")
  case True
  then have "id_key d = []" by simp
  moreover have "reg_map reg [] = None" using assms by (induction reg) auto
  ultimately have "reg_map reg (id_key d) = None" by metis
  then show ?thesis using True by (simp add: registry_get_def)
qed (simp add: registry_get_def registry_find_map assms)

lemma reg_map_mem: "reg_map reg d = Some f \<Longrightarrow> \<exists>e\<in>set reg. entry_id e = d \<and> entry_fd e = f"
  by (induction reg) (auto split: if_splits)

lemma registry_replace_None:
  "reg_ok reg \<Longrightarrow> registry_replace d f reg = None \<longleftrightarrow> id_key d \<notin> entry_id ` set reg"
  by (induction reg) (auto simp: same_id_def)

lemma registry_replace_Some:
  "reg_ok reg \<Longrightarrow> f \<noteq> INVALID_SOCKET \<Longrightarrow> registry_replace d f reg = Some reg' \<Longrightarrow>
   reg_ok reg' \<and> map entry_id reg' = map entry_id reg \<and> reg_map reg' = (reg_map reg)(id_key d \<mapsto> f) \<and>
   (\<forall>e\<in>set reg'. e \<in> set reg \<or> entry_id e = id_key d \<and> entry_fd e = f)"
proof (induction reg arbitrary: reg')
  case (Cons e es)
  show ?case
  proof (cases "same_id (entry_id e) d")
    case True
    with Cons.prems show ?thesis by (auto simp: same_id_def fun_eq_iff)
  next
    case False
    then obtain es' where es': "registry_replace d f es = Some es'" "reg' = e # es'"
      using Cons.prems by auto
    then have IH: "reg_ok es'" "map entry_id es' = map entry_id es" "reg_map es' = (reg_map es)(id_key d \<mapsto> f)"
      "\<forall>x\<in>set es'. x \<in> set es \<or> entry_id x = id_key d \<and> entry_fd x = f"
      using Cons by auto
    then have "entry_id ` set es' = entry_id ` set es" by (metis list.set_map)
    with IH False Cons.prems es'(2) show ?thesis by (auto simp: same_id_def fun_eq_iff)
  qed
qed simp

lemma registry_set_ok:
  assumes "reg_ok reg"
  shows "reg_ok (registry_set a d f reg)"
    "\<forall>e\<in>set (registry_set a d f reg). e \<in> set reg \<or> entry_id e = id_key d \<and> entry_fd e = f"
  using assms registry_replace_Some [of reg f d] registry_replace_None [of reg d f]
  by (auto simp: registry_set_def split: option.splits)

lemma reg_map_set:
  assumes "reg_ok reg" "cstr d \<noteq> []" "f \<noteq> INVALID_SOCKET"
  shows "reg_map (registry_set True d f reg) = (reg_map reg)(id_key d \<mapsto> f)"
  using assms registry_replace_Some [of reg f d]
  by (auto simp: registry_set_def fun_eq_iff split: option.splits)

lemma registry_unlink_filter:
  "distinct (map entry_fd reg) \<Longrightarrow> registry_unlink f reg = filter (\<lambda>e. entry_fd e \<noteq> f) reg"
  by (induction reg) (auto simp: image_iff intro!: filter_True [symmetric])

lemma reg_ok_filter: "reg_ok reg \<Longrightarrow> reg_ok (filter P reg)"
  by (induction reg) auto

lemma reg_map_filter:
  "reg_ok reg \<Longrightarrow>
   reg_map (filter (\<lambda>e. entry_fd e \<noteq> f) reg) d = (if reg_map reg d = Some f then None else reg_map reg d)"
proof (induction reg)
  case (Cons e es)
  have "reg_map (filter P es) (entry_id e) = None" for P
  proof (rule ccontr)
    assume "reg_map (filter P es) (entry_id e) \<noteq> None"
    then obtain x where "x \<in> set es" "entry_id x = entry_id e"
      using reg_map_mem [of "filter P es" "entry_id e"] by auto
    with Cons.prems show False by (metis image_eqI reg_ok_simps(2))
  qed
  with Cons show ?case by auto
qed simp

subsection \<open>Registry and connections agree\<close>

definition conns_agree :: "server_state \<Rightarrow> bool" where
  "conns_agree s \<longleftrightarrow> reg_ok (registry_of s) \<and> open_conns s INVALID_SOCKET = None \<and>
     (\<forall>e\<in>set (registry_of s). open_conns s (entry_fd e) = Some (entry_id e))"

lemma conns_agree_distinct_fds:
  assumes "conns_agree s" shows "distinct (map entry_fd (registry_of s))"
proof -
  have "map entry_id (registry_of s) = map (\<lambda>f. the (open_conns s f)) (map entry_fd (registry_of s))"
    using assms by (simp add: conns_agree_def)
  then show ?thesis
    using assms by (metis conns_agree_def reg_ok_def distinct_map)
qed

lemma conns_agree_init: "conns_agree server_init"
  by (simp add: conns_agree_def server_init_def)

lemma conns_agree_unlink:
  "conns_agree s \<Longrightarrow> f \<noteq> INVALID_SOCKET \<Longrightarrow>
   registry_remove_fd f (registry_of s) = filter (\<lambda>e. entry_fd e \<noteq> f) (registry_of s)"
  by (simp add: registry_remove_fd_def registry_unlink_filter conns_agree_distinct_fds)

lemma conns_agree_step:
  assumes agree: "conns_agree s" and "event_possible s e" and "one_device s e"
  shows "conns_agree (server_event_step e s)"
proof (cases e)
  case (Connect f)
  then show ?thesis using assms by (auto simp: conns_agree_def)
next
  case (Hangup f)
  then have "f \<noteq> INVALID_SOCKET" using assms by (auto simp: conns_agree_def)
  with agree Hangup show ?thesis
    by (auto simp: conns_agree_unlink reg_ok_filter) (auto simp: conns_agree_def reg_ok_filter)
next
  case (Receive f a m)
  then obtain l where l: "open_conns s f = Some l" using assms by auto
  then have f: "f \<noteq> INVALID_SOCKET" using agree by (auto simp: conns_agree_def)
  let ?d = "id_key (c_device_id m)"
  have same: "entry_id e = ?d" if "e \<in> set (registry_of s)" "entry_fd e = f" "cstr (c_device_id m) \<noteq> []" for e
    using agree that l assms(3) Receive by (auto simp: conns_agree_def reg_ok_def)
  show ?thesis
    using agree Receive l f same registry_set_ok [of "registry_of s" a ?d f]
    by (fastforce simp: conns_agree_def connection_message_def Let_def)
qed

lemma conns_agree_run: "server_run one_device es s \<Longrightarrow> conns_agree s"
  by (induction rule: server_run.induct) (auto intro: conns_agree_init conns_agree_step)

text \<open>The specification: the socket of each device's latest login that is still connected.\<close>

fun latest_step :: "server_event \<Rightarrow> (bytes \<Rightarrow> int option) \<Rightarrow> bytes \<Rightarrow> int option" where
  "latest_step (Connect f) L = L"
| "latest_step (Receive f a m) L =
     (if c_type m = MSG_LOGIN \<and> cstr (c_device_id m) \<noteq> [] then L(id_key (c_device_id m) \<mapsto> f) else L)"
| "latest_step (Hangup f) L = (\<lambda>d. if L d = Some f then None else L d)"

definition latest :: "server_event list \<Rightarrow> bytes \<Rightarrow> int option" where
  "latest es = fold latest_step es (\<lambda>_. None)"

fun allocates :: "server_event \<Rightarrow> bool" where
  "allocates (Receive f a m) = a"
| "allocates _ = True"

lemma reg_map_step:
  assumes "conns_agree s" "event_possible s e" "one_device s e" "allocates e"
  shows "reg_map (registry_of (server_event_step e s)) = latest_step e (reg_map (registry_of s))"
proof (cases e)
  case (Connect f)
  then show ?thesis by simp
next
  case (Hangup f)
  then have "f \<noteq> INVALID_SOCKET" using assms by (auto simp: conns_agree_def)
  with assms Hangup show ?thesis
    by (simp add: conns_agree_unlink fun_eq_iff reg_map_filter) (simp add: conns_agree_def reg_map_filter)
next
  case (Receive f a m)
  then have "open_conns s f \<noteq> None" using assms by simp
  moreover from this have "f \<noteq> INVALID_SOCKET" using assms(1) by (auto simp: conns_agree_def)
  ultimately obtain l where "open_conns s f = Some l" "f \<noteq> INVALID_SOCKET" by auto
  with assms Receive show ?thesis
    by (auto simp: connection_message_def Let_def conns_agree_def reg_map_set)
qed

lemma reg_map_run:
  "server_run (\<lambda>s e. one_device s e \<and> allocates e) es s \<Longrightarrow>
   conns_agree s \<and> reg_map (registry_of s) = latest es"
proof (induction rule: server_run.induct)
  case run_init
  show ?case using conns_agree_init by (simp add: latest_def server_init_def fun_eq_iff)
next
  case (run_event es s e)
  then show ?case
    using conns_agree_step [of s e] reg_map_step [of s e] by (auto simp: latest_def)
qed

subsection \<open>Properties of the server\<close>

text \<open>
  C7: for every interleaving of connections, messages and disconnects in which each connection logs in
  under one device id, the registry answers like its specification: \<open>DeviceIsOnline\<close> is true
  exactly when the device's latest login is still connected, and then \<open>registry_get\<close> is
  that login's socket, which is open and remembered under that device.
\<close>
theorem registry_tracks_latest_login:
  assumes "server_run (\<lambda>s e. one_device s e \<and> allocates e) es s"
  shows "registry_get d (registry_of s) = (case latest es (id_key d) of None \<Rightarrow> INVALID_SOCKET | Some f \<Rightarrow> f) \<and>
    (DeviceIsOnline (registry_of s) d \<longleftrightarrow> latest es (id_key d) \<noteq> None) \<and>
    (\<forall>f. latest es (id_key d) = Some f \<longrightarrow> open_conns s f = Some (id_key d))"
proof -
  have agree: "conns_agree s" and eq: "reg_map (registry_of s) = latest es"
    using reg_map_run [OF assms] by auto
  have get: "registry_get x (registry_of s) = (case latest es (id_key x) of None \<Rightarrow> INVALID_SOCKET | Some f \<Rightarrow> f)" for x
    using agree by (simp add: registry_get_map eq conns_agree_def)
  have opened: "open_conns s f = Some (id_key d)" if "latest es (id_key d) = Some f" for f
    using agree that reg_map_mem [of "registry_of s" "id_key d" f] by (auto simp: eq conns_agree_def)
  moreover have "latest es (id_key d) \<noteq> Some INVALID_SOCKET"
    using opened agree by (auto simp: conns_agree_def)
  moreover have "registry_get d (registry_of s) = INVALID_SOCKET" if "d = []"
    using that by (simp add: registry_get_def cstr_def)
  ultimately show ?thesis
    using get [of d] get [of "cstr d"]
    by (auto simp: DeviceIsOnline_def protocol_device_is_online_def split: option.splits)
qed

definition login_as :: "bytes \<Rightarrow> protocol_message_t" where
  "login_as d = (zero_message MSG_LOGIN [])\<lparr>c_device_id := d\<rparr>"

lemma login_as_fields [simp]: "c_device_id (login_as d) = d" "c_type (login_as d) = MSG_LOGIN"
  by (simp_all add: login_as_def zero_message_def)

theorem registry_tracks_latest_login_witness:
  "\<exists>s. server_run (\<lambda>s e. one_device s e \<and> allocates e)
         [Connect 5, Receive 5 True (login_as [97]), Connect 6, Receive 6 True (login_as [97]), Hangup 5] s \<and>
       DeviceIsOnline (registry_of s) [97] \<and> registry_get [97] (registry_of s) = 6"
proof -
  let ?es = "[Connect 5, Receive 5 True (login_as [97]), Connect 6, Receive 6 True (login_as [97]), Hangup 5]"
  let ?s = "fold server_event_step ?es server_init"
  have a: "cstr [97] = [97]" by (rule cstr_id) (simp add: nul_free_def)
  have key: "id_key [97] = [97]" by (simp add: id_key_def PROTOCOL_MAX_DEVICE_ID_def a)
  have "server_run (\<lambda>s e. one_device s e \<and> allocates e) ((((([] @ [Connect 5]) @ [Receive 5 True (login_as [97])])
          @ [Connect 6]) @ [Receive 6 True (login_as [97])]) @ [Hangup 5]) ?s"
    unfolding fold.simps comp_def id_apply
    by (rule run_event run_init)+
      (simp_all add: server_init_def INVALID_SOCKET_def connection_message_def a key Let_def)
  then have run: "server_run (\<lambda>s e. one_device s e \<and> allocates e) ?es ?s" by simp
  have "latest ?es (id_key [97]) = Some 6"
    by (simp add: latest_def a key)
  then show ?thesis
    using registry_tracks_latest_login [OF run, of "[97]"] run by auto
qed

text \<open>
  A connection that logs in under two device ids leaves the first one behind in the registry when it
  ends: \<open>registry_remove_fd\<close> stops at the first entry it finds.  When the socket number is used again
  by another client, which has not logged in at all, the first device still counts as online and a command
  for it is written to that client.
\<close>
theorem second_login_leaves_stale_device:
  assumes "cstr a \<noteq> []" "cstr b \<noteq> []" "id_key a \<noteq> id_key b" "f \<noteq> INVALID_SOCKET"
    and "protocol_send_command json = Some bs"
  shows "\<exists>s. server_run (\<lambda>_ _. True)
        [Connect f, Receive f True (login_as a), Receive f True (login_as b), Hangup f, Connect f] s \<and>
      open_conns s f = Some [] \<and> DeviceIsOnline (registry_of s) a \<and>
      SendToDevice True (registry_of s) a json = Inr (f, bs)"
proof -
  let ?s = "\<lparr>registry_of = [\<lparr>entry_id = id_key a, entry_fd = f\<rparr>], open_conns = [f \<mapsto> []]\<rparr>"
  have a: "a \<noteq> []" "json \<noteq> []"
    using assms by (auto simp: cstr_def protocol_send_command_def split: if_splits)
  have eq: "?s = server_event_step (Connect f) (server_event_step (Hangup f)
      (server_event_step (Receive f True (login_as b)) (server_event_step (Receive f True (login_as a))
        (server_event_step (Connect f) server_init))))"
    using assms by (simp add: server_init_def connection_message_def registry_set_def same_id_def
        registry_remove_fd_def Let_def)
  have "server_run (\<lambda>_ _. True) ((((([] @ [Connect f]) @ [Receive f True (login_as a)])
          @ [Receive f True (login_as b)]) @ [Hangup f]) @ [Connect f]) ?s"
    unfolding eq using assms
    by - ((rule run_event run_init)+, simp_all add: server_init_def connection_message_def Let_def)
  then have "server_run (\<lambda>_ _. True)
      [Connect f, Receive f True (login_as a), Receive f True (login_as b), Hangup f, Connect f] ?s"
    by simp
  then show ?thesis
    using assms a by (intro exI [of _ ?s])
      (simp add: DeviceIsOnline_def protocol_device_is_online_def SendToDevice_def
        protocol_send_to_device_def registry_get_def same_id_def Let_def)
qed

theorem second_login_leaves_stale_device_witness:
  "\<exists>s. server_run (\<lambda>_ _. True)
        [Connect 5, Receive 5 True (login_as [97]), Receive 5 True (login_as [98]), Hangup 5, Connect 5] s \<and>
      open_conns s 5 = Some [] \<and> DeviceIsOnline (registry_of s) [97] \<and>
      SendToDevice True (registry_of s) [97] [123, 125] = Inr (5, [2, 0, 0, 0, 2, 123, 125])"
  by (rule second_login_leaves_stale_device)
    (simp_all add: cstr_def id_key_def PROTOCOL_MAX_DEVICE_ID_def INVALID_SOCKET_def
      protocol_send_command_def protocol_send_frame_def protocol_limits MSG_COMMAND_def be32_def)

text \<open>
  C18: a device that is logged in on a lasting connection and logs in once more on a short-lived one, as every
  action of the agent does, is offline once the short-lived connection ends: the registry holds one socket per
  device, the second login replaced the first, and its disconnect removes it.  The lasting connection is still open
  and still remembers the device.
\<close>
theorem short_lived_login_takes_device_offline:
  assumes run: "server_run (\<lambda>s e. one_device s e \<and> allocates e) es s"
    and conn: "open_conns s f = Some (id_key d)" and online: "DeviceIsOnline (registry_of s) d"
    and g: "open_conns s g = None" "g \<noteq> INVALID_SOCKET"
  shows "\<exists>s'. server_run (\<lambda>s e. one_device s e \<and> allocates e)
        (es @ [Connect g, Receive g True (login_as d), Hangup g]) s' \<and>
      open_conns s' f = Some (id_key d) \<and> \<not> DeviceIsOnline (registry_of s') d \<and>
      SendToDevice True (registry_of s') d [123, 125] = Inl SendToDeviceFailed"
proof -
  let ?es = "es @ [Connect g, Receive g True (login_as d), Hangup g]"
  let ?s1 = "server_event_step (Connect g) s"
  let ?s2 = "server_event_step (Receive g True (login_as d)) ?s1"
  let ?s3 = "server_event_step (Hangup g) ?s2"
  have "server_run (\<lambda>s e. one_device s e \<and> allocates e)
      (((es @ [Connect g]) @ [Receive g True (login_as d)]) @ [Hangup g]) ?s3"
    using g by - ((rule run_event run)+, simp_all add: connection_message_def Let_def)
  then have run3: "server_run (\<lambda>s e. one_device s e \<and> allocates e) ?es ?s3" by simp
  have d: "cstr d \<noteq> []" "d \<noteq> []"
    using online by (auto simp: DeviceIsOnline_def protocol_device_is_online_def registry_get_def)
  have "latest ?es (id_key d) = None"
    using d by (simp add: latest_def)
  then have get: "registry_get x (registry_of ?s3) = INVALID_SOCKET" if "id_key x = id_key d" for x
    using reg_map_run [OF run3] that by (simp add: registry_get_map conns_agree_def del: server_event_step.simps)
  have "open_conns ?s3 f = Some (id_key d)"
    using conn g by (auto simp: connection_message_def Let_def)
  moreover have "\<not> DeviceIsOnline (registry_of ?s3) d"
    using get [of "cstr d"] by (simp add: DeviceIsOnline_def protocol_device_is_online_def del: server_event_step.simps)
  moreover have "SendToDevice True (registry_of ?s3) d [123, 125] = Inl SendToDeviceFailed"
    using get [of "cstr d"] d by (simp add: SendToDevice_def protocol_send_to_device_def Let_def del: server_event_step.simps)
  ultimately show ?thesis using run3 by blast
qed

theorem short_lived_login_takes_device_offline_witness:
  "\<exists>s s'. server_run (\<lambda>s e. one_device s e \<and> allocates e) [Connect 5, Receive 5 True (login_as [97])] s \<and>
     DeviceIsOnline (registry_of s) [97] \<and>
     server_run (\<lambda>s e. one_device s e \<and> allocates e)
       ([Connect 5, Receive 5 True (login_as [97])] @ [Connect 6, Receive 6 True (login_as [97]), Hangup 6]) s' \<and>
     open_conns s' 5 = Some [97] \<and> \<not> DeviceIsOnline (registry_of s') [97]"
proof -
  have a: "cstr [97] = [97]" by (rule cstr_id) (simp add: nul_free_def)
  have key: "id_key [97] = [97]" by (simp add: id_key_def PROTOCOL_MAX_DEVICE_ID_def a)
  let ?s = "\<lparr>registry_of = [\<lparr>entry_id = [97], entry_fd = 5\<rparr>], open_conns = [5 \<mapsto> [97]]\<rparr>"
  have eq: "?s = server_event_step (Receive 5 True (login_as [97])) (server_event_step (Connect 5) server_init)"
    by (simp add: server_init_def connection_message_def registry_set_def INVALID_SOCKET_def a key Let_def)
  have "server_run (\<lambda>s e. one_device s e \<and> allocates e) (([] @ [Connect 5]) @ [Receive 5 True (login_as [97])]) ?s"
    unfolding eq
    by (rule run_event run_init)+ (simp_all add: server_init_def INVALID_SOCKET_def)
  then have run: "server_run (\<lambda>s e. one_device s e \<and> allocates e) [Connect 5, Receive 5 True (login_as [97])] ?s"
    by simp
  have on: "DeviceIsOnline (registry_of ?s) [97]"
    by (simp add: DeviceIsOnline_def protocol_device_is_online_def registry_get_def same_id_def a key INVALID_SOCKET_def)
  have "\<exists>s'. server_run (\<lambda>s e. one_device s e \<and> allocates e)
        ([Connect 5, Receive 5 True (login_as [97])] @ [Connect 6, Receive 6 True (login_as [97]), Hangup 6]) s' \<and>
      open_conns s' 5 = Some (id_key [97]) \<and> \<not> DeviceIsOnline (registry_of s') [97] \<and>
      SendToDevice True (registry_of s') [97] [123, 125] = Inl SendToDeviceFailed"
    by (rule short_lived_login_takes_device_offline [OF run _ on]) (simp_all add: key INVALID_SOCKET_def)
  then show ?thesis using run on unfolding key by blast
qed

end
