(* ===== verification/Sockets.thy ===== *)
theory Sockets
  imports Registry
begin

text \<open>
  The lowest layer of \<open>network/\<close>: the socket calls of \<open>tcp_core.c\<close>, the loops with which
  \<open>protocol_message.c\<close> writes and reads whole frames, and the threads of \<open>tcp_server.c\<close> with the table of open
  descriptors they share.  What the operating system answers is an argument; the threads are a step relation over
  all interleavings.
\<close>

subsection \<open>Opening sockets (tcp_core.c)\<close>

text \<open>
  \<open>getaddrinfo\<close> gives a list of addresses, or fails.  For each address: what \<open>socket\<close> returns, and whether \<open>connect\<close>
  (or \<open>bind\<close>) accepts it.  The result is the socket and the sockets that were closed on the way.
\<close>

fun try_addresses :: "(int \<times> bool) list \<Rightarrow> int \<times> int list" where
  "try_addresses [] = (INVALID_SOCKET, [])"
| "try_addresses ((s, ok) # rest) =
     (if s = INVALID_SOCKET then try_addresses rest
      else if ok then (s, [])
      else case try_addresses rest of (r, closed) \<Rightarrow> (r, s # closed))"

definition bind_socket :: "(int \<times> bool) list option \<Rightarrow> int \<times> int list" where
  "bind_socket addrs = (case addrs of None \<Rightarrow> (INVALID_SOCKET, []) | Some as \<Rightarrow> try_addresses as)"

definition connect_socket :: "(int \<times> bool) list option \<Rightarrow> int \<times> int list" where
  "connect_socket addrs = (case addrs of None \<Rightarrow> (INVALID_SOCKET, []) | Some as \<Rightarrow> try_addresses as)"

definition tcp_server_start :: "(int \<times> bool) list option \<Rightarrow> bool \<Rightarrow> int \<Rightarrow> int \<times> int list" where
  "tcp_server_start addrs listen_ok port =
     (if port \<le> 0 then (INVALID_SOCKET, [])
      else case bind_socket addrs of (s, closed) \<Rightarrow>
        if s = INVALID_SOCKET then (INVALID_SOCKET, closed)
        else if \<not> listen_ok then (INVALID_SOCKET, closed @ [s]) else (s, closed))"

definition tcp_client_connect :: "(int \<times> bool) list option \<Rightarrow> string option \<Rightarrow> int \<Rightarrow> int \<times> int list" where
  "tcp_client_connect addrs host port =
     (if host = None \<or> port \<le> 0 then (INVALID_SOCKET, []) else connect_socket addrs)"

definition tcp_accept :: "int \<Rightarrow> int \<Rightarrow> int" where
  "tcp_accept accepted s =
     (if s = INVALID_SOCKET then INVALID_SOCKET else if accepted < 0 then INVALID_SOCKET else accepted)"

text \<open>No socket is leaked: each one that was opened is the result or was closed.\<close>

lemma try_addresses_no_leak:
  assumes "try_addresses as = (r, closed)"
  shows "\<exists>tried rest. as = tried @ rest \<and> filter (\<lambda>s. s \<noteq> INVALID_SOCKET) (map fst tried) =
      closed @ (if r = INVALID_SOCKET then [] else [r]) \<and> (r = INVALID_SOCKET \<longrightarrow> rest = [])"
  using assms
proof (induction as arbitrary: r closed)
  case (Cons a as)
  obtain s ok where a: "a = (s, ok)" by (cases a)
  show ?case
  proof (cases "s \<noteq> INVALID_SOCKET \<and> ok")
    case True
    then show ?thesis using Cons.prems a by (intro exI [of _ "[a]"] exI [of _ as]) auto
  next
    case False
    obtain r' c' where t: "try_addresses as = (r', c')" by (cases "try_addresses as")
    obtain tried rest where "as = tried @ rest" "filter (\<lambda>s. s \<noteq> INVALID_SOCKET) (map fst tried) =
        c' @ (if r' = INVALID_SOCKET then [] else [r'])" "r' = INVALID_SOCKET \<longrightarrow> rest = []"
      using Cons.IH [OF t] by blast
    then show ?thesis using Cons.prems a t False
      by (intro exI [of _ "a # tried"] exI [of _ rest]) (auto split: if_splits)
  qed
qed simp

subsection \<open>Writing and reading (tcp_core.c, protocol_message.c)\<close>

text \<open>
  A call of \<open>send\<close> accepts a number of bytes, at most those it was given, or fails with an error number.  The list holds the answers
  of the successive calls; \<open>None\<close> means that they are used up and the sender still waits.  The result is the
  return code, the bytes that went out, and the answers left.
\<close>

datatype send_answer = Sent nat | SendErr nat

definition EINTR :: nat where "EINTR = 4"

fun send_all :: "send_answer list \<Rightarrow> bytes \<Rightarrow> (int \<times> bytes \<times> send_answer list) option" where
  "send_all [] data = (if data = [] then Some (0, [], []) else None)"
| "send_all (c # cs) data =
     (if data = [] then Some (0, [], c # cs)
      else case c of
             SendErr e \<Rightarrow> if e = EINTR then send_all cs data else Some (-1, [], cs)
           | Sent n \<Rightarrow>
               if n = 0 then Some (-1, [], cs)
               else map_option (\<lambda>(rc, out, cs'). (rc, take n data @ out, cs')) (send_all cs (drop n data)))"

definition tcp_send :: "int \<Rightarrow> send_answer list \<Rightarrow> bytes \<Rightarrow> (int \<times> bytes) option" where
  "tcp_send s calls buf =
     (if s = INVALID_SOCKET then Some (-1, [])
      else if buf = [] then Some (0, [])
      else map_option (\<lambda>(rc, out, _). (if rc \<noteq> 0 then -1 else int (length buf), out)) (send_all calls buf))"

text \<open>The header and the payload of a frame are two calls of \<open>send_all\<close>.\<close>

definition send_frame_fd :: "send_answer list \<Rightarrow> byte \<Rightarrow> bytes \<Rightarrow> (int \<times> bytes) option" where
  "send_frame_fd calls ty payload =
     (if length payload > PROTOCOL_MAX_PAYLOAD then Some (-1, [])
      else case send_all calls (ty # be32 (length payload)) of
             None \<Rightarrow> None
           | Some (rc, out, calls') \<Rightarrow>
               if rc \<noteq> 0 then Some (-1, out)
               else if payload = [] then Some (0, out)
               else map_option (\<lambda>(rc', out', _). (if rc' \<noteq> 0 then -1 else 0, out @ out')) (send_all calls' payload))"

text \<open>
  A call of \<open>recv\<close> gives some bytes of the stream, at least one and at most those asked for; \<open>avail i\<close> is one less than what
  has arrived at the \<open>i\<close>th call.  An end of the stream and an error are the end of the list of bytes.
\<close>

function recv_all_bytes :: "(nat \<Rightarrow> nat) \<Rightarrow> nat \<Rightarrow> bytes \<Rightarrow> nat \<Rightarrow> bytes option \<times> bytes" where
  "recv_all_bytes avail i s len =
     (if len = 0 then (Some [], s)
      else if s = [] then (None, [])
      else let got = take (min len (Suc (avail i))) s;
               (r, s') = recv_all_bytes avail (Suc i) (drop (length got) s) (len - length got)
           in (map_option ((@) got) r, s'))"
  by auto
termination by (relation "measure (\<lambda>(a, i, s, len). len)") auto

declare recv_all_bytes.simps [simp del]

definition recv_message_fd :: "(nat \<Rightarrow> nat \<Rightarrow> nat) \<Rightarrow> bytes \<Rightarrow> (protocol_message_t \<times> bytes) option" where
  "recv_message_fd avail s =
     (case recv_all_bytes (avail 0) 0 s 5 of
        (None, _) \<Rightarrow> None
      | (Some hdr, s1) \<Rightarrow>
          let payload_len = from_be (slice 1 4 hdr)
          in if payload_len > PROTOCOL_MAX_PAYLOAD then None
             else case recv_all_bytes (avail 1) 0 s1 payload_len of
                    (None, _) \<Rightarrow> None
                  | (Some payload, s2) \<Rightarrow> Some (decode_payload (hdr ! 0) payload, s2))"

text \<open>\<open>tcp_recv\<close> repeats a call that a signal interrupted; an error is \<open>None\<close>.\<close>

datatype recv_answer = Received bytes | RecvErr nat

fun tcp_recv_calls :: "recv_answer list \<Rightarrow> bytes option option" where
  "tcp_recv_calls [] = None"
| "tcp_recv_calls (RecvErr e # cs) = (if e = EINTR then tcp_recv_calls cs else Some None)"
| "tcp_recv_calls (Received bs # cs) = Some (Some bs)"

definition tcp_recv :: "int \<Rightarrow> recv_answer list \<Rightarrow> nat \<Rightarrow> bytes option option" where
  "tcp_recv s calls len = (if s = INVALID_SOCKET \<or> len = 0 then Some None else tcp_recv_calls calls)"

definition tcp_close :: "bool \<Rightarrow> int \<Rightarrow> int" where
  "tcp_close close_ok s = (if s = INVALID_SOCKET then -1 else if close_ok then 0 else -1)"

subsection \<open>Partial writes and reads do not matter\<close>

lemma send_all_result:
  assumes "send_all calls data = Some (rc, out, cs)"
  shows "(rc = 0 \<and> out = data) \<or> (rc = -1 \<and> (\<exists>rest. data = out @ rest \<and> rest \<noteq> []))"
  using assms
proof (induction calls arbitrary: data out)
  case (Cons c calls)
  show ?case
  proof (cases c)
    case (Sent n)
    then show ?thesis using Cons.prems Cons.IH [of "drop n data"]
      by (auto split: if_splits) (metis append.assoc append_take_drop_id)+
  next
    case (SendErr e)
    then show ?thesis using Cons by (auto split: if_splits)
  qed
qed (auto split: if_splits)

text \<open>The loop ends: apart from interrupted calls it makes at most one call per byte.\<close>

definition interrupted :: "send_answer list \<Rightarrow> nat" where
  "interrupted calls = length (filter (\<lambda>c. c = SendErr EINTR) calls)"

lemma send_all_ends:
  "length data + interrupted calls \<le> length calls \<Longrightarrow> \<exists>rc out cs. send_all calls data = Some (rc, out, cs)"
proof (induction calls arbitrary: data)
  case (Cons c calls)
  have le: "length (filter (\<lambda>c. c = SendErr EINTR) calls) \<le> length calls" by (rule length_filter_le)
  show ?case
  proof (cases c)
    case (Sent n)
    then have "n \<noteq> 0 \<Longrightarrow> \<exists>rc out cs. send_all calls (drop n data) = Some (rc, out, cs)"
      using Cons.prems le by (intro Cons.IH) (cases data, auto simp: interrupted_def)
    with Sent show ?thesis by auto
  next
    case (SendErr e)
    then show ?thesis using Cons.prems Cons.IH [of data] by (auto simp: interrupted_def)
  qed
qed (auto simp: interrupted_def)

lemma recv_all_bytes_eq:
  "recv_all_bytes avail i s len = (if len \<le> length s then (Some (take len s), drop len s) else (None, []))"
proof (induction avail i s len rule: recv_all_bytes.induct)
  case (1 avail i s len)
  show ?case
  proof (cases "len = 0 \<or> s = []")
    case True
    then show ?thesis by (subst recv_all_bytes.simps) auto
  next
    case False
    define k where "k = length (take (min len (Suc (avail i))) s)"
    have "take n s = take (length (take n s)) s" for n by (metis append_eq_conv_conj append_take_drop_id)
    then have k: "k \<le> len" "k \<le> length s" and got: "take (min len (Suc (avail i))) s = take k s"
      unfolding k_def by auto
    have "take k s @ take (len - k) (drop k s) = take len s" "drop (len - k) (drop k s) = drop len s"
      using k by (metis le_add_diff_inverse take_add, simp)
    then show ?thesis
      using False k 1 [of "take (min len (Suc (avail i))) s"] unfolding got
      by (subst recv_all_bytes.simps) (auto simp: Let_def got)
  qed
qed

lemma recv_message_fd_eq: "recv_message_fd avail s = protocol_recv_message s"
proof (cases "length s < 5")
  case False
  define n where "n = from_be (slice 1 4 s)"
  have hdr: "from_be (slice 1 4 (take 5 s)) = n" "take 5 s ! 0 = s ! 0"
    using False by (simp_all add: slice_def n_def drop_take)
  have fits: "n \<le> length (drop 5 s) \<longleftrightarrow> \<not> length s < 5 + n" using False by auto
  have payload: "slice 5 n s = take n (drop 5 s)" by (simp add: slice_def)
  show ?thesis
    using False fits
    by (simp add: recv_message_fd_def protocol_recv_message_def recv_all_bytes_eq Let_def hdr [simplified] payload add.commute
        flip: n_def [simplified])
qed (simp add: recv_message_fd_def protocol_recv_message_def recv_all_bytes_eq)

text \<open>What the receiver makes of the next frame, however the stream is cut into pieces.\<close>

definition recv_frame_fd :: "(bytes \<Rightarrow> nat \<Rightarrow> nat \<Rightarrow> nat) \<Rightarrow> bytes \<Rightarrow> (frame \<times> bytes) option" where
  "recv_frame_fd avail s =
     (case recv_message_fd (avail s) s of
        None \<Rightarrow> None
      | Some (m, rest) \<Rightarrow>
          (case frame_view (convertProtocolMessage m) of None \<Rightarrow> None | Some f \<Rightarrow> Some (f, rest)))"

lemma recv_frame_fd_eq: "recv_frame_fd avail = recv_frame"
  by (rule ext) (simp add: recv_frame_fd_def recv_frame_def recv_go_def recv_message_fd_eq split: option.split)

lemma send_frame_protocol:
  assumes "send_frame f = Some bs"
  obtains ty payload where "protocol_send_frame ty payload = Some bs"
  using assms
  by (cases f) (auto simp: protocol_send_login_def protocol_send_command_def protocol_send_file_meta_def
      protocol_send_file_chunk_def protocol_send_file_done_def protocol_send_ack_def Let_def split: if_splits)

lemma send_frame_fd_result:
  assumes "protocol_send_frame ty payload = Some bs" "send_frame_fd calls ty payload = Some (rc, out)"
  shows "(rc = 0 \<and> out = bs) \<or> (rc = -1 \<and> (\<exists>rest. bs = out @ rest \<and> rest \<noteq> []))"
proof -
  have bs: "\<not> length payload > PROTOCOL_MAX_PAYLOAD" "bs = (ty # be32 (length payload)) @ payload"
    using assms(1) by (auto simp: protocol_send_frame_def split: if_splits)
  obtain rc1 out1 calls' where 1: "send_all calls (ty # be32 (length payload)) = Some (rc1, out1, calls')"
    using assms(2) bs(1) by (auto simp: send_frame_fd_def split: option.splits)
  show ?thesis
  proof (cases "rc1 = 0 \<and> payload \<noteq> []")
    case True
    then have "out1 = ty # be32 (length payload)" using send_all_result [OF 1] by simp
    then show ?thesis using True assms(2) bs 1
      by (fastforce simp: send_frame_fd_def dest: send_all_result)
  next
    case False
    then have "rc = 0 \<and> out = out1 \<and> rc1 = 0 \<and> payload = [] \<or> rc = -1 \<and> out = out1 \<and> rc1 \<noteq> 0"
      using assms(2) bs 1 by (auto simp: send_frame_fd_def split: if_splits)
    then show ?thesis using send_all_result [OF 1] bs(2) by (metis append.right_neutral append_assoc append_is_Nil_conv)
  qed
qed

lemma send_all_answers:
  assumes "send_all calls data = Some (0, out, cs)"
  shows "length calls + interrupted cs \<le> length data + interrupted calls + length cs"
  using assms
proof (induction calls arbitrary: data out)
  case (Cons c calls)
  show ?case
  proof (cases "data = []")
    case True
    then show ?thesis using Cons.prems by auto
  next
    case False
    then show ?thesis using Cons by (cases c; cases data) (fastforce simp: interrupted_def split: if_splits)+
  qed
qed (auto split: if_splits)

lemma send_frame_fd_ends:
  assumes "5 + length payload + interrupted calls \<le> length calls"
  shows "\<exists>rc out. send_frame_fd calls ty payload = Some (rc, out)"
proof -
  let ?hdr = "ty # be32 (length payload)"
  obtain rc out cs where 1: "send_all calls ?hdr = Some (rc, out, cs)"
    using send_all_ends [of ?hdr calls] assms by auto
  have "\<exists>rc out cs'. send_all cs payload = Some (rc, out, cs')" if "rc = 0"
    using send_all_ends [of payload cs] send_all_answers [of calls ?hdr out cs] 1 assms that by simp
  then show ?thesis using 1 by (fastforce simp: send_frame_fd_def)
qed

lemma torn_frame_is_no_frame:
  assumes "protocol_send_frame ty payload = Some (out @ rest)" "rest \<noteq> []"
  shows "protocol_recv_message out = None"
proof (cases "length out < 5")
  case False
  let ?n = "length payload"
  have frame: "out @ rest = ([ty] @ be32 ?n) @ payload" "?n \<le> 1048576"
    using assms(1) by (auto simp: protocol_send_frame_def PROTOCOL_MAX_PAYLOAD_def split: if_splits)
  from False have "slice 1 4 out = slice 1 4 (out @ rest)" by (simp add: slice_def)
  also have "\<dots> = be32 ?n" unfolding frame(1) using slice_mid [of "[ty]" 1 "be32 ?n" 4 payload] by simp
  finally have "from_be (slice 1 4 out) = ?n" using frame(2) by simp
  moreover have "length out < 5 + ?n" using arg_cong [OF frame(1), of length] assms(2) by (cases rest) auto
  ultimately show ?thesis using False by (simp add: protocol_recv_message_def Let_def)
qed (simp add: protocol_recv_message_def)




subsection \<open>Two threads that write to one socket\<close>

text \<open>
  The backend writes to a device's socket from the thread of that connection (acknowledgements), from the threads of other
  connections (commands of the administrator) and from the goroutine that sends waiting commands, and no lock is taken; a frame is
  two writes.
\<close>

definition frame_writes :: "bytes \<Rightarrow> bytes list" where
  "frame_writes json = [MSG_COMMAND # be32 (length json), json]"

lemma frame_writes_sent: "protocol_send_command json = Some bs \<Longrightarrow> concat (frame_writes json) = bs"
  by (auto simp: protocol_send_command_def protocol_send_frame_def frame_writes_def split: if_splits)

lemma recv_within_frame:
  assumes "protocol_send_command a = Some fa" "hd a = 123" "length a \<le> length stream"
  shows "\<exists>m rest. recv_go ((MSG_COMMAND # be32 (length a)) @ (MSG_COMMAND # stream)) = Some (m, rest) \<and>
    Type m = MSG_COMMAND \<and> CommandJSON m \<noteq> [] \<and> hd (CommandJSON m) = MSG_COMMAND"
proof -
  let ?p = "take (length a) (MSG_COMMAND # stream)" and ?rest = "drop (length a) (MSG_COMMAND # stream)"
  have len: "0 < length a" "length ?p = length a" "\<not> length a > PROTOCOL_MAX_PAYLOAD"
    using assms by (auto simp: protocol_send_command_def split: if_splits)
  then have "protocol_send_frame MSG_COMMAND ?p = Some ((MSG_COMMAND # be32 (length a)) @ ?p)"
    by (simp add: protocol_send_frame_def)
  from recv_sent_frame [OF this, of ?rest]
  have "recv_go ((MSG_COMMAND # be32 (length a)) @ (MSG_COMMAND # stream)) =
      Some (convertProtocolMessage (decode_payload MSG_COMMAND ?p), ?rest)"
    by (simp add: recv_go_def)
  moreover have "CommandJSON (convertProtocolMessage (decode_payload MSG_COMMAND ?p)) = ?p"
    by (simp add: convertProtocolMessage_def Let_def)
  ultimately show ?thesis using len(1) by (cases a) auto
qed

text \<open>
  C12: commands that are sent to a device at the same time destroy each other.  When two threads write a command each to the
  same socket and the writes of the two frames mix in any way at all, the first thing the device receives is a command that
  neither of them sent.
\<close>
theorem concurrent_sends_garble_commands:
  assumes a: "protocol_send_command a = Some fa" "hd a = 123" and b: "protocol_send_command b = Some fb" "hd b = 123"
    and ws: "ws \<in> shuffles (frame_writes a) (frame_writes b)" and mixed: "concat ws \<noteq> fa @ fb" "concat ws \<noteq> fb @ fa"
  shows "\<exists>m rest. recv_go (concat ws) = Some (m, rest) \<and> Type m = MSG_COMMAND \<and> CommandJSON m \<noteq> a \<and> CommandJSON m \<noteq> b"
proof -
  let ?ha = "MSG_COMMAND # be32 (length a)" and ?hb = "MSG_COMMAND # be32 (length b)"
  have "ws \<in> {[?ha, ?hb, a, b], [?ha, ?hb, b, a], [?hb, ?ha, a, b], [?hb, ?ha, b, a]}"
    using ws mixed frame_writes_sent [OF a(1)] frame_writes_sent [OF b(1)]
    by (auto simp: frame_writes_def shuffles.simps)
  then consider (a_first) tail where "concat ws = ?ha @ (MSG_COMMAND # tail)" "length a \<le> length tail"
    | (b_first) tail where "concat ws = ?hb @ (MSG_COMMAND # tail)" "length b \<le> length tail"
    by auto
  then obtain m rest where m: "recv_go (concat ws) = Some (m, rest)" "Type m = MSG_COMMAND" "CommandJSON m \<noteq> []"
    "hd (CommandJSON m) = MSG_COMMAND"
    by cases (metis recv_within_frame [OF a], metis recv_within_frame [OF b])
  then have "CommandJSON m \<noteq> a" "CommandJSON m \<noteq> b" using a(2) b(2) by (auto simp: MSG_COMMAND_def)
  with m show ?thesis by blast
qed

theorem concurrent_sends_garble_commands_witness:
  "\<exists>m rest. recv_go [2, 0, 0, 0, 2, 2, 0, 0, 0, 3, 123, 125, 123, 32, 125] = Some (m, rest) \<and> Type m = MSG_COMMAND \<and>
     CommandJSON m \<noteq> [123, 125] \<and> CommandJSON m \<noteq> [123, 32, 125]"
proof -
  have sent: "protocol_send_command [123, 125] = Some [2, 0, 0, 0, 2, 123, 125]"
    "protocol_send_command [123, 32, 125] = Some [2, 0, 0, 0, 3, 123, 32, 125]"
    by (simp_all add: protocol_send_command_def protocol_send_frame_def protocol_limits MSG_COMMAND_def be32_def)
  show ?thesis
    using concurrent_sends_garble_commands [OF sent(1) _ sent(2), of "[[2, 0, 0, 0, 2], [2, 0, 0, 0, 3], [123, 125], [123, 32, 125]]"]
    by (simp add: frame_writes_def MSG_COMMAND_def be32_def shuffles.simps)
qed


subsection \<open>The threads of the server (tcp_server.c)\<close>

text \<open>
  A descriptor number is open for an accepted connection or for something else of the process (the listening socket, a file).  A worker
  thread serves the connection it was started for: it begins, runs \<open>protocol_connection_handler\<close> (which takes the registry entry out and
  closes the socket when the stream ends), and then \<open>connection_worker\<close> closes the socket number once more.
\<close>

datatype fd_owner = Conn nat | Other

datatype worker =
    Starting int
  | Serving int bytes
  | Leaving int
  | Closing int

record tcp_server =
  running :: bool
  listening :: bool
  accepting :: bool
  freed :: bool
  fds :: "int \<Rightarrow> fd_owner option"
  next_conn :: nat
  workers :: "nat \<Rightarrow> worker option"
  devices :: registry
  handled :: "(fd_owner \<times> protocol_message_t) list"

datatype tcp_event =
    Accepted int
  | Dropped int
  | Begin nat int
  | Message nat int bool protocol_message_t
  | EndOfStream nat int
  | FirstClose nat int
  | SecondClose nat int
  | OpenOther int
  | CloseOther int
  | StopServer
  | AcceptLoopEnds
  | FreeServer

text \<open>The numbers in \<open>used\<close> are open when the server starts, the listening socket among them.\<close>

definition tcp_server_create :: "int set \<Rightarrow> tcp_server" where
  "tcp_server_create used =
     \<lparr>running = True, listening = True, accepting = True, freed = False, fds = (\<lambda>f. if 0 \<le> f \<and> f \<in> used then Some Other else None),
      next_conn = 0, workers = (\<lambda>_. None), devices = [], handled = []\<rparr>"

text \<open>The operating system hands out the lowest number that is free.\<close>

definition lowest_free :: "(int \<Rightarrow> fd_owner option) \<Rightarrow> int \<Rightarrow> bool" where
  "lowest_free table f \<longleftrightarrow> 0 \<le> f \<and> table f = None \<and> (\<forall>g. 0 \<le> g \<and> g < f \<longrightarrow> table g \<noteq> None)"

text \<open>
  One step of any thread.  \<open>Dropped\<close>: no memory or no thread for an accepted connection, which is closed at once.  A worker
  reads from whatever its number is open for, and fails to read when it is not open.  Steps that use the
  server structure are possible only before it is freed; afterwards the program has no defined behaviour there.
\<close>

inductive tcp_step :: "tcp_server \<Rightarrow> tcp_event \<Rightarrow> tcp_server \<Rightarrow> bool" where
  accept: "accepting s \<Longrightarrow> listening s \<Longrightarrow> lowest_free (fds s) f \<Longrightarrow>
    tcp_step s (Accepted f)
      (s\<lparr>fds := (fds s)(f \<mapsto> Conn (next_conn s)), workers := (workers s)(next_conn s \<mapsto> Starting f), next_conn := Suc (next_conn s)\<rparr>)"
| drop: "accepting s \<Longrightarrow> listening s \<Longrightarrow> lowest_free (fds s) f \<Longrightarrow> tcp_step s (Dropped f) s"
| start: "workers s w = Some (Starting f) \<Longrightarrow> \<not> freed s \<Longrightarrow>
    tcp_step s (Begin w f) (s\<lparr>workers := (workers s)(w \<mapsto> Serving f [])\<rparr>)"
| message: "workers s w = Some (Serving f dev) \<Longrightarrow> fds s f = Some src \<Longrightarrow> \<not> freed s \<Longrightarrow>
    connection_message alloc_ok f m dev (devices s) = (m', dev', devs) \<Longrightarrow>
    tcp_step s (Message w f alloc_ok m)
      (s\<lparr>workers := (workers s)(w \<mapsto> Serving f dev'), devices := devs, handled := handled s @ [(src, m')]\<rparr>)"
| stream_end: "workers s w = Some (Serving f dev) \<Longrightarrow> \<not> freed s \<Longrightarrow>
    tcp_step s (EndOfStream w f)
      (s\<lparr>workers := (workers s)(w \<mapsto> Leaving f), devices := registry_remove_fd f (devices s)\<rparr>)"
| first_close: "workers s w = Some (Leaving f) \<Longrightarrow>
    tcp_step s (FirstClose w f) (s\<lparr>workers := (workers s)(w \<mapsto> Closing f), fds := (fds s)(f := None)\<rparr>)"
| second_close: "workers s w = Some (Closing f) \<Longrightarrow>
    tcp_step s (SecondClose w f) (s\<lparr>workers := (workers s)(w := None), fds := (fds s)(f := None)\<rparr>)"
| open_other: "lowest_free (fds s) f \<Longrightarrow> tcp_step s (OpenOther f) (s\<lparr>fds := (fds s)(f \<mapsto> Other)\<rparr>)"
| close_other: "fds s f = Some Other \<Longrightarrow> tcp_step s (CloseOther f) (s\<lparr>fds := (fds s)(f := None)\<rparr>)"
| stop: "tcp_step s StopServer (if running s then s\<lparr>running := False, listening := False\<rparr> else s)"
| accept_end: "accepting s \<Longrightarrow> \<not> running s \<Longrightarrow> tcp_step s AcceptLoopEnds (s\<lparr>accepting := False\<rparr>)"
| free: "\<not> running s \<Longrightarrow> \<not> accepting s \<Longrightarrow> tcp_step s FreeServer (s\<lparr>freed := True\<rparr>)"

inductive_cases tcp_stepE: "tcp_step s e t"

text \<open>
  The discipline that the code needs and nothing enforces: no number is handed out again between the two closes of a
  worker.
\<close>

fun settled :: "tcp_server \<Rightarrow> tcp_event \<Rightarrow> bool" where
  "settled s (Accepted f) \<longleftrightarrow> (\<forall>w. workers s w \<noteq> Some (Closing f))"
| "settled s (OpenOther f) \<longleftrightarrow> (\<forall>w. workers s w \<noteq> Some (Closing f))"
| "settled s _ \<longleftrightarrow> True"

definition settled_step :: "tcp_server \<Rightarrow> tcp_event \<Rightarrow> tcp_server \<Rightarrow> bool" where
  "settled_step s e t \<longleftrightarrow> tcp_step s e t \<and> settled s e"

fun worker_fd :: "worker \<Rightarrow> int" where
  "worker_fd (Starting f) = f"
| "worker_fd (Serving f dev) = f"
| "worker_fd (Leaving f) = f"
| "worker_fd (Closing f) = f"

definition worker_owns :: "(int \<Rightarrow> fd_owner option) \<Rightarrow> nat \<Rightarrow> worker \<Rightarrow> bool" where
  "worker_owns table w x \<longleftrightarrow> table (worker_fd x) = (case x of Closing f \<Rightarrow> None | _ \<Rightarrow> Some (Conn w))"

text \<open>Each connection that is open has a worker, each worker has the number it works on to itself.\<close>

definition sockets_ok :: "tcp_server \<Rightarrow> bool" where
  "sockets_ok s \<longleftrightarrow> fds s INVALID_SOCKET = None \<and>
     (\<forall>w x. workers s w = Some x \<longrightarrow> w < next_conn s \<and> worker_owns (fds s) w x) \<and>
     (\<forall>f w. fds s f = Some (Conn w) \<longrightarrow> (\<exists>x. workers s w = Some x \<and> worker_fd x = f))"

lemma sockets_okD:
  assumes "sockets_ok s" "workers s w = Some x"
  shows "w < next_conn s" "(\<forall>f. x \<noteq> Closing f) \<Longrightarrow> fds s (worker_fd x) = Some (Conn w)" "x = Closing f \<Longrightarrow> fds s f = None"
proof -
  have "w < next_conn s \<and> worker_owns (fds s) w x" using assms by (auto simp: sockets_ok_def)
  then show "w < next_conn s" "(\<forall>f. x \<noteq> Closing f) \<Longrightarrow> fds s (worker_fd x) = Some (Conn w)" "x = Closing f \<Longrightarrow> fds s f = None"
    by (cases x; simp add: worker_owns_def)+
qed

lemma sockets_ok_conn: "sockets_ok s \<Longrightarrow> fds s f = Some (Conn w) \<Longrightarrow> \<exists>x. workers s w = Some x \<and> worker_fd x = f \<and> w < next_conn s"
  by (fastforce simp: sockets_ok_def)

lemma worker_owns_other:
  "table f = None \<Longrightarrow> x \<noteq> Closing f \<Longrightarrow> worker_owns table w x \<Longrightarrow> worker_owns (table(f \<mapsto> c)) w x"
  by (cases x) (auto simp: worker_owns_def)

lemma worker_owns_closed:
  "table f = Some c \<Longrightarrow> c \<noteq> Conn w \<Longrightarrow> worker_owns table w x \<Longrightarrow> worker_owns (table(f := None)) w x"
  by (cases x) (auto simp: worker_owns_def)

lemma sockets_ok_init: "sockets_ok (tcp_server_create used)"
  by (simp add: sockets_ok_def tcp_server_create_def INVALID_SOCKET_def)

text \<open>A step of a worker that stays on its number.\<close>

lemma sockets_ok_worker:
  assumes "sockets_ok s" "workers s w = Some x" "worker_fd y = worker_fd x" "\<forall>f. x \<noteq> Closing f" "\<forall>f. y \<noteq> Closing f"
  shows "sockets_ok (s\<lparr>workers := (workers s)(w \<mapsto> y)\<rparr>)"
proof -
  have "w < next_conn s" "worker_owns (fds s) w y"
    using sockets_okD(1,2) [OF assms(1,2)] assms(3-5) by (cases y; simp add: worker_owns_def)+
  moreover have "worker_fd y = f" if "fds s f = Some (Conn w)" for f
    using sockets_ok_conn [OF assms(1) that] assms(2,3) by simp
  ultimately show ?thesis using assms(1) by (simp add: sockets_ok_def)
qed

lemma sockets_ok_step:
  assumes "sockets_ok s" "settled_step s e t" shows "sockets_ok t"
  using assms(2) unfolding settled_step_def
proof (elim conjE)
  assume "tcp_step s e t" "settled s e"
  then show ?thesis using assms(1)
  proof (induction rule: tcp_step.induct)
    case (accept s f)
    have old: "w < Suc (next_conn s) \<and> worker_owns ((fds s)(f \<mapsto> Conn (next_conn s))) w x" if "workers s w = Some x" for w x
      using accept that by (auto simp: sockets_ok_def lowest_free_def less_SucI intro!: worker_owns_other)
    have new: "\<exists>x. workers s w = Some x \<and> worker_fd x = g \<and> w \<noteq> next_conn s" if "fds s g = Some (Conn w)" for g w
      using sockets_ok_conn [OF accept.prems(2) that] by auto
    have "fds s INVALID_SOCKET = None" "f \<noteq> INVALID_SOCKET"
      using accept by (auto simp: sockets_ok_def lowest_free_def INVALID_SOCKET_def)
    with old new show ?case by (fastforce simp: sockets_ok_def worker_owns_def)
  next
    case (first_close s w f)
    then have "fds s f = Some (Conn w)" using sockets_okD(2) [of s w] by fastforce
    moreover from first_close have "v \<noteq> w" if "fds s g = Some (Conn v)" "g \<noteq> f" for g v
      using sockets_ok_conn [OF _ that(1)] that(2) by fastforce
    ultimately show ?case using first_close sockets_ok_conn [OF first_close.prems(2)]
      by (auto simp: sockets_ok_def worker_owns_def [of _ _ "Closing f"] intro!: worker_owns_closed)
  next
    case (second_close s w f)
    then have f: "fds s f = None" using sockets_okD(3) [of s w] by fastforce
    then have "(fds s)(f := None) = fds s" by auto
    moreover from second_close f have "fds s g \<noteq> Some (Conn w)" for g using sockets_ok_conn [of s g w] by fastforce
    ultimately show ?case using second_close by (auto simp: sockets_ok_def)
  next
    case (open_other s f)
    then show ?case by (auto simp: sockets_ok_def lowest_free_def INVALID_SOCKET_def intro!: worker_owns_other)
  next
    case (close_other s f)
    then show ?case by (auto simp: sockets_ok_def intro!: worker_owns_closed)
  next
    case (start s w f)
    then show ?case by (intro sockets_ok_worker) auto
  next
    case (message s w f dev src a m m' dev' devs)
    then have "sockets_ok (s\<lparr>workers := (workers s)(w \<mapsto> Serving f dev')\<rparr>)" by (intro sockets_ok_worker) auto
    then show ?case by (simp add: sockets_ok_def)
  next
    case (stream_end s w f dev)
    then have "sockets_ok (s\<lparr>workers := (workers s)(w \<mapsto> Leaving f)\<rparr>)" by (intro sockets_ok_worker) auto
    then show ?case by (simp add: sockets_ok_def)
  qed (simp_all add: sockets_ok_def)
qed

interpretation served: lts_invariant "tcp_server_create used" settled_step sockets_ok for used
  by unfold_locales (auto intro: sockets_ok_init sockets_ok_step)


subsection \<open>The threads implement the registry's state machine\<close>

fun worker_device :: "worker \<Rightarrow> bytes option" where
  "worker_device (Starting f) = Some []"
| "worker_device (Serving f dev) = Some dev"
| "worker_device _ = None"

fun owner_device :: "(nat \<Rightarrow> worker option) \<Rightarrow> fd_owner option \<Rightarrow> bytes option" where
  "owner_device ws (Some (Conn w)) = Option.bind (ws w) worker_device"
| "owner_device ws _ = None"

definition server_view :: "tcp_server \<Rightarrow> server_state" where
  "server_view s = \<lparr>registry_of = devices s, open_conns = (\<lambda>f. owner_device (workers s) (fds s f))\<rparr>"

lemma owner_device_upd: "owner \<noteq> Some (Conn w) \<Longrightarrow> owner_device (ws(w := x)) owner = owner_device ws owner"
  by (cases "(ws, owner)" rule: owner_device.cases) auto

fun tcp_trace :: "tcp_event \<Rightarrow> server_event list" where
  "tcp_trace (Accepted f) = [Connect f]"
| "tcp_trace (Message w f a m) = [Receive f a m]"
| "tcp_trace (EndOfStream w f) = [Hangup f]"
| "tcp_trace _ = []"

lemma server_view_init: "server_view (tcp_server_create used) = server_init"
  by (auto simp: server_view_def tcp_server_create_def server_init_def)

text \<open>A worker whose device the registry machine sees in the same way is the only thing that a step changes there.\<close>

lemma server_view_worker:
  assumes "sockets_ok s" "workers s w = Some x" "\<forall>f. x \<noteq> Closing f"
  shows "server_view (s\<lparr>workers := (workers s)(w \<mapsto> y)\<rparr>) =
    (server_view s)\<lparr>open_conns := (open_conns (server_view s))(worker_fd x := worker_device y)\<rparr>"
proof -
  have f: "fds s (worker_fd x) = Some (Conn w)" using sockets_okD(2) [OF assms(1,2)] assms(3) by simp
  have "g = worker_fd x" if "fds s g = Some (Conn w)" for g
    using sockets_ok_conn [OF assms(1) that] assms(2) by auto
  then have "owner_device ((workers s)(w \<mapsto> y)) (fds s g) = owner_device (workers s) (fds s g)" if "g \<noteq> worker_fd x" for g
    using that by (intro owner_device_upd) auto
  with f show ?thesis by (auto simp: server_view_def fun_eq_iff)
qed

lemma server_view_other_fields [simp]:
  "server_view (s\<lparr>devices := d\<rparr>) = (server_view s)\<lparr>registry_of := d\<rparr>"
  "server_view (s\<lparr>handled := h\<rparr>) = server_view s" "server_view (s\<lparr>freed := b\<rparr>) = server_view s"
  "server_view (s\<lparr>running := r\<rparr>) = server_view s" "server_view (s\<lparr>listening := r\<rparr>) = server_view s"
  "server_view (s\<lparr>accepting := r\<rparr>) = server_view s"
  by (simp_all add: server_view_def)

lemma server_view_step:
  assumes "tcp_step s e t" "settled s e" "sockets_ok s"
  shows "(tcp_trace e = [] \<and> server_view t = server_view s) \<or>
    (\<exists>r. tcp_trace e = [r] \<and> event_possible (server_view s) r \<and> server_view t = server_event_step r (server_view s))"
  using assms
proof (induction rule: tcp_step.induct)
  case (accept s f)
  then have "fds s g \<noteq> Some (Conn (next_conn s))" for g using sockets_ok_conn [of s g] by fastforce
  then show ?case using accept
    by (auto simp: server_view_def lowest_free_def INVALID_SOCKET_def fun_eq_iff owner_device_upd)
next
  case (start s w f)
  have "fds s f = Some (Conn w)" using sockets_okD(2) [OF start(4,1)] by simp
  then show ?case using server_view_worker [OF start(4,1), of "Serving f []"] start(1)
    by (simp add: server_view_def fun_eq_iff)
next
  case (message s w f dev src a m m' dev' devs)
  have "fds s f = Some (Conn w)" using sockets_okD(2) [OF message(6,1)] by simp
  then have "open_conns (server_view s) f = Some dev" using message(1) by (simp add: server_view_def)
  moreover have "registry_of (server_view s) = devices s" by (simp add: server_view_def)
  moreover have "server_view (s\<lparr>workers := (workers s)(w \<mapsto> Serving f dev'), devices := devs, handled := handled s @ [(src, m')]\<rparr>) =
      (server_view s)\<lparr>open_conns := (open_conns (server_view s))(f \<mapsto> dev'), registry_of := devs\<rparr>"
    using server_view_worker [OF message(6,1), of "Serving f dev'"] by (simp del: fun_upd_apply)
  ultimately show ?case using message(4) by simp
next
  case (stream_end s w f dev)
  have "fds s f = Some (Conn w)" using sockets_okD(2) [OF stream_end(4,1)] by simp
  then have "open_conns (server_view s) f = Some dev" using stream_end(1) by (simp add: server_view_def)
  then show ?case using server_view_worker [OF stream_end(4,1), of "Leaving f"]
    by (simp add: server_view_def)
next
  case (first_close s w f)
  have f: "fds s f = Some (Conn w)" using sockets_okD(2) [OF first_close(3,1)] by simp
  have "fds s g \<noteq> Some (Conn w)" if "g \<noteq> f" for g
    using sockets_ok_conn [OF first_close(3), of g w] first_close(1) that by auto
  then show ?case using f first_close(1) by (auto simp: server_view_def fun_eq_iff owner_device_upd)
next
  case (second_close s w f)
  have f: "fds s f = None" using sockets_okD(3) [OF second_close(3,1)] by simp
  then have "fds s g \<noteq> Some (Conn w)" for g
    using sockets_ok_conn [OF second_close(3), of g w] second_close(1) by auto
  then show ?case using f by (auto simp: server_view_def fun_eq_iff owner_device_upd)
next
  case (stop s)
  then show ?case by simp
qed (auto simp: server_view_def lowest_free_def fun_eq_iff)

text \<open>
  C9: with the discipline the code relies on, every worker serves its own connection.  As long as no descriptor number is handed
  out again between the two closes of a worker, then in every interleaving of the accept loop, the workers, other files of
  the process and the shutdown, each worker's socket is open and is the connection it was started for, and the threads
  together behave like the atomic registry machine: their connections, messages and ends of streams are one of its runs.
\<close>
theorem threads_refine_registry:
  assumes "lts_run (tcp_server_create used) (\<lambda>s e t. settled_step s e t \<and> (\<forall>r\<in>set (tcp_trace e). P (server_view s) r)) es s"
  shows "server_run P (concat (map tcp_trace es)) (server_view s) \<and>
    (\<forall>w f dev. workers s w = Some (Serving f dev) \<longrightarrow> fds s f = Some (Conn w))"
  using assms
proof (induction rule: lts_run.induct)
  case lts_init
  show ?case by (simp add: server_view_init run_init) (simp add: tcp_server_create_def)
next
  case (lts_step es s e t)
  have ok: "sockets_ok s" by (rule served.run_inv [OF lts_run_mono [OF lts_step(1)]]) simp
  then have t: "sockets_ok t" using lts_step(2) by (blast intro: sockets_ok_step)
  have "fds t f = Some (Conn w)" if "workers t w = Some (Serving f dev)" for w f dev
    using sockets_okD(2) [OF t that] by simp
  moreover have "server_run P (concat (map tcp_trace (es @ [e]))) (server_view t)"
    using server_view_step [OF _ _ ok, of e t] lts_step run_event [of P "concat (map tcp_trace es)" "server_view s"]
    by (auto simp: settled_step_def)
  ultimately show ?case by blast
qed


theorem threads_refine_registry_witness:
  "\<exists>s. server_run (\<lambda>_ _. True) [Connect 3, Receive 3 True (login_as [97])] (server_view s) \<and>
     (\<forall>w f dev. workers s w = Some (Serving f dev) \<longrightarrow> fds s f = Some (Conn w)) \<and> workers s 0 = Some (Serving 3 [97])"
proof -
  let ?step = "\<lambda>s e t. settled_step s e t \<and> (\<forall>r\<in>set (tcp_trace e). True)"
  let ?s0 = "tcp_server_create {0, 1, 2}"
  let ?s1 = "?s0\<lparr>fds := (fds ?s0)(3 \<mapsto> Conn 0), workers := (workers ?s0)(0 \<mapsto> Starting 3), next_conn := 1\<rparr>"
  let ?s2 = "?s1\<lparr>workers := (workers ?s1)(0 \<mapsto> Serving 3 [])\<rparr>"
  let ?reg = "[\<lparr>entry_id = [97], entry_fd = 3\<rparr>]"
  let ?s3 = "?s2\<lparr>workers := (workers ?s2)(0 \<mapsto> Serving 3 [97]), devices := ?reg, handled := handled ?s2 @ [(Conn 0, login_as [97])]\<rparr>"
  have a: "cstr [97] = [97]" "id_key [97] = [97]" by (simp_all add: cstr_def id_key_def PROTOCOL_MAX_DEVICE_ID_def)
  have "tcp_step ?s0 (Accepted 3) ?s1"
    using tcp_step.accept [of ?s0 3] by (simp add: tcp_server_create_def lowest_free_def)
  moreover have "tcp_step ?s1 (Begin 0 3) ?s2"
    by (rule tcp_step.start) (simp_all add: tcp_server_create_def)
  moreover have "tcp_step ?s2 (Message 0 3 True (login_as [97])) ?s3"
    by (rule tcp_step.message) (simp_all add: tcp_server_create_def connection_message_def registry_set_def a INVALID_SOCKET_def Let_def)
  ultimately have "lts_run ?s0 ?step [Accepted 3, Begin 0 3, Message 0 3 True (login_as [97])] ?s3"
    by (intro lts_run_Cons [of ?step ?s0 _ ?s1] lts_run_Cons [of ?step ?s1 _ ?s2] lts_run_one)
      (simp_all add: settled_step_def tcp_server_create_def)
  from threads_refine_registry [OF this] show ?thesis by (intro exI [of _ ?s3]) simp
qed

subsection \<open>A number is closed twice\<close>

lemma fresh_worker_step: "\<forall>w\<ge>next_conn s. workers s w = None \<Longrightarrow> tcp_step s e t \<Longrightarrow> \<forall>w\<ge>next_conn t. workers t w = None"
  by (erule tcp_step.cases) (auto simp: order.strict_iff_order)

interpretation any_threads: lts_invariant "tcp_server_create used" tcp_step "\<lambda>s. \<forall>w\<ge>next_conn s. workers s w = None" for used
  by unfold_locales (auto simp: tcp_server_create_def intro: fresh_worker_step [rule_format])

text \<open>
  C10: the second close hits somebody else.  The socket of a connection is closed by the handler and once more by the
  worker.  If a client connects in between, it gets the same number (the lowest free one), and the second close cuts it off although its
  worker goes on serving the number.  The next client then shares the number with that worker: a frame it sends, without
  ever having logged in, is handed to the controller as a frame of the device that was cut off.
\<close>
theorem second_close_mixes_up_devices:
  assumes run: "lts_run (tcp_server_create used) tcp_step es s" and n: "n = next_conn s"
    and closing: "workers s w = Some (Closing f)" "lowest_free (fds s) f"
    and up: "accepting s" "listening s" "\<not> freed s" and d: "cstr d \<noteq> []" and m: "cstr (c_device_id m) = []"
  shows "\<exists>t u. lts_run (tcp_server_create used) tcp_step
        (es @ [Accepted f, Begin n f, Message n f True (login_as d), SecondClose w f]) t \<and>
      workers t n = Some (Serving f (id_key d)) \<and> fds t f = None \<and>
      lts_run t tcp_step [Accepted f, Message n f True m] u \<and>
      fds u f = Some (Conn (Suc n)) \<and> handled u = handled s @ [(Conn n, login_as d), (Conn (Suc n), m\<lparr>c_device_id := id_key d\<rparr>)]"
proof -
  have wn: "w \<noteq> n" using any_threads.run_inv [OF run] closing(1) n by force
  let ?s1 = "s\<lparr>fds := (fds s)(f \<mapsto> Conn (next_conn s)), workers := (workers s)(next_conn s \<mapsto> Starting f), next_conn := Suc (next_conn s)\<rparr>"
  let ?s2 = "?s1\<lparr>workers := (workers ?s1)(n \<mapsto> Serving f [])\<rparr>"
  let ?regs = "registry_set True (id_key d) f (devices s)"
  let ?s3 = "?s2\<lparr>workers := (workers ?s2)(n \<mapsto> Serving f (id_key d)), devices := ?regs, handled := handled ?s2 @ [(Conn n, login_as d)]\<rparr>"
  let ?t = "?s3\<lparr>workers := (workers ?s3)(w := None), fds := (fds ?s3)(f := None)\<rparr>"
  let ?t1 = "?t\<lparr>fds := (fds ?t)(f \<mapsto> Conn (next_conn ?t)), workers := (workers ?t)(next_conn ?t \<mapsto> Starting f), next_conn := Suc (next_conn ?t)\<rparr>"
  let ?u = "?t1\<lparr>workers := (workers ?t1)(n \<mapsto> Serving f (id_key d)), devices := ?regs,
      handled := handled ?t1 @ [(Conn (Suc n), m\<lparr>c_device_id := id_key d\<rparr>)]\<rparr>"
  have f: "fds s f = None" using closing(2) by (simp add: lowest_free_def)
  have same: "(fds s)(f := None) = fds s" using f by auto
  have 1: "tcp_step s (Accepted f) ?s1" by (rule tcp_step.accept) (fact up closing(2))+
  have 2: "tcp_step ?s1 (Begin n f) ?s2" by (rule tcp_step.start) (simp_all add: n up)
  have 3: "tcp_step ?s2 (Message n f True (login_as d)) ?s3"
    by (rule tcp_step.message) (simp_all add: n up connection_message_def d Let_def)
  have 4: "tcp_step ?s3 (SecondClose w f) ?t" by (rule tcp_step.second_close) (use closing wn n in simp)
  have 5: "tcp_step ?t (Accepted f) ?t1" by (rule tcp_step.accept) (use up closing(2) in \<open>simp_all add: same\<close>)
  have "id_key d \<noteq> []" using d by simp
  then have reads: "connection_message True f m (id_key d) ?regs = (m\<lparr>c_device_id := id_key d\<rparr>, id_key d, ?regs)"
    unfolding connection_message_def m Let_def by (simp only: simp_thms if_True)
  have 6: "tcp_step ?t1 (Message n f True m) ?u"
    by (rule tcp_step.message [where dev = "id_key d"]) (use wn reads in \<open>simp_all add: n up del: id_key_Nil\<close>)
  have "lts_run (tcp_server_create used) tcp_step (es @ [Accepted f, Begin n f, Message n f True (login_as d), SecondClose w f]) ?t"
    by (rule lts_run_append [OF lts_run_Cons [of tcp_step, OF 1 lts_run_Cons [of tcp_step, OF 2 lts_run_Cons [of tcp_step, OF 3 lts_run_one [of tcp_step, OF 4]]]] run])
  moreover have "lts_run ?t tcp_step [Accepted f, Message n f True m] ?u" by (rule lts_run_Cons [of tcp_step, OF 5 lts_run_one [of tcp_step, OF 6]])
  ultimately show ?thesis using wn n by (intro exI [of _ ?t] exI [of _ ?u]) simp
qed


theorem second_close_mixes_up_devices_witness:
  "\<exists>t u. lts_run (tcp_server_create {0, 1, 2}) tcp_step
        ([Accepted 3, Begin 0 3, EndOfStream 0 3, FirstClose 0 3] @ [Accepted 3, Begin 1 3, Message 1 3 True (login_as [97]), SecondClose 0 3]) t \<and>
     lts_run t tcp_step [Accepted 3, Message 1 3 True (zero_message MSG_COMMAND [123, 125])] u \<and>
     handled u = [(Conn 1, login_as [97]), (Conn 2, (zero_message MSG_COMMAND [123, 125])\<lparr>c_device_id := [97]\<rparr>)]"
proof -
  let ?s0 = "tcp_server_create {0, 1, 2}"
  let ?s1 = "?s0\<lparr>fds := (fds ?s0)(3 \<mapsto> Conn 0), workers := (workers ?s0)(0 \<mapsto> Starting 3), next_conn := 1\<rparr>"
  let ?s2 = "?s1\<lparr>workers := (workers ?s1)(0 \<mapsto> Serving 3 [])\<rparr>"
  let ?s3 = "?s2\<lparr>workers := (workers ?s2)(0 \<mapsto> Leaving 3), devices := registry_remove_fd 3 (devices ?s2)\<rparr>"
  let ?s4 = "?s3\<lparr>workers := (workers ?s3)(0 \<mapsto> Closing 3), fds := (fds ?s3)(3 := None)\<rparr>"
  have a: "cstr [97] = [97]" "id_key [97] = [97]" by (simp_all add: cstr_def id_key_def PROTOCOL_MAX_DEVICE_ID_def)
  have 1: "tcp_step ?s0 (Accepted 3) ?s1"
    using tcp_step.accept [of ?s0 3] by (simp add: tcp_server_create_def lowest_free_def)
  have 2: "tcp_step ?s1 (Begin 0 3) ?s2" by (rule tcp_step.start) (simp_all add: tcp_server_create_def)
  have 3: "tcp_step ?s2 (EndOfStream 0 3) ?s3" by (rule tcp_step.stream_end) (simp_all add: tcp_server_create_def)
  have 4: "tcp_step ?s3 (FirstClose 0 3) ?s4" by (rule tcp_step.first_close) simp
  have run: "lts_run ?s0 tcp_step [Accepted 3, Begin 0 3, EndOfStream 0 3, FirstClose 0 3] ?s4"
    by (rule lts_run_Cons [of tcp_step, OF 1 lts_run_Cons [of tcp_step, OF 2 lts_run_Cons [of tcp_step, OF 3 lts_run_one [of tcp_step, OF 4]]]])
  have "\<exists>t u. lts_run ?s0 tcp_step
        ([Accepted 3, Begin 0 3, EndOfStream 0 3, FirstClose 0 3] @ [Accepted 3, Begin 1 3, Message 1 3 True (login_as [97]), SecondClose 0 3]) t \<and>
      workers t 1 = Some (Serving 3 (id_key [97])) \<and> fds t 3 = None \<and>
      lts_run t tcp_step [Accepted 3, Message 1 3 True (zero_message MSG_COMMAND [123, 125])] u \<and>
      fds u 3 = Some (Conn (Suc 1)) \<and> handled u = handled ?s4 @ [(Conn 1, login_as [97]),
        (Conn (Suc 1), (zero_message MSG_COMMAND [123, 125])\<lparr>c_device_id := id_key [97]\<rparr>)]"
    by (rule second_close_mixes_up_devices [OF run])
      (simp_all add: a zero_message_def tcp_server_create_def lowest_free_def cstr_def)
  moreover have "handled ?s4 = []" by (simp add: tcp_server_create_def)
  ultimately show ?thesis unfolding a(2) Suc_1 by auto
qed

text \<open>
  Freeing the server does not wait for the workers either: \<open>tcp_server_destroy\<close> joins only the accept loop.  From any state
  in which a connection is served the server can be stopped and freed while its worker stands before its next use of it.
\<close>
lemma destroy_leaves_workers:
  assumes "workers s w = Some (Serving f dev)" "running s" "accepting s"
  shows "\<exists>t. lts_run s tcp_step [StopServer, AcceptLoopEnds, FreeServer] t \<and> freed t \<and> workers t w = Some (Serving f dev)"
proof -
  let ?s1 = "s\<lparr>running := False, listening := False\<rparr>" and ?s2 = "s\<lparr>running := False, listening := False, accepting := False\<rparr>"
  have 1: "tcp_step s StopServer ?s1" using tcp_step.stop [of s] assms(2) by simp
  have 2: "tcp_step ?s1 AcceptLoopEnds ?s2" using tcp_step.accept_end [of ?s1] assms(3) by simp
  have 3: "tcp_step ?s2 FreeServer (?s2\<lparr>freed := True\<rparr>)" by (rule tcp_step.free) simp_all
  show ?thesis
    using lts_run_Cons [of tcp_step, OF 1 lts_run_Cons [of tcp_step, OF 2 lts_run_one [of tcp_step, OF 3]]] assms(1)
    by (intro exI [of _ "?s2\<lparr>freed := True\<rparr>"] conjI) simp_all
qed

end
