(* ===== verification/Console.thy ===== *)
theory Console
  imports Protocol GoStrings "HOL-Library.Char_ord"
begin

text \<open>
  The administrator's console (\<open>cmd/webui/ui\<close>): a Bubble Tea program, that is a model, messages and an update function
  that gives the next model and commands to run.  Of the widgets (text input, table, list, viewport) the observable state is kept;
  what their own update functions do with a message is a parameter, as are JSON and the network.  All screens share one
  session, which the root model holds.  Rendering is left out.
\<close>

subsection \<open>Messages and commands\<close>

record FileNode =
  nd_ID :: string
  nd_Name :: string
  nd_Type :: string
  nd_ParentID :: "string option"
  nd_Size :: int
  nd_Extension :: string
  nd_ContentTypeIDs :: "nat list"

text \<open>
  A message from the server is either an error or a frame: the receive loop makes no other.  A key has a type and may come with alt; \<open>msg.String()\<close> says
  both.
\<close>

datatype tea_msg =
    WindowSize int int
  | Key string bool
  | MsgFromServer "(string, ProtocolMessage) res"
  | LoginSubmitted
  | ErrMsg string
  | DeviceSelected string
  | BackToDashboard
  | FileLoaded "FileNode list"
  | CommandSent string
  | OtherMsg nat

definition key_string :: "string \<Rightarrow> bool \<Rightarrow> string" where
  "key_string k alt = (if alt then ''alt+'' @ k else k)"

text \<open>Payloads and requests, as the maps that are marshalled.\<close>

datatype payload =
    LinesPayload int
  | EnabledPayload bool
  | RestorePayload string int string string
  | BlockPayload string bool "string list option"
  | NoArgs
  | NilPayload

datatype request =
    NullRequest
  | CredsRequest string string
  | TreeRequest string "string option" int int
  | CommandRequest string string string payload

text \<open>What a command does when it is run: ask the session to send, wait for the server, give a message, log in, or quit.\<close>

datatype tea_cmd =
    SendCmd string request
  | WaitForMsg
  | MsgCmd tea_msg
  | LoginCmd string string string string
  | Quit
  | Blink
  | WidgetCmd nat

subsection \<open>The session (client.go)\<close>

text \<open>\<open>cs_reads\<close> is the connection whose receive the loop is in, if there is a loop.\<close>

record session =
  cs_Client :: "TCPClient option"
  cs_DeviceID :: string
  cs_Token :: string
  cs_Host :: string
  cs_Port :: int
  cs_loopRunning :: bool
  cs_stopped :: bool
  cs_reads :: "TCPClient option"

definition NewSession :: session where
  "NewSession = \<lparr>cs_Client = None, cs_DeviceID = [], cs_Token = [], cs_Host = [], cs_Port = 0, cs_loopRunning = False, cs_stopped = False,
     cs_reads = None\<rparr>"

definition ConnectSession :: "(string \<Rightarrow> int \<Rightarrow> int) \<Rightarrow> string \<Rightarrow> int \<Rightarrow> session \<Rightarrow> net_error option \<times> session" where
  "ConnectSession connect host port s =
     (let s1 = s\<lparr>cs_Host := host, cs_Port := port\<rparr>
      in case DialTCP connect host port of
           Inl e \<Rightarrow> (Some e, s1)
         | Inr client \<Rightarrow> (None, s1\<lparr>cs_Client := Some client\<rparr>))"

datatype session_error = NotConnected | NetError net_error | MarshalError

definition LoginSession :: "bool \<Rightarrow> string \<Rightarrow> string \<Rightarrow> session \<Rightarrow> (session_error, frame) res \<times> session" where
  "LoginSession sent deviceID token s =
     (case cs_Client s of
        None \<Rightarrow> (Inl NotConnected, s)
      | Some client \<Rightarrow>
          (case SendLogin sent (Some client) (to_bytes deviceID) (to_bytes token) of
             Inl e \<Rightarrow> (Inl (NetError e), s)
           | Inr _ \<Rightarrow> (Inr (FLogin (to_bytes deviceID) (to_bytes token)),
               let s1 = s\<lparr>cs_DeviceID := deviceID, cs_Token := token\<rparr>
               in if cs_loopRunning s1 then s1 else s1\<lparr>cs_loopRunning := True, cs_reads := Some client\<rparr>)))"

definition CloseSession :: "bool \<Rightarrow> session \<Rightarrow> session" where
  "CloseSession close_ok s =
     (let s1 = (case cs_Client s of None \<Rightarrow> s | Some c \<Rightarrow> s\<lparr>cs_Client := snd (Close close_ok (Some c))\<rparr>)
      in if cs_loopRunning s1 then s1\<lparr>cs_stopped := True, cs_loopRunning := False\<rparr> else s1)"

definition SendSession :: "bool \<Rightarrow> (string \<Rightarrow> request \<Rightarrow> bytes option) \<Rightarrow> string \<Rightarrow> request \<Rightarrow> session \<Rightarrow> (session_error, frame) res" where
  "SendSession sent marshal action data s =
     (case cs_Client s of
        None \<Rightarrow> Inl NotConnected
      | Some client \<Rightarrow>
          (case marshal action data of
             None \<Rightarrow> Inl MarshalError
           | Some b \<Rightarrow>
               (case SendCommand sent (Some client) b of Inl e \<Rightarrow> Inl (NetError e) | Inr _ \<Rightarrow> Inr (FCommand b))))"

text \<open>
  One receive of the loop ends: an error is passed on and ends the loop; a message is passed on, and the next receive is on the
  connection the session has by then, unless \<open>StopChan\<close> is closed.
\<close>

definition loop_receive :: "(net_error, ProtocolMessage) res \<Rightarrow> session \<Rightarrow> tea_msg \<times> session" where
  "loop_receive r s =
     (case r of
        Inl e \<Rightarrow> (MsgFromServer (Inl ''connection lost''), s\<lparr>cs_reads := None\<rparr>)
      | Inr m \<Rightarrow> (MsgFromServer (Inr m), s\<lparr>cs_reads := (if cs_stopped s then None else cs_Client s)\<rparr>))"

subsection \<open>The login screen (login.go)\<close>

record text_input =
  ti_Value :: string
  ti_Focused :: bool

definition new_input :: text_input where "new_input = \<lparr>ti_Value = [], ti_Focused = False\<rparr>"

record login_model =
  lg_Inputs :: "text_input list"
  lg_FocusIdx :: int
  lg_Err :: "string option"

definition NewLoginModel :: login_model where
  "NewLoginModel =
     \<lparr>lg_Inputs = [new_input\<lparr>ti_Value := ''127.0.0.1'', ti_Focused := True\<rparr>, new_input\<lparr>ti_Value := ''9200''\<rparr>, new_input, new_input],
      lg_FocusIdx = 0, lg_Err = None\<rparr>"

definition move_focus :: "int \<Rightarrow> int \<Rightarrow> text_input list \<Rightarrow> text_input list" where
  "move_focus i j inputs =
     (let blurred = inputs[nat i := (inputs ! nat i)\<lparr>ti_Focused := False\<rparr>]
      in blurred[nat j := (blurred ! nat j)\<lparr>ti_Focused := True\<rparr>])"

definition nextInput :: "login_model \<Rightarrow> login_model" where
  "nextInput m =
     (let i = lg_FocusIdx m + 1; j = (if i \<ge> int (length (lg_Inputs m)) then 0 else i)
      in m\<lparr>lg_FocusIdx := j, lg_Inputs := move_focus (lg_FocusIdx m) j (lg_Inputs m)\<rparr>)"

definition prevInput :: "login_model \<Rightarrow> login_model" where
  "prevInput m =
     (let i = lg_FocusIdx m - 1; j = (if i < 0 then int (length (lg_Inputs m)) - 1 else i)
      in m\<lparr>lg_FocusIdx := j, lg_Inputs := move_focus (lg_FocusIdx m) j (lg_Inputs m)\<rparr>)"

text \<open>What widgets, JSON and the network do.\<close>

record table =
  tb_Rows :: "string list list"
  tb_Cursor :: int
  tb_Focused :: bool

record ui_env =
  u_input :: "tea_msg \<Rightarrow> text_input \<Rightarrow> text_input"
  u_table :: "tea_msg \<Rightarrow> table \<Rightarrow> table"
  u_list :: "tea_msg \<Rightarrow> int \<Rightarrow> int"
  u_cursor_up :: "int \<Rightarrow> int"
  u_cursor_down :: "int \<Rightarrow> int"
  u_selected :: "int \<Rightarrow> nat option"
  u_token :: "bytes \<Rightarrow> string option"
  u_strings :: "bytes \<Rightarrow> string list option"
  u_entries :: "bytes \<Rightarrow> (string \<times> string) list option"
  u_tree :: "bytes \<Rightarrow> FileNode list option"
  u_sort :: "FileNode list \<Rightarrow> FileNode list"
  u_connect :: "string \<Rightarrow> int \<Rightarrow> int"
  u_login_sent :: "nat \<Rightarrow> bool"
  u_marshal :: "string \<Rightarrow> request \<Rightarrow> bytes option"
  u_sent :: bool

definition login_update :: "ui_env \<Rightarrow> tea_msg \<Rightarrow> login_model \<Rightarrow> login_model \<times> tea_cmd list" where
  "login_update env msg m =
     (let inputs_of = (\<lambda>m. (m\<lparr>lg_Inputs := map (u_input env msg) (lg_Inputs m)\<rparr>, map WidgetCmd [0..<length (lg_Inputs m)]))
      in case msg of
           Key k alt \<Rightarrow>
             if k = ''enter'' then
               (if lg_FocusIdx m = int (length (lg_Inputs m)) - 1
                then (m, [LoginCmd (ti_Value (lg_Inputs m ! 0)) (ti_Value (lg_Inputs m ! 1)) (ti_Value (lg_Inputs m ! 2))
                            (ti_Value (lg_Inputs m ! 3))])
                else inputs_of (nextInput m))
             else if k = ''tab'' \<or> k = ''down'' then inputs_of (nextInput m)
             else if k = ''shift+tab'' \<or> k = ''up'' then inputs_of (prevInput m)
             else inputs_of m
         | _ \<Rightarrow> inputs_of m)"

text \<open>
  \<open>strconv.Atoi\<close> and \<open>fmt.Sscanf(s, "%d", &n)\<close>, which leaves \<open>n\<close> as it was when there is no number or it is too big.
\<close>

definition is_digit :: "char \<Rightarrow> bool" where
  "is_digit c \<longleftrightarrow> CHR ''0'' \<le> c \<and> c \<le> CHR ''9''"

definition digits_value :: "string \<Rightarrow> int" where
  "digits_value ds = foldl (\<lambda>n c. n * 10 + (of_char c - 48)) 0 ds"

definition signed_digits :: "string \<Rightarrow> int \<times> string" where
  "signed_digits s =
     (case s of [] \<Rightarrow> (1, [])
      | c # cs \<Rightarrow> if c = CHR ''-'' then (-1, cs) else if c = CHR ''+'' then (1, cs) else (1, s))"

definition in_int64 :: "int \<Rightarrow> bool" where
  "in_int64 n \<longleftrightarrow> - (2 ^ 63) \<le> n \<and> n < 2 ^ 63"

definition Atoi :: "string \<Rightarrow> int option" where
  "Atoi s =
     (let (sg, ds) = signed_digits s; n = sg * digits_value ds
      in if ds \<noteq> [] \<and> list_all is_digit ds \<and> in_int64 n then Some n else None)"

definition Sscanf_d :: "string \<Rightarrow> int \<Rightarrow> int" where
  "Sscanf_d s old =
     (let (sg, rest) = signed_digits (dropWhile is_space s); ds = takeWhile is_digit rest; n = sg * digits_value ds
      in if ds \<noteq> [] \<and> in_int64 n then n else old)"

text \<open>The login command, on the session it shares with the program.\<close>

definition run_LoginCmd :: "ui_env \<Rightarrow> string \<Rightarrow> string \<Rightarrow> string \<Rightarrow> string \<Rightarrow> session \<Rightarrow> tea_msg \<times> session \<times> frame list" where
  "run_LoginCmd env host portStr username password s =
     (case Atoi portStr of
        None \<Rightarrow> (ErrMsg ''invalid port'', s, [])
      | Some port \<Rightarrow>
          (case ConnectSession (u_connect env) host port s of
             (Some e, s1) \<Rightarrow> (ErrMsg ''connect failed'', s1, [])
           | (None, s1) \<Rightarrow>
               (case LoginSession (u_login_sent env 0) ''admin-console'' ''initial-handshake'' s1 of
                  (Inl e, s2) \<Rightarrow> (ErrMsg ''initial handshake failed'', s2, [])
                | (Inr f, s2) \<Rightarrow>
                    (case SendSession (u_sent env) (u_marshal env) ''login'' (CredsRequest username password) s2 of
                       Inl e \<Rightarrow> (ErrMsg ''send auth command failed'', s2, [f])
                     | Inr g \<Rightarrow> (LoginSubmitted, s2, [f, g])))))"

subsection \<open>The dashboard (dashboard.go)\<close>

record dashboard_model =
  da_Table :: table
  da_Devices :: "(string \<times> string) list"
  da_Err :: "string option"

definition NewDashboardModel :: dashboard_model where
  "NewDashboardModel = \<lparr>da_Table = \<lparr>tb_Rows = [], tb_Cursor = 0, tb_Focused = True\<rparr>, da_Devices = [], da_Err = None\<rparr>"

definition dashboard_init :: "tea_cmd list" where
  "dashboard_init = [SendCmd ''admin_list_online'' NullRequest]"

definition SelectedRow :: "table \<Rightarrow> string list" where
  "SelectedRow t = (if 0 \<le> tb_Cursor t \<and> tb_Cursor t < int (length (tb_Rows t)) then tb_Rows t ! nat (tb_Cursor t) else [])"

definition show_devices :: "(string \<times> string) list \<Rightarrow> dashboard_model \<Rightarrow> dashboard_model" where
  "show_devices ds m = m\<lparr>da_Devices := ds, da_Table := (da_Table m)\<lparr>tb_Rows := map (\<lambda>(d, s). [d, s]) ds\<rparr>\<rparr>"

definition device_list :: "ui_env \<Rightarrow> bytes \<Rightarrow> dashboard_model \<Rightarrow> dashboard_model" where
  "device_list env status m =
     (case u_strings env status of
        Some devs \<Rightarrow> show_devices (map (\<lambda>d. (d, ''Online'')) devs) m
      | None \<Rightarrow> (case u_entries env status of Some es \<Rightarrow> show_devices es m | None \<Rightarrow> m))"

definition dashboard_update :: "ui_env \<Rightarrow> tea_msg \<Rightarrow> dashboard_model \<Rightarrow> dashboard_model \<times> tea_cmd list" where
  "dashboard_update env msg m =
     (let table_of = (\<lambda>m. (m\<lparr>da_Table := u_table env msg (da_Table m)\<rparr>, [WidgetCmd 0]))
      in case msg of
           Key k alt \<Rightarrow>
             (let s = key_string k alt
              in if s = ''r'' then (m, [SendCmd ''admin_list_online'' NullRequest])
                 else if s = ''enter'' then
                   (case SelectedRow (da_Table m) of [] \<Rightarrow> table_of m | d # _ \<Rightarrow> (m, [MsgCmd (DeviceSelected d)]))
                 else if s = ''q'' then (m, [Quit])
                 else table_of m)
         | MsgFromServer (Inl e) \<Rightarrow> (m\<lparr>da_Err := Some e\<rparr>, [])
         | MsgFromServer (Inr r) \<Rightarrow> table_of (if Type r = MSG_ACK then device_list env (StatusMsg r) m else m)
         | _ \<Rightarrow> table_of m)"

subsection \<open>The command form (command_form.go)\<close>

datatype FormState = StateSelecting | StateFilling

record FieldDef =
  fd_Name :: string
  fd_Placeholder :: string
  fd_Required :: bool
  fd_Default :: string

record CommandDef =
  cd_Name :: string
  cd_Description :: string
  cd_Kind :: string
  cd_Fields :: "FieldDef list"

definition availableCommands :: "CommandDef list" where
  "availableCommands =
     [\<lparr>cd_Name = ''get_logs'', cd_Description = ''Fetch logs from the agent'', cd_Kind = ''agent'', cd_Fields =
         [\<lparr>fd_Name = ''lines'', fd_Placeholder = ''Number of lines (default: 100)'', fd_Required = False, fd_Default = ''100''\<rparr>]\<rparr>,
      \<lparr>cd_Name = ''backup_auto'', cd_Description = ''Enable/Disable automatic backup'', cd_Kind = ''agent'', cd_Fields =
         [\<lparr>fd_Name = ''enabled'', fd_Placeholder = ''true or false'', fd_Required = True, fd_Default = ''true''\<rparr>]\<rparr>,
      \<lparr>cd_Name = ''restore'', cd_Description = ''Restore a file from backup'', cd_Kind = ''agent'', cd_Fields =
         [\<lparr>fd_Name = ''file_id'', fd_Placeholder = ''File ID'', fd_Required = True, fd_Default = []\<rparr>,
          \<lparr>fd_Name = ''version_id'', fd_Placeholder = ''Version ID'', fd_Required = True, fd_Default = []\<rparr>,
          \<lparr>fd_Name = ''file_name'', fd_Placeholder = ''File name'', fd_Required = True, fd_Default = []\<rparr>,
          \<lparr>fd_Name = ''dest_path'', fd_Placeholder = ''Destination path'', fd_Required = True, fd_Default = []\<rparr>]\<rparr>,
      \<lparr>cd_Name = ''block_website'', cd_Description = ''Block/Unblock websites'', cd_Kind = ''agent'', cd_Fields =
         [\<lparr>fd_Name = ''action'', fd_Placeholder = ''apply, remove, or sync'', fd_Required = True, fd_Default = ''apply''\<rparr>,
          \<lparr>fd_Name = ''enabled'', fd_Placeholder = ''true or false'', fd_Required = False, fd_Default = ''true''\<rparr>,
          \<lparr>fd_Name = ''domains'', fd_Placeholder = ''Comma-separated domains for action'', fd_Required = False, fd_Default = []\<rparr>]\<rparr>,
      \<lparr>cd_Name = ''Custom Shell'', cd_Description = ''Execute a raw shell command'', cd_Kind = ''shell'', cd_Fields =
         [\<lparr>fd_Name = ''command'', fd_Placeholder = ''e.g. ls -la'', fd_Required = True, fd_Default = []\<rparr>]\<rparr>]"

record form_model =
  fm_DeviceID :: string
  fm_State :: FormState
  fm_List :: int
  fm_Inputs :: "text_input list"
  fm_Focused :: int
  fm_SelectedCmd :: nat

definition NewCommandFormModel :: "string \<Rightarrow> form_model" where
  "NewCommandFormModel deviceID =
     \<lparr>fm_DeviceID = deviceID, fm_State = StateSelecting, fm_List = 0, fm_Inputs = [], fm_Focused = 0, fm_SelectedCmd = 0\<rparr>"

definition initInputs :: "form_model \<Rightarrow> form_model" where
  "initInputs m =
     (let k = (if fm_SelectedCmd m \<ge> length availableCommands then 0 else fm_SelectedCmd m);
          fs = cd_Fields (availableCommands ! k)
      in m\<lparr>fm_SelectedCmd := k, fm_Focused := 0,
           fm_Inputs := map (\<lambda>i. \<lparr>ti_Value = fd_Default (fs ! i), ti_Focused = (i = 0)\<rparr>) [0..<length fs]\<rparr>)"

definition updateFocus :: "form_model \<Rightarrow> form_model" where
  "updateFocus m =
     m\<lparr>fm_Inputs := map (\<lambda>i. (fm_Inputs m ! i)\<lparr>ti_Focused := (int i = fm_Focused m)\<rparr>) [0..<length (fm_Inputs m)]\<rparr>"

definition focus_next :: "form_model \<Rightarrow> form_model" where
  "focus_next m =
     (let i = fm_Focused m + 1
      in updateFocus (m\<lparr>fm_Focused := (if i > int (length (fm_Inputs m)) + 1 then 0 else i)\<rparr>))"

definition focus_prev :: "form_model \<Rightarrow> form_model" where
  "focus_prev m =
     (let i = fm_Focused m - 1
      in updateFocus (m\<lparr>fm_Focused := (if i < 0 then int (length (fm_Inputs m)) + 1 else i)\<rparr>))"

fun split_comma :: "string \<Rightarrow> string \<Rightarrow> string list" where
  "split_comma [] current = (if current \<noteq> [] then [current] else [])"
| "split_comma (ch # s) current =
     (if ch = CHR '','' then (if current \<noteq> [] then current # split_comma s [] else split_comma s current)
      else split_comma s (current @ [ch]))"

definition splitComma :: "string \<Rightarrow> string list" where
  "splitComma s = split_comma s []"

definition buildPayload :: "string \<Rightarrow> string list \<Rightarrow> payload" where
  "buildPayload name inputs =
     (if name = ''get_logs'' then LinesPayload (if inputs ! 0 \<noteq> [] then Sscanf_d (inputs ! 0) 100 else 100)
      else if name = ''backup_auto'' then EnabledPayload (inputs ! 0 = ''true'')
      else if name = ''restore'' then RestorePayload (inputs ! 0) (Sscanf_d (inputs ! 1) 0) (inputs ! 2) (inputs ! 3)
      else if name = ''block_website'' then
        BlockPayload (inputs ! 0) (inputs ! 1 = ''true'') (if inputs ! 2 \<noteq> [] then Some (splitComma (inputs ! 2)) else None)
      else NilPayload)"

definition submitCommand :: "form_model \<Rightarrow> tea_cmd" where
  "submitCommand m =
     (let cmd = availableCommands ! fm_SelectedCmd m; values = map ti_Value (fm_Inputs m)
      in SendCmd ''admin_send_command''
           (if cd_Kind cmd = ''shell'' then CommandRequest (fm_DeviceID m) (values ! 0) ''shell'' NoArgs
            else CommandRequest (fm_DeviceID m) (cd_Name cmd) ''agent'' (buildPayload (cd_Name cmd) values)))"

definition select_update :: "ui_env \<Rightarrow> tea_msg \<Rightarrow> form_model \<Rightarrow> form_model \<times> tea_cmd list" where
  "select_update env msg m =
     (let list_of = (m\<lparr>fm_List := u_list env msg (fm_List m)\<rparr>, [WidgetCmd 0])
      in case msg of
           Key k alt \<Rightarrow>
             (let s = key_string k alt
              in if s = ''enter'' then
                   (case u_selected env (fm_List m) of
                      Some i \<Rightarrow> (initInputs (m\<lparr>fm_SelectedCmd := i, fm_State := StateFilling\<rparr>), [Blink])
                    | None \<Rightarrow> list_of)
                 else if s = ''up'' \<or> s = ''k'' then (m\<lparr>fm_List := u_cursor_up env (fm_List m)\<rparr>, [])
                 else if s = ''down'' \<or> s = ''j'' then (m\<lparr>fm_List := u_cursor_down env (fm_List m)\<rparr>, [])
                 else list_of)
         | _ \<Rightarrow> list_of)"

definition fill_update :: "ui_env \<Rightarrow> tea_msg \<Rightarrow> form_model \<Rightarrow> form_model \<times> tea_cmd list" where
  "fill_update env msg m =
     (let n = int (length (fm_Inputs m));
          i = nat (fm_Focused m);
          typed = (if fm_Focused m \<ge> 0 \<and> fm_Focused m < n
                   then (m\<lparr>fm_Inputs := (fm_Inputs m)[i := u_input env msg (fm_Inputs m ! i)]\<rparr>, [WidgetCmd 0]) else (m, []))
      in case msg of
           Key k alt \<Rightarrow>
             (let s = key_string k alt
              in if s = ''esc'' then (m\<lparr>fm_State := StateSelecting\<rparr>, [])
                 else if s = ''enter'' then
                   (if fm_Focused m = n then (m, [submitCommand m])
                    else if fm_Focused m = n + 1 then (m\<lparr>fm_State := StateSelecting\<rparr>, [])
                    else (focus_next m, []))
                 else if s = ''tab'' \<or> s = ''down'' \<or> s = ''j'' then (focus_next m, [])
                 else if s = ''shift+tab'' \<or> s = ''up'' \<or> s = ''k'' then (focus_prev m, [])
                 else typed)
         | _ \<Rightarrow> typed)"

definition form_update :: "ui_env \<Rightarrow> tea_msg \<Rightarrow> form_model \<Rightarrow> form_model \<times> tea_cmd list" where
  "form_update env msg m = (if fm_State m = StateSelecting then select_update env msg m else fill_update env msg m)"

subsection \<open>A device's screen (detail.go)\<close>

datatype focus = FocusTree | FocusCommand

record detail_model =
  dt_DeviceID :: string
  dt_Width :: int
  dt_Height :: int
  dt_Files :: table
  dt_Nodes :: "FileNode list"
  dt_Path :: "string list"
  dt_DirID :: "string option"
  dt_ParentMap :: "string \<Rightarrow> string option option"
  dt_Input :: text_input
  dt_LogContent :: string
  dt_Form :: form_model
  dt_ShowForm :: bool
  dt_Focus :: focus

definition NewDeviceDetailModel :: "string \<Rightarrow> int \<Rightarrow> int \<Rightarrow> detail_model" where
  "NewDeviceDetailModel deviceID width height =
     \<lparr>dt_DeviceID = deviceID, dt_Width = width, dt_Height = height, dt_Files = \<lparr>tb_Rows = [], tb_Cursor = 0, tb_Focused = True\<rparr>,
      dt_Nodes = [], dt_Path = [], dt_DirID = None, dt_ParentMap = (\<lambda>_. None), dt_Input = new_input\<lparr>ti_Focused := True\<rparr>,
      dt_LogContent = [], dt_Form = NewCommandFormModel deviceID, dt_ShowForm = True, dt_Focus = FocusTree\<rparr>"

definition fetchDir :: "detail_model \<Rightarrow> string option \<Rightarrow> tea_cmd" where
  "fetchDir m parentID = SendCmd ''admin_list_tree'' (TreeRequest (dt_DeviceID m) parentID 1 100)"

definition sendCommand :: "detail_model \<Rightarrow> string \<Rightarrow> tea_cmd" where
  "sendCommand m cmd = SendCmd ''admin_send_command'' (CommandRequest (dt_DeviceID m) cmd ''shell'' NoArgs)"

definition detail_init :: "detail_model \<Rightarrow> tea_cmd list" where
  "detail_init m = [Blink, fetchDir m None]"

text \<open>\<open>int(float64(h) * 0.75)\<close>: the product is exact, the conversion truncates.\<close>

definition form_height :: "string \<Rightarrow> int \<Rightarrow> int" where
  "form_height logContent h =
     (if logContent \<noteq> [] then (if h \<ge> 0 then h * 3 div 4 else - (- h * 3 div 4)) else h)"

definition half :: "int \<Rightarrow> int" where \<comment> \<open>Go's \<open>/ 2\<close>\<close>
  "half n = (if n \<ge> 0 then n div 2 else - (- n div 2))"

definition resize :: "ui_env \<Rightarrow> int \<Rightarrow> int \<Rightarrow> detail_model \<Rightarrow> detail_model" where
  "resize env w h m =
     m\<lparr>dt_Width := w, dt_Height := h,
       dt_Form := fst (form_update env (WindowSize (half w - 8) (form_height (dt_LogContent m) (h - 5))) (dt_Form m))\<rparr>"

definition log_line :: "string \<Rightarrow> detail_model \<Rightarrow> detail_model" where
  "log_line s m = m\<lparr>dt_LogContent := dt_LogContent m @ [CHR 0x0A] @ s\<rparr>"

definition nodes_key :: string where
  "nodes_key = CHR 0x22 # ''nodes'' @ [CHR 0x22, CHR '':'']"

definition on_server_msg :: "ui_env \<Rightarrow> (string, ProtocolMessage) res \<Rightarrow> detail_model \<Rightarrow> detail_model \<times> tea_cmd list" where
  "on_server_msg env r m =
     (case r of
        Inl e \<Rightarrow> (log_line (''Error: '' @ e) m, [])
      | Inr msg \<Rightarrow>
          if Type msg \<noteq> MSG_ACK then (m, [])
          else if StatusCode msg \<noteq> 200 then (log_line (''Error (Server): '' @ to_string (StatusMsg msg)) m, [])
          else
            let has_nodes = Contains (to_string (StatusMsg msg)) nodes_key
            in case u_tree env (StatusMsg msg) of
                 Some nodes \<Rightarrow>
                   if length nodes > 0 \<or> has_nodes then (m, [MsgCmd (FileLoaded nodes)])
                   else (log_line (''Response: '' @ to_string (StatusMsg msg)) m, [MsgCmd (WindowSize (dt_Width m) (dt_Height m))])
               | None \<Rightarrow>
                   if has_nodes then (log_line ''Error parsing tree'' m, [])
                   else (log_line (''Response: '' @ to_string (StatusMsg msg)) m, [MsgCmd (WindowSize (dt_Width m) (dt_Height m))]))"

definition up_node :: FileNode where
  "up_node = \<lparr>nd_ID = ''UP'', nd_Name = ''..'', nd_Type = ''dir'', nd_ParentID = None, nd_Size = 0, nd_Extension = [], nd_ContentTypeIDs = []\<rparr>"

text \<open>The icons of the first column are written as words.\<close>

definition show_nodes :: "ui_env \<Rightarrow> FileNode list \<Rightarrow> detail_model \<Rightarrow> detail_model" where
  "show_nodes env nodes m =
     (let ns = u_sort env nodes; ns' = (if dt_DirID m \<noteq> None then up_node # ns else ns)
      in m\<lparr>dt_Nodes := ns',
           dt_Files := (dt_Files m)\<lparr>tb_Rows := map (\<lambda>n. [if nd_Type n = ''dir'' then ''folder'' else ''file'', nd_Name n, show_int (nd_Size n)]) ns',
             tb_Cursor := 0\<rparr>\<rparr>)"

definition go_up :: "detail_model \<Rightarrow> detail_model \<times> tea_cmd list" where
  "go_up m =
     (case dt_DirID m of
        None \<Rightarrow> (m, [])
      | Some d \<Rightarrow>
          let parentID = (case dt_ParentMap m d of Some p \<Rightarrow> p | None \<Rightarrow> None)
          in (m\<lparr>dt_DirID := parentID, dt_Path := (if dt_Path m \<noteq> [] then butlast (dt_Path m) else dt_Path m)\<rparr>, [fetchDir m parentID]))"

definition open_node :: "FileNode \<Rightarrow> detail_model \<Rightarrow> detail_model \<times> tea_cmd list" where
  "open_node node m =
     (if nd_Type node \<noteq> ''dir'' then (m, [])
      else
        let m1 = m\<lparr>dt_ParentMap := (dt_ParentMap m)(nd_ID node \<mapsto> dt_DirID m)\<rparr>
        in if nd_ID node = ''UP'' then go_up m1
           else (m1\<lparr>dt_DirID := Some (nd_ID node), dt_Path := dt_Path m @ [nd_Name node]\<rparr>, [fetchDir m (Some (nd_ID node))]))"

definition tree_key :: "string \<Rightarrow> detail_model \<Rightarrow> detail_model \<times> tea_cmd list" where
  "tree_key s m =
     (if s = ''enter'' then
        (let idx = tb_Cursor (dt_Files m)
         in if idx \<ge> 0 \<and> idx < int (length (dt_Nodes m)) then open_node (dt_Nodes m ! nat idx) m else (m, []))
      else if s = ''backspace'' then go_up m
      else (m, []))"

definition input_key :: "string \<Rightarrow> detail_model \<Rightarrow> detail_model \<times> tea_cmd list" where
  "input_key s m =
     (let t = ti_Value (dt_Input m)
      in if s = ''enter'' \<and> t \<noteq> []
         then (log_line (''> '' @ t) (m\<lparr>dt_Input := (dt_Input m)\<lparr>ti_Value := []\<rparr>\<rparr>), [sendCommand m t]) else (m, []))"

definition to_focused :: "ui_env \<Rightarrow> tea_msg \<Rightarrow> detail_model \<Rightarrow> detail_model \<times> tea_cmd list" where
  "to_focused env msg m =
     (if dt_Focus m = FocusTree then
        (let m1 = m\<lparr>dt_Files := u_table env msg (dt_Files m)\<rparr>;
             (m2, cmds) = (case msg of Key k alt \<Rightarrow> tree_key (key_string k alt) m1 | _ \<Rightarrow> (m1, []))
         in (m2, WidgetCmd 0 # cmds))
      else if dt_ShowForm m then
        (let (f, cmds) = form_update env msg (dt_Form m) in (m\<lparr>dt_Form := f\<rparr>, cmds))
      else
        (let m1 = m\<lparr>dt_Input := u_input env msg (dt_Input m)\<rparr>;
             (m2, cmds) = (case msg of Key k alt \<Rightarrow> input_key (key_string k alt) m1 | _ \<Rightarrow> (m1, []))
         in (m2, WidgetCmd 0 # cmds)))"

definition set_focus :: "focus \<Rightarrow> detail_model \<Rightarrow> detail_model" where
  "set_focus f m = m\<lparr>dt_Focus := f, dt_Files := (dt_Files m)\<lparr>tb_Focused := (f = FocusTree)\<rparr>\<rparr>"

definition detail_update :: "ui_env \<Rightarrow> tea_msg \<Rightarrow> detail_model \<Rightarrow> detail_model \<times> tea_cmd list" where
  "detail_update env msg m =
     (let rest = (\<lambda>(m1, cmds). let (m2, cmds2) = to_focused env msg m1 in (m2, cmds @ cmds2 @ [WidgetCmd 1]))
      in case msg of
           Key k alt \<Rightarrow>
             (let s = key_string k alt
              in if s = ''esc'' then (m, [MsgCmd BackToDashboard])
                 else if s = ''tab'' then (set_focus (if tb_Focused (dt_Files m) then FocusCommand else FocusTree) m, [])
                 else if s = ''f1'' then (set_focus FocusTree m, [])
                 else if s = ''f2'' then (set_focus FocusCommand m, [])
                 else rest (m, []))
         | WindowSize w h \<Rightarrow> rest (resize env w h m, [])
         | MsgFromServer r \<Rightarrow> rest (on_server_msg env r m)
         | FileLoaded nodes \<Rightarrow> rest (show_nodes env nodes m, [])
         | CommandSent s \<Rightarrow> rest (log_line s m, [MsgCmd (WindowSize (dt_Width m) (dt_Height m))])
         | _ \<Rightarrow> rest (m, []))"

subsection \<open>The program (root.go)\<close>

datatype screen = stateLogin | stateDashboard | stateDeviceDetail

record root_model =
  rt_State :: screen
  rt_Session :: session
  rt_Login :: login_model
  rt_Dashboard :: dashboard_model
  rt_Detail :: detail_model
  rt_Quitting :: bool
  rt_width :: int
  rt_height :: int

definition NewRootModel :: root_model where
  "NewRootModel =
     \<lparr>rt_State = stateLogin, rt_Session = NewSession, rt_Login = NewLoginModel, rt_Dashboard = NewDashboardModel,
      rt_Detail = NewDeviceDetailModel [] 0 0, rt_Quitting = False, rt_width = 0, rt_height = 0\<rparr>"

text \<open>
  The acknowledgement of a login: with a token the session logs in again and the dashboard opens.  The result is whether it
  did.
\<close>

definition on_auth_reply :: "ui_env \<Rightarrow> ProtocolMessage \<Rightarrow> root_model \<Rightarrow> bool \<times> root_model \<times> frame list" where
  "on_auth_reply env r m =
     (let fail = (\<lambda>e. (False, m\<lparr>rt_Login := (rt_Login m)\<lparr>lg_Err := Some e\<rparr>\<rparr>, []))
      in if Type r \<noteq> MSG_ACK then (False, m, [])
         else if StatusCode r \<noteq> 200 then fail (''login error: '' @ to_string (StatusMsg r))
         else case u_token env (StatusMsg r) of
                None \<Rightarrow> fail ''invalid auth response''
              | Some tok \<Rightarrow>
                  (case LoginSession (u_login_sent env 1) ''admin-console'' tok (rt_Session m) of
                     (Inl e, s) \<Rightarrow> fail ''protocol login failed''
                   | (Inr f, s) \<Rightarrow> (True, m\<lparr>rt_State := stateDashboard, rt_Session := s, rt_Dashboard := NewDashboardModel\<rparr>, [f])))"

definition waits :: "tea_msg \<Rightarrow> tea_cmd list" where
  "waits msg = (case msg of MsgFromServer _ \<Rightarrow> [WaitForMsg] | _ \<Rightarrow> [])"

definition screen_update :: "ui_env \<Rightarrow> tea_msg \<Rightarrow> root_model \<Rightarrow> root_model \<times> tea_cmd list \<times> frame list" where
  "screen_update env msg m =
     (case rt_State m of
        stateLogin \<Rightarrow>
          (let (ok, m1, out) = (case msg of MsgFromServer (Inr r) \<Rightarrow> on_auth_reply env r m | _ \<Rightarrow> (False, m, []))
           in if ok then (m1, dashboard_init @ [WaitForMsg], out)
              else let (l, cmds) = login_update env msg (rt_Login m1)
                   in (m1\<lparr>rt_Login := l\<rparr>, cmds @ (if msg = LoginSubmitted then [WaitForMsg] else []), out))
      | stateDashboard \<Rightarrow>
          (case msg of
             DeviceSelected dev \<Rightarrow>
               (let d = NewDeviceDetailModel dev (rt_width m) (rt_height m)
                in (m\<lparr>rt_State := stateDeviceDetail, rt_Detail := d\<rparr>, detail_init d, []))
           | _ \<Rightarrow>
               (let (d, cmds) = dashboard_update env msg (rt_Dashboard m)
                in (m\<lparr>rt_Dashboard := d\<rparr>, cmds @ waits msg, [])))
      | stateDeviceDetail \<Rightarrow>
          (case msg of
             BackToDashboard \<Rightarrow> (m\<lparr>rt_State := stateDashboard\<rparr>, dashboard_init, [])
           | _ \<Rightarrow>
               (let (d, cmds) = detail_update env msg (rt_Detail m)
                in (m\<lparr>rt_Detail := d\<rparr>, cmds @ waits msg, []))))"

definition Update :: "ui_env \<Rightarrow> bool \<Rightarrow> tea_msg \<Rightarrow> root_model \<Rightarrow> root_model \<times> tea_cmd list \<times> frame list" where
  "Update env close_ok msg m =
     (case msg of
        WindowSize w h \<Rightarrow> screen_update env msg (m\<lparr>rt_width := w, rt_height := h\<rparr>)
      | Key k alt \<Rightarrow>
          if k = ''ctrl+c'' then (m\<lparr>rt_Quitting := True, rt_Session := CloseSession close_ok (rt_Session m)\<rparr>, [Quit], [])
          else screen_update env msg m
      | MsgFromServer (Inl e) \<Rightarrow>
          screen_update env msg
            (case rt_State m of
               stateLogin \<Rightarrow> m\<lparr>rt_Login := (rt_Login m)\<lparr>lg_Err := Some e\<rparr>\<rparr>
             | stateDashboard \<Rightarrow> m\<lparr>rt_Dashboard := (rt_Dashboard m)\<lparr>da_Err := Some e\<rparr>\<rparr>
             | stateDeviceDetail \<Rightarrow> m)
      | _ \<Rightarrow> screen_update env msg m)"

subsection \<open>A second try to log in\<close>

lemma run_LoginCmd_submitted:
  assumes "run_LoginCmd env host port u pw s = (LoginSubmitted, s', out)"
  shows "\<exists>p c. Atoi port = Some p \<and> DialTCP (u_connect env) host p = Inr c \<and> cs_Client s' = Some c \<and> cs_loopRunning s' \<and>
    cs_reads s' = (if cs_loopRunning s then cs_reads s else Some c)"
  using assms
  by (auto simp: run_LoginCmd_def ConnectSession_def LoginSession_def Let_def split: option.splits sum.splits prod.splits if_splits)

text \<open>
  A second try to log in is never answered.  When the first login was refused, the receive loop is already waiting on the
  first connection again; the second try opens a new connection and sends its credentials there, but no second loop is
  started, so the loop still reads the first connection and the answer on the new one is not received.  After a lost connection
  no loop reads anything.
\<close>
theorem retried_login_is_never_answered:
  assumes first: "run_LoginCmd env host port u pw s = (LoginSubmitted, s1, out1)" and fresh: "\<not> cs_loopRunning s" "\<not> cs_stopped s"
    and reply: "loop_receive r s1 = (msg, s2)"
    and second: "run_LoginCmd env' host' port' u' pw' s2 = (LoginSubmitted, s3, out2)"
    and new: "cs_Client s3 \<noteq> cs_Client s1"
  shows "cs_reads s3 \<noteq> cs_Client s3 \<and> cs_reads s3 = (case r of Inl e \<Rightarrow> None | Inr m \<Rightarrow> cs_Client s1)"
proof -
  have s1: "cs_loopRunning s1" "cs_stopped s1 = cs_stopped s"
    using run_LoginCmd_submitted [OF first] first
    by (auto simp: run_LoginCmd_def ConnectSession_def LoginSession_def Let_def split: option.splits sum.splits prod.splits if_splits)
  then have "cs_loopRunning s2" "cs_reads s2 = (case r of Inl e \<Rightarrow> None | Inr m \<Rightarrow> cs_Client s1)"
    using reply fresh(2) by (auto simp: loop_receive_def split: sum.splits)
  then show ?thesis using run_LoginCmd_submitted [OF second] new by (auto split: sum.splits)
qed

definition sample_ui :: "int \<Rightarrow> ui_env" where
  "sample_ui sock = \<lparr>u_input = (\<lambda>msg ti. case msg of Key k alt \<Rightarrow> if length k = 1 then ti\<lparr>ti_Value := ti_Value ti @ k\<rparr> else ti | _ \<Rightarrow> ti),
     u_table = (\<lambda>_ t. t), u_list = (\<lambda>_ i. i), u_cursor_up = (\<lambda>i. i - 1), u_cursor_down = (\<lambda>i. i + 1), u_selected = (\<lambda>i. Some (nat i)),
     u_token = (\<lambda>_. None), u_strings = (\<lambda>_. None), u_entries = (\<lambda>_. None), u_tree = (\<lambda>_. None), u_sort = (\<lambda>ns. ns),
     u_connect = (\<lambda>_ _. sock), u_login_sent = (\<lambda>_. True), u_marshal = (\<lambda>_ _. Some [123]), u_sent = True\<rparr>"

lemma sample_login_submitted:
  assumes "sock \<noteq> - 1"
  obtains s' out where "run_LoginCmd (sample_ui sock) ''h'' ''9'' ''u'' ''p'' s = (LoginSubmitted, s', out)" "cs_Client s' = Some \<lparr>fd = sock\<rparr>"
proof -
  let ?c = "\<lparr>fd = sock\<rparr>" and ?s1 = "s\<lparr>cs_Host := ''h'', cs_Port := 9, cs_Client := Some \<lparr>fd = sock\<rparr>\<rparr>"
  have port: "Atoi ''9'' = Some 9" by code_simp
  have conn: "ConnectSession (u_connect (sample_ui sock)) ''h'' 9 s = (None, ?s1)"
    using assms by (simp add: ConnectSession_def DialTCP_def INVALID_SOCKET_def sample_ui_def Let_def)
  have "\<exists>b. SendLogin True (Some ?c) (to_bytes ''admin-console'') (to_bytes ''initial-handshake'') = Inr b"
    using assms by (simp add: SendLogin_def IsOpen_def INVALID_SOCKET_def send_via_def protocol_send_login_def protocol_send_frame_def
        to_bytes_def cstr_def PROTOCOL_MAX_DEVICE_ID_def PROTOCOL_MAX_TOKEN_def PROTOCOL_MAX_PAYLOAD_def Let_def)
  then obtain f s2 where login: "LoginSession True ''admin-console'' ''initial-handshake'' ?s1 = (Inr f, s2)" "cs_Client s2 = Some ?c"
    by (auto simp: LoginSession_def Let_def)
  have send: "SendSession True (\<lambda>_ _. Some [123]) ''login'' (CredsRequest ''u'' ''p'') s2 = Inr (FCommand [123])"
    using assms by (simp add: SendSession_def login(2) SendCommand_def IsOpen_def INVALID_SOCKET_def send_via_def protocol_send_command_def
        protocol_send_frame_def PROTOCOL_MAX_PAYLOAD_def)
  have "run_LoginCmd (sample_ui sock) ''h'' ''9'' ''u'' ''p'' s = (LoginSubmitted, s2, [f, FCommand [123]])"
    unfolding run_LoginCmd_def port option.case conn prod.case
    by (simp add: sample_ui_def login(1) send)
  then show thesis using that login(2) by blast
qed

theorem retried_login_is_never_answered_witness:
  "\<exists>s1 out1 s2 s3 out2 m. run_LoginCmd (sample_ui 7) ''h'' ''9'' ''u'' ''p'' NewSession = (LoginSubmitted, s1, out1) \<and>
     loop_receive (Inr m) s1 = (MsgFromServer (Inr m), s2) \<and>
     run_LoginCmd (sample_ui 8) ''h'' ''9'' ''u'' ''p'' s2 = (LoginSubmitted, s3, out2) \<and>
     cs_Client s3 = Some \<lparr>fd = 8\<rparr> \<and> cs_reads s3 = Some \<lparr>fd = 7\<rparr>"
proof -
  obtain s1 out1 where a: "run_LoginCmd (sample_ui 7) ''h'' ''9'' ''u'' ''p'' NewSession = (LoginSubmitted, s1, out1)"
    "cs_Client s1 = Some \<lparr>fd = 7\<rparr>"
    by (rule sample_login_submitted [of 7]) auto
  obtain m :: ProtocolMessage where "True" by simp
  obtain s2 where b: "loop_receive (Inr m) s1 = (MsgFromServer (Inr m), s2)" by (simp add: loop_receive_def)
  obtain s3 out2 where c: "run_LoginCmd (sample_ui 8) ''h'' ''9'' ''u'' ''p'' s2 = (LoginSubmitted, s3, out2)"
    "cs_Client s3 = Some \<lparr>fd = 8\<rparr>"
    by (rule sample_login_submitted [of 8]) auto
  have "cs_reads s3 = Some \<lparr>fd = 7\<rparr>"
    using retried_login_is_never_answered [OF a(1) _ _ b c(1)] a(2) c(2) by (simp add: NewSession_def)
  then show ?thesis using a(1) b c by blast
qed

subsection \<open>Browsing the tree\<close>

text \<open>The directories that are open, from the root down, as pairs of identifier and name.\<close>

definition browsing :: "(string \<times> string) list \<Rightarrow> detail_model \<Rightarrow> bool" where
  "browsing ds m \<longleftrightarrow>
     dt_Path m = map snd ds \<and> dt_DirID m = (if ds = [] then None else Some (fst (last ds))) \<and>
     distinct (map fst ds) \<and> ''UP'' \<notin> fst ` set ds \<and>
     (\<forall>i<length ds. dt_ParentMap m (fst (ds ! i)) = Some (if i = 0 then None else Some (fst (ds ! (i - 1)))))"

datatype browse_step = OpenDir FileNode | GoUp | Backspace | Listed "FileNode list"

text \<open>What the administrator expects: opening a directory pushes it, the two ways up pop it.\<close>

fun browse_spec :: "browse_step \<Rightarrow> (string \<times> string) list \<Rightarrow> (string \<times> string) list" where
  "browse_spec (OpenDir n) ds = ds @ [(nd_ID n, nd_Name n)]"
| "browse_spec GoUp ds = butlast ds"
| "browse_spec Backspace ds = butlast ds"
| "browse_spec (Listed ns) ds = ds"

fun browse :: "ui_env \<Rightarrow> browse_step \<Rightarrow> detail_model \<Rightarrow> detail_model \<times> tea_cmd list" where
  "browse env (OpenDir n) m = open_node n m"
| "browse env GoUp m = open_node up_node m"
| "browse env Backspace m = tree_key ''backspace'' m"
| "browse env (Listed ns) m = (show_nodes env ns m, [])"

text \<open>The directory whose content is asked for.\<close>

fun browse_fetch :: "detail_model \<Rightarrow> browse_step \<Rightarrow> (string \<times> string) list \<Rightarrow> tea_cmd list" where
  "browse_fetch m (Listed ns) ds = []"
| "browse_fetch m st ds =
     (let ds' = browse_spec st ds in [fetchDir m (if ds' = [] then None else Some (fst (last ds')))])"

fun browse_allowed :: "browse_step \<Rightarrow> (string \<times> string) list \<Rightarrow> bool" where
  "browse_allowed (OpenDir n) ds \<longleftrightarrow> nd_Type n = ''dir'' \<and> nd_ID n \<noteq> ''UP'' \<and> nd_ID n \<notin> fst ` set ds"
| "browse_allowed (Listed ns) ds \<longleftrightarrow> True"
| "browse_allowed _ ds \<longleftrightarrow> ds \<noteq> []"

lemma go_up_browsing:
  assumes "browsing ds m" "ds \<noteq> []"
  shows "browsing (butlast ds) (fst (go_up m))"
    "snd (go_up m) = [fetchDir m (if butlast ds = [] then None else Some (fst (last (butlast ds))))]"
proof -
  have last_: "last ds = ds ! (length ds - 1)" by (rule last_conv_nth [OF assms(2)])
  have parent: "dt_ParentMap m (fst (last ds)) = Some (if butlast ds = [] then None else Some (fst (last (butlast ds))))"
  proof (cases "length ds = 1")
    case True
    then show ?thesis using assms by (auto simp: browsing_def last_ butlast_conv_take length_Suc_conv)
  next
    case False
    then have "length ds \<ge> 2" using assms(2) by (cases ds) (auto simp: Suc_le_eq)
    then have "butlast ds \<noteq> []" "last (butlast ds) = ds ! (length ds - 1 - 1)"
      by (auto simp: last_conv_nth nth_butlast simp flip: length_greater_0_conv)
    then show ?thesis using assms \<open>length ds \<ge> 2\<close> by (auto simp: browsing_def last_)
  qed
  have dir: "dt_DirID m = Some (fst (last ds))" using assms by (simp add: browsing_def)
  let ?p = "if butlast ds = [] then None else Some (fst (last (butlast ds)))"
  have path: "dt_Path m \<noteq> []" "dt_Path m = map snd ds" using assms by (auto simp: browsing_def)
  have up: "go_up m = (m\<lparr>dt_DirID := ?p, dt_Path := map snd (butlast ds)\<rparr>, [fetchDir m ?p])"
    using assms(2) by (simp add: go_up_def dir parent path Let_def map_butlast)
  have names: "distinct (map fst (butlast ds))" "''UP'' \<notin> fst ` set (butlast ds)"
    using assms(1) by (auto simp: browsing_def map_butlast distinct_butlast simp del: fst_conv dest: in_set_butlastD)
  have "dt_ParentMap m (fst (butlast ds ! i)) = Some (if i = 0 then None else Some (fst (butlast ds ! (i - 1))))"
    if "i < length (butlast ds)" for i
    using assms(1) that by (auto simp: browsing_def nth_butlast)
  then show "browsing (butlast ds) (fst (go_up m))" using names by (simp add: up browsing_def)
  show "snd (go_up m) = [fetchDir m ?p]" by (simp add: up)
qed

lemma parent_map_up: "browsing ds m \<Longrightarrow> browsing ds (m\<lparr>dt_ParentMap := (dt_ParentMap m)(''UP'' \<mapsto> x)\<rparr>)"
proof -
  assume b: "browsing ds m"
  have "fst (ds ! i) \<noteq> ''UP''" if "i < length ds" for i
  proof
    assume "fst (ds ! i) = ''UP''"
    then have "''UP'' \<in> fst ` set ds" using that nth_mem image_eqI by metis
    then show False using b unfolding browsing_def by blast
  qed
  then show ?thesis using b unfolding browsing_def by simp
qed

lemma browse_step_refines:
  assumes "browsing ds m" "browse_allowed st ds"
  shows "browsing (browse_spec st ds) (fst (browse env st m)) \<and> snd (browse env st m) = browse_fetch m st ds"
proof (cases st)
  case (OpenDir n)
  let ?m = "m\<lparr>dt_ParentMap := (dt_ParentMap m)(nd_ID n \<mapsto> dt_DirID m), dt_DirID := Some (nd_ID n), dt_Path := dt_Path m @ [nd_Name n]\<rparr>"
  have step: "browse env st m = (?m, [fetchDir m (Some (nd_ID n))])"
    using assms(2) by (simp add: OpenDir open_node_def Let_def)
  have new: "nd_ID n \<noteq> fst (ds ! i)" if "i < length ds" for i using assms(2) that by (auto simp: OpenDir)
  have parents: "dt_ParentMap ?m (fst ((ds @ [(nd_ID n, nd_Name n)]) ! i)) =
      Some (if i = 0 then None else Some (fst ((ds @ [(nd_ID n, nd_Name n)]) ! (i - 1))))" if "i \<le> length ds" for i
  proof (cases "i = length ds")
    case True
    then show ?thesis using assms(1) by (auto simp: browsing_def nth_append last_conv_nth)
  next
    case False
    then show ?thesis using that assms(1) new [of i] by (auto simp: browsing_def nth_append)
  qed
  have b: "dt_Path m = map snd ds" "distinct (map fst ds)" "''UP'' \<notin> fst ` set ds" using assms(1) unfolding browsing_def by blast+
  have fresh: "nd_ID n \<notin> fst ` set ds" "''UP'' \<noteq> nd_ID n" using assms(2) by (auto simp: OpenDir)
  have "browsing (browse_spec st ds) ?m"
    unfolding browsing_def OpenDir browse_spec.simps
    by (intro conjI allI impI; (rule parents)?) (use b fresh in \<open>simp_all add: less_Suc_eq_le\<close>)
  then show ?thesis unfolding step by (simp add: OpenDir)
next
  case GoUp
  then show ?thesis
    using go_up_browsing [OF parent_map_up [OF assms(1)], of "dt_DirID m"] assms(2)
    by (simp add: open_node_def up_node_def Let_def fetchDir_def)
next
  case Backspace
  then show ?thesis using go_up_browsing [OF assms(1)] assms(2) by (simp add: tree_key_def)
next
  case (Listed ns)
  then show ?thesis using assms(1) by (simp add: browsing_def show_nodes_def Let_def)
qed

fun browse_run :: "ui_env \<Rightarrow> browse_step list \<Rightarrow> detail_model \<Rightarrow> detail_model" where
  "browse_run env [] m = m"
| "browse_run env (st # sts) m = browse_run env sts (fst (browse env st m))"

fun allowed_run :: "browse_step list \<Rightarrow> (string \<times> string) list \<Rightarrow> bool" where
  "allowed_run [] ds \<longleftrightarrow> True"
| "allowed_run (st # sts) ds \<longleftrightarrow> browse_allowed st ds \<and> allowed_run sts (browse_spec st ds)"

lemma browse_run_refines:
  "browsing ds m \<Longrightarrow> allowed_run sts ds \<Longrightarrow> browsing (fold browse_spec sts ds) (browse_run env sts m)"
  by (induction sts arbitrary: ds m) (simp_all add: browse_step_refines)



subsection \<open>Filling in a form\<close>

text \<open>The inputs belong to the selected command, and the focus is on one of them or on one of the two buttons.\<close>

definition form_ok :: "form_model \<Rightarrow> bool" where
  "form_ok m \<longleftrightarrow> 0 \<le> fm_Focused m \<and> fm_Focused m \<le> int (length (fm_Inputs m)) + 1 \<and>
     (fm_State m = StateFilling \<longrightarrow> fm_SelectedCmd m < length availableCommands \<and>
        length (fm_Inputs m) = length (cd_Fields (availableCommands ! fm_SelectedCmd m)))"

lemma initInputs_ok: "form_ok (initInputs m)"
  by (auto simp: form_ok_def initInputs_def Let_def availableCommands_def)

lemma focus_ok:
  assumes "form_ok m"
  shows "form_ok (focus_next m)" "form_ok (focus_prev m)"
  using assms by (auto simp: form_ok_def focus_next_def focus_prev_def updateFocus_def Let_def)

lemma form_update_ok:
  assumes "form_ok m" shows "form_ok (fst (form_update env msg m))"
proof (cases "fm_State m")
  case StateSelecting
  then show ?thesis
    using assms initInputs_ok
    by (auto simp: form_update_def select_update_def Let_def form_ok_def split: tea_msg.splits option.splits)
next
  case StateFilling
  have "form_ok (m\<lparr>fm_State := StateSelecting\<rparr>)" "form_ok (m\<lparr>fm_Inputs := (fm_Inputs m)[i := x]\<rparr>)" for i x
    using assms by (auto simp: form_ok_def)
  then show ?thesis
    using assms focus_ok [OF assms] StateFilling
    by (auto simp: form_update_def fill_update_def Let_def split: tea_msg.splits)
qed

fun form_run :: "ui_env \<Rightarrow> tea_msg list \<Rightarrow> form_model \<Rightarrow> form_model \<times> tea_cmd list" where
  "form_run env [] m = (m, [])"
| "form_run env (msg # msgs) m =
     (let (m1, cmds1) = form_update env msg m; (m2, cmds2) = form_run env msgs m1 in (m2, cmds1 @ cmds2))"

text \<open>A key press adds at most its own character to an input (pasted text is not a key press in this sense).\<close>

definition types_own_char :: "ui_env \<Rightarrow> string \<Rightarrow> bool" where
  "types_own_char env k \<longleftrightarrow>
     (\<forall>ti. set (ti_Value (u_input env (Key k False) ti)) \<subseteq> set (ti_Value ti) \<union> (if length k = 1 then set k else {}))"

definition spared :: "form_model \<Rightarrow> bool" where
  "spared m \<longleftrightarrow> (\<forall>ti\<in>set (fm_Inputs m). CHR ''j'' \<notin> set (ti_Value ti) \<and> CHR ''k'' \<notin> set (ti_Value ti))"

lemma spared_initInputs: "spared (initInputs m)"
proof -
  have "CHR ''j'' \<notin> set (fd_Default f) \<and> CHR ''k'' \<notin> set (fd_Default f)"
    if "cmd \<in> set availableCommands" "f \<in> set (cd_Fields cmd)" for cmd f
    using that by (auto simp: availableCommands_def)
  moreover have "availableCommands ! (if fm_SelectedCmd m \<ge> length availableCommands then 0 else fm_SelectedCmd m) \<in> set availableCommands"
    by (rule nth_mem) (simp add: availableCommands_def)
  ultimately show ?thesis by (auto simp: spared_def initInputs_def Let_def split: if_splits)
qed

lemma updateFocus_values: "map ti_Value (fm_Inputs (updateFocus m)) = map ti_Value (fm_Inputs m)"
  by (simp add: updateFocus_def map_equality_iff)

lemma spared_values: "spared m \<longleftrightarrow> (\<forall>v\<in>set (map ti_Value (fm_Inputs m)). CHR ''j'' \<notin> set v \<and> CHR ''k'' \<notin> set v)"
  by (auto simp: spared_def)

lemma spared_focus: "spared m \<Longrightarrow> spared (focus_next m)" "spared m \<Longrightarrow> spared (focus_prev m)"
  by (simp_all add: spared_values focus_next_def focus_prev_def updateFocus_values Let_def del: set_map)

lemma spared_typed:
  assumes "spared m" "types_own_char env k" "k \<noteq> ''j''" "k \<noteq> ''k''" "i < length (fm_Inputs m)"
  shows "spared (m\<lparr>fm_Inputs := (fm_Inputs m)[i := u_input env (Key k False) (fm_Inputs m ! i)]\<rparr>)"
proof -
  let ?ti = "fm_Inputs m ! i"
  have "set (ti_Value (u_input env (Key k False) ?ti)) \<subseteq> set (ti_Value ?ti) \<union> (if length k = 1 then set k else {})"
    using assms(2) by (simp add: types_own_char_def)
  moreover have "CHR ''j'' \<notin> set k \<and> CHR ''k'' \<notin> set k" if "length k = 1" using that assms(3,4) by (auto simp: length_Suc_conv)
  ultimately have "CHR ''j'' \<notin> set (ti_Value (u_input env (Key k False) ?ti)) \<and> CHR ''k'' \<notin> set (ti_Value (u_input env (Key k False) ?ti))"
    using assms(1,5) by (auto simp: spared_def split: if_splits)
  then show ?thesis using assms(1) set_update_subset_insert [of "fm_Inputs m" i] by (auto simp: spared_def)
qed

lemma spared_update:
  assumes "spared m" "types_own_char env k" shows "spared (fst (form_update env (Key k False) m))"
proof (cases "fm_State m")
  case StateSelecting
  then show ?thesis
    using assms(1) spared_initInputs
    by (auto simp: form_update_def select_update_def Let_def spared_def split: option.splits)
next
  case StateFilling
  have same: "spared (m\<lparr>fm_State := s\<rparr>)" for s using assms(1) by (simp add: spared_def)
  have "spared (fst (fill_update env (Key k False) m))"
    using assms same spared_focus [OF assms(1)] spared_typed [OF assms]
    by (auto simp: fill_update_def key_string_def Let_def nat_less_iff)
  then show ?thesis using StateFilling by (simp add: form_update_def)
qed

lemma form_run_ok: "form_ok m \<Longrightarrow> form_ok (fst (form_run env msgs m))"
proof (induction msgs arbitrary: m)
  case (Cons msg msgs)
  obtain m1 c1 where u: "form_update env msg m = (m1, c1)" by fastforce
  then have "form_ok m1" using form_update_ok [OF Cons.prems, of env msg] by simp
  then show ?case using Cons.IH [of m1] by (simp add: u case_prod_beta)
qed simp

lemma form_submit:
  assumes "SendCmd a r \<in> set (snd (form_update env msg m))"
  shows "fm_State m = StateFilling \<and> submitCommand m = SendCmd a r"
  using assms
  by (auto simp: form_update_def select_update_def fill_update_def Let_def split: tea_msg.splits option.splits if_splits FormState.splits)
    (metis FormState.exhaust)+


lemma sample_form:
  "form_run (sample_ui 7) [Key ''enter'' False, Key ''5'' False, Key ''enter'' False] (NewCommandFormModel ''d'') =
     (\<lparr>fm_DeviceID = ''d'', fm_State = StateFilling, fm_List = 0, fm_Inputs = [\<lparr>ti_Value = ''1005'', ti_Focused = False\<rparr>], fm_Focused = 1,
       fm_SelectedCmd = 0\<rparr>, [Blink, WidgetCmd 0])"
  by (simp add: form_update_def select_update_def fill_update_def NewCommandFormModel_def sample_ui_def key_string_def initInputs_def
      availableCommands_def focus_next_def updateFocus_def Let_def)


lemma splitComma_chars: "d \<in> set (split_comma s cur) \<Longrightarrow> set d \<subseteq> set s \<union> set cur"
  by (induction s cur rule: split_comma.induct) (auto split: if_splits)

lemma spared_run:
  assumes "spared m" "\<forall>k\<in>set keys. types_own_char env k" shows "spared (fst (form_run env (map (\<lambda>k. Key k False) keys) m))"
  using assms
proof (induction keys arbitrary: m)
  case (Cons k keys)
  obtain m1 c1 where u: "form_update env (Key k False) m = (m1, c1)" by fastforce
  then have "spared m1" using spared_update [OF Cons.prems(1), of env k] Cons.prems(2) by simp
  then show ?case using Cons.IH [of m1] Cons.prems(2) by (simp add: u case_prod_beta)
qed simp


lemma sample_block_form:
  "form_run (sample_ui 7) (map (\<lambda>k. Key k False) [''j'', ''j'', ''j'', ''enter'', ''enter'', ''enter'', ''o'', ''k'', ''down'', ''x'', ''enter''])
     (NewCommandFormModel ''d'') =
     (\<lparr>fm_DeviceID = ''d'', fm_State = StateFilling, fm_List = 3,
       fm_Inputs = [\<lparr>ti_Value = ''apply'', ti_Focused = False\<rparr>, \<lparr>ti_Value = ''true'', ti_Focused = False\<rparr>,
         \<lparr>ti_Value = ''ox'', ti_Focused = False\<rparr>], fm_Focused = 3, fm_SelectedCmd = 3\<rparr>, [Blink, WidgetCmd 0, WidgetCmd 0])"
  by (simp add: form_update_def select_update_def fill_update_def NewCommandFormModel_def sample_ui_def key_string_def initInputs_def
      availableCommands_def focus_next_def focus_prev_def updateFocus_def Let_def upt_rec)


end
