(* ===== verification/Services.thy ===== *)
theory Services
  imports Store "HOL-Library.List_Lexorder" "HOL-Library.Product_Lexorder"
begin

text \<open>
  The small tables of the backend and their services: users, devices, agent logs, queued commands and
  website-block rules (\<open>backend/app/models\<close>, \<open>backend/app/repo\<close>, \<open>backend/app/services\<close>).
  A repository call is one or two statements of the database parameter; the password hash is a parameter.
\<close>

subsection \<open>Users\<close>

record User =
  u_ID :: nat
  u_Username :: string
  u_PasswordHash :: string
  u_Role :: string

type_synonym users = "User list"

text \<open>
  \<open>return count, \<dots>.Count(&count).Error\<close> names the counter and the call that fills it in one statement; the
  language leaves open which is evaluated first.  The flag tells that the call comes first.
\<close>

definition CountByUsername :: "bool \<Rightarrow> User gorm \<Rightarrow> string \<Rightarrow> users \<Rightarrow> int \<times> db_error option" where
  "CountByUsername call_first db username t =
     (case g_find db (\<lambda>u. u_Username u = username) t of
        Inl e \<Rightarrow> (0, Some e)
      | Inr rows \<Rightarrow> ((if call_first then int (length rows) else 0), None))"

definition CreateUserRow :: "User gorm \<Rightarrow> nat \<Rightarrow> User \<Rightarrow> users \<Rightarrow> db_error option \<times> users" where
  "CreateUserRow db i u t =
     (case g_exec db (\<lambda>t. t @ [u\<lparr>u_ID := i\<rparr>]) t of Inl e \<Rightarrow> (Some e, t) | Inr t' \<Rightarrow> (None, t'))"

definition FindByUsername :: "User gorm \<Rightarrow> string \<Rightarrow> users \<Rightarrow> (db_error, User) res" where
  "FindByUsername db username t =
     (case g_first db u_ID (\<lambda>u. u_Username u = username) t of
        Inl e \<Rightarrow> Inl e
      | Inr None \<Rightarrow> Inl ''record not found''
      | Inr (Some u) \<Rightarrow> Inr u)"

record bcrypt =
  bc_hash :: "string \<Rightarrow> string"
  bc_match :: "string \<Rightarrow> string \<Rightarrow> bool"

definition bcrypt_ok :: "bcrypt \<Rightarrow> bool" where
  "bcrypt_ok bc \<longleftrightarrow> (\<forall>p q. bc_match bc (bc_hash bc p) q \<longleftrightarrow> p = q)"

definition EnsureUser ::
    "bool \<Rightarrow> User gorm \<Rightarrow> bcrypt \<Rightarrow> nat \<Rightarrow> string \<Rightarrow> string \<Rightarrow> string \<Rightarrow> users \<Rightarrow> db_error option \<times> users" where
  "EnsureUser call_first db bc i username password role t =
     (case CountByUsername call_first db username t of
        (n, Some e) \<Rightarrow> (Some e, t)
      | (n, None) \<Rightarrow>
          if n > 0 then (None, t)
          else let role' = (if role = [] then ''user'' else role)
               in CreateUserRow db i \<lparr>u_ID = 0, u_Username = username, u_PasswordHash = bc_hash bc password, u_Role = role'\<rparr> t)"

definition EnsureAdmin ::
    "bool \<Rightarrow> User gorm \<Rightarrow> bcrypt \<Rightarrow> nat \<Rightarrow> string \<Rightarrow> string \<Rightarrow> users \<Rightarrow> db_error option \<times> users" where
  "EnsureAdmin call_first db bc i username password t =
     (case CountByUsername call_first db username t of
        (n, Some e) \<Rightarrow> (Some e, t)
      | (n, None) \<Rightarrow>
          if n > 0 then (None, t)
          else CreateUserRow db i \<lparr>u_ID = 0, u_Username = username, u_PasswordHash = bc_hash bc password, u_Role = ''admin''\<rparr> t)"

definition CreateUser ::
    "User gorm \<Rightarrow> bcrypt \<Rightarrow> nat \<Rightarrow> string \<Rightarrow> string \<Rightarrow> string \<Rightarrow> users \<Rightarrow> db_error option \<times> users" where
  "CreateUser db bc i username password role t =
     (let role' = (if role = [] then ''user'' else role)
      in CreateUserRow db i \<lparr>u_ID = 0, u_Username = username, u_PasswordHash = bc_hash bc password, u_Role = role'\<rparr> t)"

definition ValidateCredentials :: "User gorm \<Rightarrow> bcrypt \<Rightarrow> string \<Rightarrow> string \<Rightarrow> users \<Rightarrow> (db_error, User) res" where
  "ValidateCredentials db bc username password t =
     (case FindByUsername db username t of
        Inl e \<Rightarrow> Inl e
      | Inr u \<Rightarrow> if bc_match bc (u_PasswordHash u) password then Inr u else Inl ''invalid credentials'')"

subsection \<open>Devices\<close>

record Device =
  dv_ID :: nat
  dv_UUID :: string
  dv_Name :: string
  dv_UserID :: nat
  dv_OSName :: string
  dv_OSVersion :: string
  dv_Hostname :: string
  dv_Arch :: string
  dv_CreatedAt :: time
  dv_UpdatedAt :: time

type_synonym devices = "Device list"

text \<open>\<open>Inr None\<close> is \<open>gorm.ErrRecordNotFound\<close>.\<close>

definition FindByUUID :: "Device gorm \<Rightarrow> string \<Rightarrow> devices \<Rightarrow> (db_error, Device option) res" where
  "FindByUUID db uuid t = g_first db dv_ID (\<lambda>d. dv_UUID d = uuid) t"

definition ListAll :: "Device gorm \<Rightarrow> devices \<Rightarrow> (db_error, Device list) res" where
  "ListAll db t = g_ordered db (\<lambda>d. - dv_CreatedAt d) (\<lambda>_. True) t"

definition assign_device :: "time \<Rightarrow> Device \<Rightarrow> Device \<Rightarrow> Device" where
  "assign_device now d r =
     r\<lparr>dv_Name := dv_Name d, dv_UserID := dv_UserID d, dv_OSName := dv_OSName d, dv_OSVersion := dv_OSVersion d,
       dv_Hostname := dv_Hostname d, dv_Arch := dv_Arch d, dv_UpdatedAt := now\<rparr>"

definition UpsertDevice :: "Device gorm \<Rightarrow> time \<Rightarrow> nat \<Rightarrow> Device \<Rightarrow> devices \<Rightarrow> db_error option \<times> devices" where
  "UpsertDevice db now i d t =
     (let run = (\<lambda>f. case g_exec db f t of Inl e \<Rightarrow> (Some e, t) | Inr t' \<Rightarrow> (None, t'))
      in case FindByUUID db (dv_UUID d) t of
           Inr (Some existing) \<Rightarrow> run (map (\<lambda>r. if dv_ID r = dv_ID existing then assign_device now d r else r))
         | _ \<Rightarrow> run (\<lambda>t. t @ [d\<lparr>dv_ID := i, dv_CreatedAt := now, dv_UpdatedAt := now\<rparr>]))"

subsection \<open>Agent logs\<close>

record AgentLog =
  lg_ID :: nat
  lg_DeviceID :: string
  lg_Content :: string
  lg_CreatedAt :: time

definition CreateLog :: "AgentLog gorm \<Rightarrow> time \<Rightarrow> nat \<Rightarrow> string \<Rightarrow> string \<Rightarrow> AgentLog list \<Rightarrow> db_error option \<times> AgentLog list" where
  "CreateLog db now i deviceID content t =
     (case g_exec db (\<lambda>t. t @ [\<lparr>lg_ID = i, lg_DeviceID = deviceID, lg_Content = content, lg_CreatedAt = now\<rparr>]) t of
        Inl e \<Rightarrow> (Some e, t) | Inr t' \<Rightarrow> (None, t'))"

definition LatestByDevice :: "AgentLog gorm \<Rightarrow> string \<Rightarrow> int \<Rightarrow> AgentLog list \<Rightarrow> (db_error, AgentLog list) res" where
  "LatestByDevice db deviceID limit t =
     map_sum id (take (nat (if limit \<le> 0 then 1 else limit)))
       (g_ordered db (\<lambda>l. - int (lg_ID l)) (\<lambda>l. lg_DeviceID l = deviceID) t)"

subsection \<open>Queued commands\<close>

record AgentCommand =
  cm_ID :: nat
  cm_DeviceID :: string
  cm_Command :: string
  cm_Kind :: string
  cm_Payload :: string
  cm_Status :: string
  cm_LastError :: string
  cm_SentAt :: "time option"

type_synonym commands = "AgentCommand list"

definition CreateCommand :: "AgentCommand gorm \<Rightarrow> nat \<Rightarrow> AgentCommand \<Rightarrow> commands \<Rightarrow> db_error option \<times> commands" where
  "CreateCommand db i cmd t =
     (case g_exec db (\<lambda>t. t @ [cmd\<lparr>cm_ID := i\<rparr>]) t of Inl e \<Rightarrow> (Some e, t) | Inr t' \<Rightarrow> (None, t'))"

definition UpdateStatus :: "AgentCommand gorm \<Rightarrow> nat \<Rightarrow> string \<Rightarrow> string \<Rightarrow> commands \<Rightarrow> db_error option \<times> commands" where
  "UpdateStatus db i status lastError t =
     (case g_exec db (map (\<lambda>c. if cm_ID c = i then c\<lparr>cm_Status := status, cm_LastError := lastError\<rparr> else c)) t of
        Inl e \<Rightarrow> (Some e, t) | Inr t' \<Rightarrow> (None, t'))"

definition MarkSent :: "AgentCommand gorm \<Rightarrow> time \<Rightarrow> nat \<Rightarrow> commands \<Rightarrow> db_error option \<times> commands" where
  "MarkSent db now i t =
     (case g_exec db (map (\<lambda>c. if cm_ID c = i then c\<lparr>cm_Status := ''sent'', cm_SentAt := Some now\<rparr> else c)) t of
        Inl e \<Rightarrow> (Some e, t) | Inr t' \<Rightarrow> (None, t'))"

definition ListByDevice :: "AgentCommand gorm \<Rightarrow> string \<Rightarrow> bool \<Rightarrow> commands \<Rightarrow> (db_error, AgentCommand list) res" where
  "ListByDevice db deviceID includeSent t =
     g_ordered db cm_ID
       (\<lambda>c. cm_DeviceID c = deviceID \<and> (includeSent \<or> cm_Status c = ''pending'' \<or> cm_Status c = ''failed'')) t"

subsection \<open>Website-block rules\<close>

record WebsiteBlockRule =
  wr_ID :: nat
  wr_DeviceID :: string
  wr_Type :: string
  wr_Category :: string
  wr_Domain :: string
  wr_Enabled :: bool
  wr_CreatedAt :: time
  wr_UpdatedAt :: time
  wr_DeletedAt :: "time option"

record WebsiteBlockStatus =
  ws_ID :: nat
  ws_DeviceID :: string
  ws_Enabled :: bool
  ws_UpdatedAt :: time

record WebsiteBlockRuleRequest =
  rq_Type :: string
  rq_Category :: string
  rq_Domain :: string
  rq_Enabled :: bool

record WebsiteBlockRuleResponse =
  rr_ID :: nat
  rr_DeviceID :: string
  rr_Type :: string
  rr_Category :: string
  rr_Domain :: string
  rr_Enabled :: bool
  rr_CreatedAt :: int
  rr_UpdatedAt :: int

record WebsiteBlockStatusResponse =
  sr_DeviceID :: string
  sr_Enabled :: bool
  sr_UpdatedAt :: int

record BlockWebsiteCommand =
  bw_Action :: string
  bw_Rules :: "WebsiteBlockRuleResponse list"
  bw_Status :: WebsiteBlockStatusResponse

datatype block_error = ErrInvalidInput | BlockDB db_error

text \<open>
  Two conventions of gorm for fields that hold Go's zero value are parameters: what \<open>Create\<close> stores in a column
  with a default (\<open>created\<close>), and what \<open>Assign\<close> with a struct leaves in the row (\<open>assigned\<close>, given the
  new and the old value).
\<close>

record gorm_zero =
  created :: "bool \<Rightarrow> bool"
  assigned :: "bool \<Rightarrow> bool \<Rightarrow> bool"

definition gorm_zero_documented :: "gorm_zero \<Rightarrow> bool" where
  "gorm_zero_documented z \<longleftrightarrow>
     created z True \<and> created z False \<and> (\<forall>old. assigned z True old) \<and> (\<forall>old. assigned z False old = old)"

record block_db =
  b_rules :: "WebsiteBlockRule gorm"
  b_status :: "WebsiteBlockStatus gorm"
  b_zero :: gorm_zero

record block_tables =
  rules :: "WebsiteBlockRule list"
  statuses :: "WebsiteBlockStatus list"

definition ruleToDTO :: "WebsiteBlockRule \<Rightarrow> WebsiteBlockRuleResponse" where
  "ruleToDTO r = \<lparr>rr_ID = wr_ID r, rr_DeviceID = wr_DeviceID r, rr_Type = wr_Type r, rr_Category = wr_Category r,
     rr_Domain = wr_Domain r, rr_Enabled = wr_Enabled r, rr_CreatedAt = wr_CreatedAt r div second,
     rr_UpdatedAt = wr_UpdatedAt r div second\<rparr>"

definition on_rules ::
    "block_db \<Rightarrow> (WebsiteBlockRule list \<Rightarrow> WebsiteBlockRule list) \<Rightarrow> block_tables \<Rightarrow> block_error option \<times> block_tables" where
  "on_rules db f t =
     (case g_exec (b_rules db) f (rules t) of Inl e \<Rightarrow> (Some (BlockDB e), t) | Inr r \<Rightarrow> (None, t\<lparr>rules := r\<rparr>))"

definition CreateRule ::
    "block_db \<Rightarrow> time \<Rightarrow> nat \<Rightarrow> string \<Rightarrow> WebsiteBlockRuleRequest \<Rightarrow> block_tables \<Rightarrow>
     (block_error, WebsiteBlockRuleResponse) res \<times> block_tables" where
  "CreateRule db now i deviceID req t =
     (if rq_Type req \<noteq> ''category'' \<and> rq_Type req \<noteq> ''domain'' then (Inl ErrInvalidInput, t)
      else if rq_Type req = ''category'' \<and> rq_Category req = [] then (Inl ErrInvalidInput, t)
      else if rq_Type req = ''domain'' \<and> rq_Domain req = [] then (Inl ErrInvalidInput, t)
      else
        let rule = \<lparr>wr_ID = i, wr_DeviceID = deviceID, wr_Type = rq_Type req, wr_Category = rq_Category req,
              wr_Domain = rq_Domain req, wr_Enabled = created (b_zero db) (rq_Enabled req), wr_CreatedAt = now,
              wr_UpdatedAt = now, wr_DeletedAt = None\<rparr>
        in case on_rules db (\<lambda>rs. rs @ [rule]) t of
             (Some e, t') \<Rightarrow> (Inl e, t')
           | (None, t') \<Rightarrow> (Inr (ruleToDTO rule), t'))"

definition GetRule :: "block_db \<Rightarrow> nat \<Rightarrow> block_tables \<Rightarrow> (db_error, WebsiteBlockRule option) res" where
  "GetRule db i t = g_first (b_rules db) wr_ID (\<lambda>r. wr_ID r = i) (rules t)"

definition rules_of :: "block_db \<Rightarrow> string \<Rightarrow> block_tables \<Rightarrow> (db_error, WebsiteBlockRule list) res" where
  "rules_of db deviceID t =
     g_ordered (b_rules db) (\<lambda>r. - wr_CreatedAt r) (\<lambda>r. wr_DeviceID r = deviceID \<and> wr_DeletedAt r = None) (rules t)"

definition ListRules :: "block_db \<Rightarrow> string \<Rightarrow> block_tables \<Rightarrow> (db_error, WebsiteBlockRuleResponse list) res" where
  "ListRules db deviceID t = map_sum id (map ruleToDTO) (rules_of db deviceID t)"

definition UpdateRule ::
    "block_db \<Rightarrow> time \<Rightarrow> nat \<Rightarrow> WebsiteBlockRuleRequest \<Rightarrow> block_tables \<Rightarrow> block_error option \<times> block_tables" where
  "UpdateRule db now i req t =
     on_rules db (map (\<lambda>r. if wr_ID r = i then
       r\<lparr>wr_Type := (if rq_Type req \<noteq> [] then rq_Type req else wr_Type r),
         wr_Category := (if rq_Category req \<noteq> [] then rq_Category req else wr_Category r),
         wr_Domain := (if rq_Domain req \<noteq> [] then rq_Domain req else wr_Domain r),
         wr_Enabled := rq_Enabled req, wr_UpdatedAt := now\<rparr> else r)) t"

definition DeleteRule :: "block_db \<Rightarrow> time \<Rightarrow> nat \<Rightarrow> block_tables \<Rightarrow> block_error option \<times> block_tables" where
  "DeleteRule db now i t =
     on_rules db (map (\<lambda>r. if wr_ID r = i then r\<lparr>wr_DeletedAt := Some now, wr_UpdatedAt := now\<rparr> else r)) t"

text \<open>\<open>GetStatus\<close> creates the row of a device that has none.\<close>

definition GetStatus ::
    "block_db \<Rightarrow> time \<Rightarrow> nat \<Rightarrow> string \<Rightarrow> block_tables \<Rightarrow> (db_error, WebsiteBlockStatus) res \<times> block_tables" where
  "GetStatus db now i deviceID t =
     (case g_first (b_status db) ws_ID (\<lambda>s. ws_DeviceID s = deviceID) (statuses t) of
        Inl e \<Rightarrow> (Inl e, t)
      | Inr (Some s) \<Rightarrow> (Inr s, t)
      | Inr None \<Rightarrow>
          let s = \<lparr>ws_ID = i, ws_DeviceID = deviceID, ws_Enabled = False, ws_UpdatedAt = now\<rparr>
          in case g_exec (b_status db) (\<lambda>ss. ss @ [s]) (statuses t) of
               Inl e \<Rightarrow> (Inl e, t)
             | Inr ss \<Rightarrow> (Inr s, t\<lparr>statuses := ss\<rparr>))"

definition UpdateBlockStatus ::
    "block_db \<Rightarrow> time \<Rightarrow> nat \<Rightarrow> string \<Rightarrow> bool \<Rightarrow> block_tables \<Rightarrow> db_error option \<times> block_tables" where
  "UpdateBlockStatus db now i deviceID on t =
     (let run = (\<lambda>f. case g_exec (b_status db) f (statuses t) of
                       Inl e \<Rightarrow> (Some e, t) | Inr ss \<Rightarrow> (None, t\<lparr>statuses := ss\<rparr>))
      in case g_first (b_status db) ws_ID (\<lambda>s. ws_DeviceID s = deviceID) (statuses t) of
           Inl e \<Rightarrow> (Some e, t)
         | Inr (Some s0) \<Rightarrow>
             run (map (\<lambda>s. if ws_ID s = ws_ID s0 then s\<lparr>ws_Enabled := assigned (b_zero db) on (ws_Enabled s)\<rparr> else s))
         | Inr None \<Rightarrow> run (\<lambda>ss. ss @ [\<lparr>ws_ID = i, ws_DeviceID = deviceID, ws_Enabled = on, ws_UpdatedAt = now\<rparr>]))"

definition statusToDTO :: "WebsiteBlockStatus \<Rightarrow> WebsiteBlockStatusResponse" where
  "statusToDTO s = \<lparr>sr_DeviceID = ws_DeviceID s, sr_Enabled = ws_Enabled s, sr_UpdatedAt = ws_UpdatedAt s div second\<rparr>"

definition GetSyncData ::
    "block_db \<Rightarrow> time \<Rightarrow> nat \<Rightarrow> string \<Rightarrow> block_tables \<Rightarrow> (db_error, BlockWebsiteCommand) res \<times> block_tables" where
  "GetSyncData db now i deviceID t =
     (case GetStatus db now i deviceID t of
        (Inl e, t') \<Rightarrow> (Inl e, t')
      | (Inr status, t') \<Rightarrow>
          (case rules_of db deviceID t' of
             Inl e \<Rightarrow> (Inl e, t')
           | Inr rs \<Rightarrow>
               (Inr \<lparr>bw_Action = ''sync'', bw_Rules = map ruleToDTO (filter wr_Enabled rs), bw_Status = statusToDTO status\<rparr>, t')))"

subsection \<open>Properties\<close>

lemma mset_filter_length: "mset xs = mset (filter P ys) \<Longrightarrow> length xs = length (filter P ys)"
  by (metis size_mset)

text \<open>
  Seeding a user works once and only once (when the count is read after the query that fills it): after
  \<open>EnsureUser\<close> on a table that has no such user, the user logs in with exactly the seeded password and has the
  requested role, and seeding the same name again, even with another password, changes nothing.
\<close>
theorem seeded_user_logs_in:
  assumes db: "gorm_reliable db" and bc: "bcrypt_ok bc"
    and new: "\<forall>u\<in>set t. u_Username u \<noteq> name"
    and run: "EnsureUser True db bc i name pw role t = (e, t')" and role: "role \<noteq> []"
  shows "e = None \<and>
    (\<exists>u. ValidateCredentials db bc name pw t' = Inr u \<and> u_Username u = name \<and> u_Role u = role) \<and>
    (\<forall>pw'. pw' \<noteq> pw \<longrightarrow> ValidateCredentials db bc name pw' t' = Inl ''invalid credentials'') \<and>
    (\<forall>j pw' role'. EnsureUser True db bc j name pw' role' t' = (None, t'))"
proof -
  let ?P = "\<lambda>u. u_Username u = name"
  let ?u = "\<lparr>u_ID = i, u_Username = name, u_PasswordHash = bc_hash bc pw, u_Role = role\<rparr>"
  obtain rows where rows: "g_find db ?P t = Inr rows" "mset rows = mset (filter ?P t)"
    using db by (rule gorm_findE)
  have "filter ?P t = []" using new by (simp add: filter_empty_conv)
  then have r: "rows = []" using rows(2) by (metis mset_zero_iff mset.simps(1))
  have e: "e = None" and t': "t' = t @ [?u]"
    using run role by (auto simp: EnsureUser_def CountByUsername_def rows(1) r CreateUserRow_def gorm_exec_reliable [OF db])
  have only: "filter ?P t' = [?u]" using new by (simp add: t' filter_empty_conv)
  obtain rows' where rows': "g_find db ?P t' = Inr rows'" "mset rows' = mset (filter ?P t')"
    using db by (rule gorm_findE)
  then have r': "rows' = [?u]" unfolding only by (simp add: mset_single_iff)
  have "FindByUsername db name t' = Inr ?u" by (simp add: FindByUsername_def g_first_def rows'(1) r')
  moreover have "EnsureUser True db bc j name pw' role' t' = (None, t')" for j pw' role'
    by (simp add: EnsureUser_def CountByUsername_def rows'(1) r')
  ultimately show ?thesis using bc e by (simp add: ValidateCredentials_def bcrypt_ok_def)
qed

theorem seeded_user_logs_in_witness:
  "\<exists>e t' u. EnsureUser True memory_gorm \<lparr>bc_hash = (\<lambda>x. x), bc_match = (=)\<rparr> 1 ''user'' ''user123'' ''user'' [] = (e, t') \<and>
     ValidateCredentials memory_gorm \<lparr>bc_hash = (\<lambda>x. x), bc_match = (=)\<rparr> ''user'' ''user123'' t' = Inr u \<and> u_Role u = ''user''"
proof -
  let ?bc = "\<lparr>bc_hash = (\<lambda>x. x), bc_match = (=)\<rparr>"
  obtain e t' where run: "EnsureUser True memory_gorm ?bc 1 ''user'' ''user123'' ''user'' [] = (e, t')" by fastforce
  have "bcrypt_ok ?bc" by (simp add: bcrypt_ok_def)
  then show ?thesis using seeded_user_logs_in [OF memory_gorm_reliable(1) _ _ run] run by fastforce
qed

text \<open>
  \<open>UpsertDevice\<close> keeps the device table keyed by UUID: if no two rows had the same UUID or the same key before, none
  have after; the device is found afterwards with exactly the data that were given, with the key and creation
  time of the row it had before if it had one, and the rows of all other devices are unchanged.
\<close>
theorem upsert_device_round_trip:
  assumes db: "gorm_reliable db" and uniq: "distinct (map dv_UUID t)" "distinct (map dv_ID t)" "i \<notin> dv_ID ` set t"
    and run: "UpsertDevice db now i d t = (e, t')"
  shows "e = None \<and> distinct (map dv_UUID t') \<and> distinct (map dv_ID t') \<and>
    (\<exists>r. FindByUUID db (dv_UUID d) t' = Inr (Some r) \<and> dv_UUID r = dv_UUID d \<and> dv_Name r = dv_Name d \<and>
       dv_Hostname r = dv_Hostname d \<and> dv_OSName r = dv_OSName d \<and>
       (\<forall>old\<in>set t. dv_UUID old = dv_UUID d \<longrightarrow> dv_ID r = dv_ID old \<and> dv_CreatedAt r = dv_CreatedAt old)) \<and>
    filter (\<lambda>r. dv_UUID r \<noteq> dv_UUID d) t' = filter (\<lambda>r. dv_UUID r \<noteq> dv_UUID d) t"
proof -
  let ?P = "\<lambda>r. dv_UUID r = dv_UUID d"
  obtain x where x: "FindByUUID db (dv_UUID d) t = Inr x" using g_first_reliable [OF db] unfolding FindByUUID_def by blast
  have found: "\<exists>r. FindByUUID db (dv_UUID d) u = Inr (Some r) \<and> r \<in> set u \<and> ?P r" if "\<exists>r\<in>set u. ?P r" for u
  proof -
    obtain y where y: "g_first db dv_ID ?P u = Inr y" using g_first_reliable [OF db] by blast
    then have "y \<noteq> None" using g_first_None [OF gorm_reliable_sound [OF db], of dv_ID ?P u] that by auto
    then obtain r where "y = Some r" by auto
    then show ?thesis using g_firstD(1,2) [OF gorm_reliable_sound [OF db] y [unfolded \<open>y = Some r\<close>]] y
      by (auto simp: FindByUUID_def)
  qed
  show ?thesis
  proof (cases x)
    case None
    let ?new = "d\<lparr>dv_ID := i, dv_CreatedAt := now, dv_UpdatedAt := now\<rparr>"
    have no: "\<forall>r\<in>set t. \<not> ?P r" using g_first_None [OF gorm_reliable_sound [OF db]] x None unfolding FindByUUID_def by blast
    have t': "e = None" "t' = t @ [?new]" using run x None by (auto simp: UpsertDevice_def gorm_exec_reliable [OF db])
    obtain r where r: "FindByUUID db (dv_UUID d) t' = Inr (Some r)" "r \<in> set t'" "?P r" using found [of t'] t' by auto
    then have "r = ?new" using no t' by auto
    then show ?thesis using r no t' uniq by auto
  next
    case (Some old)
    have old: "old \<in> set t" "?P old"
      using g_firstD(1,2) [OF gorm_reliable_sound [OF db]] x Some unfolding FindByUUID_def by blast+
    let ?f = "\<lambda>r. if dv_ID r = dv_ID old then assign_device now d r else r"
    have t': "e = None" "t' = map ?f t" using run x Some by (auto simp: UpsertDevice_def gorm_exec_reliable [OF db])
    have key: "r = old" if "r \<in> set t" "dv_ID r = dv_ID old" for r
      using that old uniq(2) by (metis distinct_map inj_onD)
    have key': "r = old" if "r \<in> set t" "?P r" for r
      using that old uniq(1) by (metis distinct_map inj_onD)
    have f: "dv_UUID (?f r) = dv_UUID r" "dv_ID (?f r) = dv_ID r" for r by (simp_all add: assign_device_def)
    have ids: "map dv_UUID t' = map dv_UUID t" "map dv_ID t' = map dv_ID t" by (simp_all add: t' f)
    have "dv_UUID d \<in> set (map dv_UUID t')" unfolding ids using imageI [OF old(1), of dv_UUID] old(2) by simp

    then have "\<exists>r\<in>set t'. ?P r" by (metis (no_types, lifting) image_iff list.set_map)
    then obtain r where r: "FindByUUID db (dv_UUID d) t' = Inr (Some r)" "r \<in> set t'" "?P r"
      using found [of t'] by blast

    then obtain r0 where "r0 \<in> set t" "r = ?f r0" by (auto simp: t')
    then have "r0 = old" using r(3) key' [of r0] f(1) [of r0] by (simp add: assign_device_def split: if_splits)
    then have r': "r = assign_device now d old" using \<open>r = ?f r0\<close> by simp
    have rest: "filter (\<lambda>r. \<not> ?P r) t' = filter (\<lambda>r. \<not> ?P r) t"
      unfolding t'(2) using old(2) key by (intro filter_map_same) (auto simp: assign_device_def)
    have "dv_ID r = dv_ID x \<and> dv_CreatedAt r = dv_CreatedAt x" if "x \<in> set t" "?P x" for x
      using key' [OF that] r' by (simp add: assign_device_def)
    then show ?thesis
      using r(1) r' t'(1) uniq(1,2) old(2) rest unfolding ids by (simp add: assign_device_def)

  qed
qed

definition sample_device :: Device where
  "sample_device = \<lparr>dv_ID = 0, dv_UUID = ''m1'', dv_Name = ''pc'', dv_UserID = 0, dv_OSName = ''linux'', dv_OSVersion = ''6'',
     dv_Hostname = ''h'', dv_Arch = ''x'', dv_CreatedAt = 0, dv_UpdatedAt = 0\<rparr>"

theorem upsert_device_round_trip_witness:
  "\<exists>e t' r. UpsertDevice memory_gorm 9 2 (sample_device\<lparr>dv_Name := ''new''\<rparr>) [sample_device\<lparr>dv_ID := 1, dv_CreatedAt := 4\<rparr>] = (e, t') \<and>
     FindByUUID memory_gorm ''m1'' t' = Inr (Some r) \<and> dv_Name r = ''new'' \<and> dv_ID r = 1 \<and> dv_CreatedAt r = 4"
proof -
  let ?d = "sample_device\<lparr>dv_Name := ''new''\<rparr>" and ?t = "[sample_device\<lparr>dv_ID := 1, dv_CreatedAt := 4\<rparr>]"
  obtain e t' where run: "UpsertDevice memory_gorm 9 2 ?d ?t = (e, t')" by fastforce
  have u: "dv_UUID ?d = ''m1''" by (simp add: sample_device_def)
  have "e = None \<and> distinct (map dv_UUID t') \<and> distinct (map dv_ID t') \<and>
    (\<exists>r. FindByUUID memory_gorm (dv_UUID ?d) t' = Inr (Some r) \<and> dv_UUID r = dv_UUID ?d \<and> dv_Name r = dv_Name ?d \<and>
       dv_Hostname r = dv_Hostname ?d \<and> dv_OSName r = dv_OSName ?d \<and>
       (\<forall>old\<in>set ?t. dv_UUID old = dv_UUID ?d \<longrightarrow> dv_ID r = dv_ID old \<and> dv_CreatedAt r = dv_CreatedAt old)) \<and>
    filter (\<lambda>r. dv_UUID r \<noteq> dv_UUID ?d) t' = filter (\<lambda>r. dv_UUID r \<noteq> dv_UUID ?d) ?t"
    by (rule upsert_device_round_trip [OF memory_gorm_reliable(1) _ _ _ run]) simp_all
  then obtain r where "FindByUUID memory_gorm ''m1'' t' = Inr (Some r)" "dv_Name r = ''new''" "dv_ID r = 1" "dv_CreatedAt r = 4"
    unfolding u by (auto simp: sample_device_def)
  with run show ?thesis by blast
qed

text \<open>
  Under gorm's documented rule that zero values of an assigned struct are not written, website blocking that was
  once switched on for a device cannot be switched off: \<open>UpdateStatus(device, false)\<close> reports success and the status
  that is read and sent to the agent afterwards is still enabled.
\<close>
theorem website_blocking_cannot_be_switched_off:
  assumes "gorm_zero_documented (b_zero db)" "gorm_reliable (b_status db)" "gorm_reliable (b_rules db)"
    and one: "statuses t = [s]" "ws_DeviceID s = dev" "ws_Enabled s"
    and off: "UpdateBlockStatus db now i dev False t = (e, t')"
  shows "e = None \<and> (\<exists>c. GetSyncData db now' j dev t' = (Inr c, t') \<and> sr_Enabled (bw_Status c))"
proof -
  let ?P = "\<lambda>s. ws_DeviceID s = dev"
  have first: "g_first (b_status db) ws_ID ?P [s] = Inr (Some s)"
  proof -
    obtain rows where rows: "g_find (b_status db) ?P [s] = Inr rows" "mset rows = mset (filter ?P [s])"
      using assms(2) by (rule gorm_findE)
    then have "rows = [s]" using one(2) by (simp add: mset_single_iff)
    then show ?thesis using rows(1) by (simp add: g_first_def)
  qed
  have "s\<lparr>ws_Enabled := assigned (b_zero db) False (ws_Enabled s)\<rparr> = s"
    using assms(1) by (simp add: gorm_zero_documented_def)
  then have t': "e = None" "statuses t' = [s]" "rules t' = rules t"
    using off first one by (auto simp: UpdateBlockStatus_def gorm_exec_reliable [OF assms(2)])
  obtain rs0 where "g_find (b_rules db) (\<lambda>r. wr_DeviceID r = dev \<and> wr_DeletedAt r = None) (rules t') = Inr rs0"
    using assms(3) by (rule gorm_findE)
  then obtain rs where "rules_of db dev t' = Inr rs" by (simp add: rules_of_def g_ordered_def)
  then show ?thesis using first t' one(3) by (simp add: GetSyncData_def GetStatus_def statusToDTO_def)
qed

definition sample_block_db :: block_db where
  "sample_block_db = \<lparr>b_rules = memory_gorm, b_status = memory_gorm,
     b_zero = \<lparr>created = (\<lambda>_. True), assigned = (\<lambda>new old. new \<or> old)\<rparr>\<rparr>"

theorem website_blocking_cannot_be_switched_off_witness:
  "\<exists>e t' c. UpdateBlockStatus sample_block_db 7 3 ''d'' False
       \<lparr>rules = [], statuses = [\<lparr>ws_ID = 1, ws_DeviceID = ''d'', ws_Enabled = True, ws_UpdatedAt = 0\<rparr>]\<rparr> = (e, t') \<and>
     e = None \<and> GetSyncData sample_block_db 8 4 ''d'' t' = (Inr c, t') \<and> sr_Enabled (bw_Status c)"
proof -
  let ?t = "\<lparr>rules = [], statuses = [\<lparr>ws_ID = 1, ws_DeviceID = ''d'', ws_Enabled = True, ws_UpdatedAt = 0\<rparr>]\<rparr>"
  obtain e t' where run: "UpdateBlockStatus sample_block_db 7 3 ''d'' False ?t = (e, t')" by fastforce
  have "e = None \<and> (\<exists>c. GetSyncData sample_block_db 8 4 ''d'' t' = (Inr c, t') \<and> sr_Enabled (bw_Status c))"
    by (rule website_blocking_cannot_be_switched_off [OF _ _ _ _ _ _ run,
          where s = "\<lparr>ws_ID = 1, ws_DeviceID = ''d'', ws_Enabled = True, ws_UpdatedAt = 0\<rparr>"])
      (simp_all add: sample_block_db_def gorm_zero_documented_def)

  with run show ?thesis by blast
qed

end
