(* ===== verification/Controller.thy ===== *)
theory Controller
  imports FileTransfer Registry FileTree Services
begin

text \<open>
  The backend's protocol controller (\<open>backend/app/controllers\<close>) and the hub of connected devices
  (\<open>backend/app/socket/hub.go\<close>).  The controller's state extends that of the transfer handlers by the hub, the device
  registry of the C server and the database tables.  A handler yields the new state and the frames it hands to the
  network, each with its socket.
\<close>

subsection \<open>State and environment\<close>

record controller = transfer_state +
  byID :: "string \<Rightarrow> TCPClient option"
  reg :: registry
  cmd_rows :: commands
  device_rows :: devices
  user_rows :: users
  log_rows :: "AgentLog list"
  tree :: tree_db

type_synonym outgoing = "(int \<times> frame) list"

record tree_node =
  tn_ID :: string
  tn_Name :: string
  tn_Type :: string
  tn_ParentID :: "string option"
  tn_Size :: int
  tn_Extension :: string
  tn_ContentTypeIDs :: "nat list"
  tn_UpdatedAtUnix :: int
  tn_DeletedAtUnix :: "int option"

datatype response =
    TokenReply string string
  | SessionReply BackupSessionResponse
  | CommandReply nat string bool
  | DeviceList "(string \<times> string \<times> bool) list"
  | OnlineList "string list"
  | TreeReply "tree_node list" bool

record ProtocolLoginRequest =
  lr_Username :: string
  lr_Password :: string
  lr_DeviceID :: string
  lr_Name :: string
  lr_OSName :: string
  lr_OSVersion :: string
  lr_Hostname :: string
  lr_Arch :: string

record DeviceRequest =
  dr_UUID :: string
  dr_Name :: string
  dr_OSName :: string
  dr_OSVersion :: string
  dr_Hostname :: string
  dr_Arch :: string

record AdminSendCommandRequest =
  ac_DeviceID :: string
  ac_Command :: string
  ac_Kind :: string
  ac_Payload :: string

record AdminListTreeRequest =
  lt_DeviceID :: string
  lt_ParentID :: "string option"
  lt_Page :: int
  lt_PageSize :: int

datatype handler_error =
    TransferError ctl_error | DatabaseError db_error | ErrorText string

text \<open>
  What a handler depends on beyond the state: which services are wired, the database engines, the token
  signer, JSON coding, the clock, and which sockets deliver.
\<close>

record ctl_env =
  w_Hub :: bool
  w_CmdRepo :: bool
  w_Devices :: bool
  w_Tree :: bool
  w_Logs :: bool
  w_Users :: bool
  w_Signer :: bool
  db_cmd :: "AgentCommand gorm"
  db_dev :: "Device gorm"
  db_user :: "User gorm"
  db_log :: "AgentLog gorm"
  db_tree :: tree_gorm
  db_ver :: "BackupFileVersion gorm"
  Sign :: "nat \<Rightarrow> string \<Rightarrow> string \<Rightarrow> string \<Rightarrow> string option"
  Parse :: "string \<Rightarrow> string option"
  bc :: bcrypt
  new_uuid :: string
  env_now :: time
  next_id :: nat
  env_io :: backup_io
  env_chunk :: chunk_io
  env_down :: download_io
  env_tree :: tree_env
  env_time :: time_parsers
  env_like :: "string \<Rightarrow> string \<Rightarrow> bool"
  error_text :: "handler_error \<Rightarrow> string"
  un_envelope :: "bytes \<Rightarrow> (string \<times> bytes) option"
  un_login :: "bytes \<Rightarrow> ProtocolLoginRequest option"
  un_device :: "bytes \<Rightarrow> DeviceRequest option"
  un_changes :: "bytes \<Rightarrow> FileChange list option"
  un_lines :: "bytes \<Rightarrow> string option"
  un_command :: "bytes \<Rightarrow> AdminSendCommandRequest option"
  un_tree :: "bytes \<Rightarrow> AdminListTreeRequest option"
  un_upload :: "bytes \<Rightarrow> BackupUploadInitRequest option"
  un_download :: "bytes \<Rightarrow> BackupDownloadInitRequest option"
  un_start :: "bytes \<Rightarrow> BackupDownloadStartRequest option"
  json :: "response \<Rightarrow> bytes option"
  json_error :: string
  json_command :: "string \<Rightarrow> string \<Rightarrow> string \<Rightarrow> string \<Rightarrow> bytes option"
  delivers :: "int \<Rightarrow> bool"

subsection \<open>Hub (hub.go)\<close>

definition Register :: "string \<Rightarrow> TCPClient \<Rightarrow> controller \<Rightarrow> controller" where
  "Register deviceID c st = st\<lparr>byID := (byID st)(deviceID \<mapsto> c)\<rparr>"

definition Unregister :: "string \<Rightarrow> TCPClient \<Rightarrow> controller \<Rightarrow> controller" where
  "Unregister deviceID c st =
     (case byID st deviceID of
        None \<Rightarrow> st
      | Some cur \<Rightarrow> if Equal (Some cur) (Some c) then st\<lparr>byID := (byID st)(deviceID := None)\<rparr> else st)"

definition IsOnline :: "string \<Rightarrow> controller \<Rightarrow> bool" where
  "IsOnline deviceID st \<longleftrightarrow> DeviceIsOnline (reg st) (to_bytes deviceID) \<or> byID st deviceID \<noteq> None"

text \<open>The keys of the map are given in the order in which the program meets them.\<close>

definition OnlineDevices :: "string list \<Rightarrow> controller \<Rightarrow> string list" where
  "OnlineDevices keys st = filter (\<lambda>i. DeviceIsOnline (reg st) (to_bytes i)) (filter (\<lambda>i. byID st i \<noteq> None) keys)"

text \<open>The frame that went out, or \<open>None\<close> on an error.\<close>

definition Send :: "(int \<Rightarrow> bool) \<Rightarrow> string \<Rightarrow> bytes \<Rightarrow> controller \<Rightarrow> (int \<times> frame) option" where
  "Send ok deviceID data st =
     (case SendToDevice (ok (registry_get (to_bytes deviceID) (reg st))) (reg st) (to_bytes deviceID) data of
        Inr (f, _) \<Rightarrow> Some (f, FCommand data)
      | Inl _ \<Rightarrow>
          (case byID st deviceID of
             None \<Rightarrow> None
           | Some cc \<Rightarrow>
               if IsOpen (Some cc) then
                 (case SendCommand (ok (fd cc)) (Some cc) data of Inr _ \<Rightarrow> Some (fd cc, FCommand data) | Inl _ \<Rightarrow> None)
               else None))"

subsection \<open>Replies (protocol_controller.go)\<close>

definition ack :: "ctl_env \<Rightarrow> TCPClient \<Rightarrow> 16 word \<Rightarrow> bytes \<Rightarrow> outgoing" where
  "ack env c code msg =
     (case SendAck (delivers env (fd c)) (Some c) code msg of Inr _ \<Rightarrow> [(fd c, FAck code msg)] | Inl _ \<Rightarrow> [])"

definition maxLen :: nat where "maxLen = 3800"

definition sendAckJSON :: "ctl_env \<Rightarrow> TCPClient \<Rightarrow> 16 word \<Rightarrow> response option \<Rightarrow> outgoing" where
  "sendAckJSON env c code payload =
     (case payload of
        None \<Rightarrow> ack env c code []
      | Some r \<Rightarrow>
          (case json env r of
             None \<Rightarrow> ack env c code (to_bytes (json_error env))
           | Some b \<Rightarrow>
               if length b > maxLen then ack env c 413 (to_bytes ''response too large'')
               else ack env c code b))"

fun retry_commands ::
    "ctl_env \<Rightarrow> string \<Rightarrow> AgentCommand list \<Rightarrow> controller \<Rightarrow> outgoing \<times> controller" where
  "retry_commands env deviceID [] st = ([], st)"
| "retry_commands env deviceID (cmd # cmds) st =
     (case json_command env deviceID (cm_Command cmd) (cm_Kind cmd) (cm_Payload cmd) of
        None \<Rightarrow>
          (let rows = snd (UpdateStatus (db_cmd env) (cm_ID cmd) ''failed'' (json_error env) (cmd_rows st))
           in retry_commands env deviceID cmds (st\<lparr>cmd_rows := rows\<rparr>))
      | Some payload \<Rightarrow>
          (case Send (delivers env) deviceID payload st of
             None \<Rightarrow>
               ([], st\<lparr>cmd_rows := snd (UpdateStatus (db_cmd env) (cm_ID cmd) ''failed''
                         (error_text env (ErrorText ''send to device failed'')) (cmd_rows st))\<rparr>)
           | Some f \<Rightarrow>
               (let st' = st\<lparr>cmd_rows := snd (MarkSent (db_cmd env) (env_now env) (cm_ID cmd) (cmd_rows st))\<rparr>;
                    (out, st'') = retry_commands env deviceID cmds st'
                in (f # out, st''))))"

definition retryPendingCommands :: "ctl_env \<Rightarrow> string \<Rightarrow> controller \<Rightarrow> outgoing \<times> controller" where
  "retryPendingCommands env deviceID st =
     (if \<not> w_CmdRepo env then ([], st)
      else case ListByDevice (db_cmd env) deviceID False (cmd_rows st) of
             Inl e \<Rightarrow> ([], st)
           | Inr cmds \<Rightarrow> retry_commands env deviceID cmds st)"

definition HandleDisconnect :: "TCPClient \<Rightarrow> string \<Rightarrow> controller \<Rightarrow> controller" where
  "HandleDisconnect client deviceID st =
     (if deviceID = [] then st
      else let st' = Unregister deviceID client st in st'\<lparr>deviceTokens := (deviceTokens st')(deviceID := None)\<rparr>)"

subsection \<open>Login (protocol_auth.go)\<close>

definition login_device :: "ctl_env \<Rightarrow> string \<Rightarrow> ProtocolLoginRequest \<Rightarrow> controller \<Rightarrow> controller" where
  "login_device env deviceID req st =
     (let info = \<lparr>dv_ID = 0, dv_UUID = deviceID, dv_Name = lr_Name req, dv_UserID = 0, dv_OSName = lr_OSName req,
            dv_OSVersion = lr_OSVersion req, dv_Hostname = lr_Hostname req, dv_Arch = lr_Arch req,
            dv_CreatedAt = 0, dv_UpdatedAt = 0\<rparr>
      in if \<not> w_Devices env \<or> deviceID = [] then st
         else case FindByUUID (db_dev env) deviceID (device_rows st) of
                Inl e \<Rightarrow> st
              | Inr _ \<Rightarrow> st\<lparr>device_rows := snd (UpsertDevice (db_dev env) (env_now env) (next_id env) info (device_rows st))\<rparr>)"

definition handleLogin ::
    "ctl_env \<Rightarrow> string \<Rightarrow> bytes \<Rightarrow> controller \<Rightarrow> (handler_error, response) res \<times> controller" where
  "handleLogin env msgDeviceID payload st =
     (if \<not> w_Users env \<or> \<not> w_Signer env then (Inl (ErrorText ''auth not available''), st)
      else case un_login env payload of
        None \<Rightarrow> (Inl (TransferError BadJSON), st)
      | Some req \<Rightarrow>
          let deviceID = (if lr_DeviceID req \<noteq> [] then lr_DeviceID req
                          else if msgDeviceID \<noteq> [] then msgDeviceID else ''admin-'' @ new_uuid env)
          in case ValidateCredentials (db_user env) (bc env) (lr_Username req) (lr_Password req) (user_rows st) of
               Inl e \<Rightarrow> (Inl (DatabaseError e), st)
             | Inr user \<Rightarrow>
                 (case Sign env (u_ID user) (u_Username user) (u_Role user) deviceID of
                    None \<Rightarrow> (Inl (ErrorText ''sign''), st)
                  | Some token \<Rightarrow>
                      let toks = (deviceTokens st)(deviceID \<mapsto> token);
                          toks' = (if msgDeviceID \<noteq> [] \<and> msgDeviceID \<noteq> deviceID then toks(msgDeviceID \<mapsto> token) else toks)
                      in (Inr (TokenReply token deviceID),
                          login_device env deviceID req (st\<lparr>deviceTokens := toks'\<rparr>))))"

subsection \<open>Device actions (protocol_device.go)\<close>

definition handleDeviceRegister :: "ctl_env \<Rightarrow> string \<Rightarrow> bytes \<Rightarrow> controller \<Rightarrow> handler_error option \<times> controller" where
  "handleDeviceRegister env deviceID payload st =
     (if \<not> isAuthorized st deviceID then (Some (TransferError Unauthorized), st)
      else if \<not> w_Devices env then (None, st)
      else
        let empty = \<lparr>dr_UUID = [], dr_Name = [], dr_OSName = [], dr_OSVersion = [], dr_Hostname = [], dr_Arch = []\<rparr>
        in case (if payload \<noteq> [] then un_device env payload else Some empty) of
             None \<Rightarrow> (Some (TransferError BadJSON), st)
           | Some req \<Rightarrow>
               let uuid = (if dr_UUID req = [] then deviceID else dr_UUID req)
               in if uuid = [] then (Some (ErrorText ''missing uuid''), st)
                  else
                    let d = \<lparr>dv_ID = 0, dv_UUID = uuid, dv_Name = dr_Name req, dv_UserID = 0, dv_OSName = dr_OSName req,
                          dv_OSVersion = dr_OSVersion req, dv_Hostname = dr_Hostname req, dv_Arch = dr_Arch req,
                          dv_CreatedAt = 0, dv_UpdatedAt = 0\<rparr>
                    in (case UpsertDevice (db_dev env) (env_now env) (next_id env) d (device_rows st) of
                          (e, rows) \<Rightarrow> (map_option DatabaseError e, st\<lparr>device_rows := rows\<rparr>)))"

definition handleFileTreeSync :: "ctl_env \<Rightarrow> string \<Rightarrow> bytes \<Rightarrow> controller \<Rightarrow> handler_error option \<times> controller" where
  "handleFileTreeSync env deviceID payload st =
     (if \<not> isAuthorized st deviceID then (Some (TransferError Unauthorized), st)
      else if \<not> w_Tree env then (None, st)
      else if deviceID = [] then (Some (TransferError MissingDevice), st)
      else case un_changes env payload of
        None \<Rightarrow> (Some (TransferError BadJSON), st)
      | Some changes \<Rightarrow>
          (case ApplyChanges (db_tree env) (env_tree env) deviceID changes (tree st) of
             (e, t') \<Rightarrow> (map_option DatabaseError e, st\<lparr>tree := t'\<rparr>)))"

definition handleAgentLog :: "ctl_env \<Rightarrow> string \<Rightarrow> bytes \<Rightarrow> controller \<Rightarrow> handler_error option \<times> controller" where
  "handleAgentLog env deviceID payload st =
     (if \<not> isAuthorized st deviceID then (Some (TransferError Unauthorized), st)
      else if \<not> w_Logs env then (None, st)
      else if deviceID = [] then (Some (TransferError MissingDevice), st)
      else case un_lines env payload of
        None \<Rightarrow> (Some (TransferError BadJSON), st)
      | Some ls \<Rightarrow>
          if ls = [] then (Some (ErrorText ''empty lines''), st)
          else case CreateLog (db_log env) (env_now env) (next_id env) deviceID ls (log_rows st) of
                 (e, rows) \<Rightarrow> (map_option DatabaseError e, st\<lparr>log_rows := rows\<rparr>))"

subsection \<open>Administration (protocol_device.go, protocol_admin.go)\<close>

definition handleAdminListDevices :: "ctl_env \<Rightarrow> controller \<Rightarrow> (handler_error, response) res" where
  "handleAdminListDevices env st =
     (if \<not> w_Devices env then Inl (ErrorText ''device service not available'')
      else case ListAll (db_dev env) (device_rows st) of
             Inl e \<Rightarrow> Inl (DatabaseError e)
           | Inr ds \<Rightarrow>
               Inr (DeviceList (map (\<lambda>d. (dv_UUID d, dv_Name d, w_Hub env \<and> IsOnline (dv_UUID d) st)) ds)))"

definition handleAdminListOnline :: "ctl_env \<Rightarrow> string \<Rightarrow> controller \<Rightarrow> response" where
  "handleAdminListOnline env excludeDeviceID st =
     (if \<not> w_Hub env \<or> \<not> w_Devices env then OnlineList []
      else case ListAll (db_dev env) (device_rows st) of
             Inl e \<Rightarrow> OnlineList []
           | Inr ds \<Rightarrow>
               OnlineList (filter (\<lambda>i. i \<noteq> excludeDeviceID \<and> IsOnline i st) (map dv_UUID ds)))"

definition nodeType :: "Item \<Rightarrow> string" where
  "nodeType n = (if it_FolderID n \<noteq> None then ''dir'' else ''file'')"

text \<open>The file of an item is loaded with it: the live file row its \<open>FileID\<close> refers to.\<close>

definition item_file :: "tree_db \<Rightarrow> Item \<Rightarrow> FileNode option" where
  "item_file t n =
     (case it_FileID n of None \<Rightarrow> None
      | Some i \<Rightarrow> find (\<lambda>f. fn_ID f = i \<and> fn_DeletedAt f = None) (t_files t))"

definition extFromItem :: "tree_db \<Rightarrow> Item \<Rightarrow> string" where
  "extFromItem t n =
     (case item_file t n of
        None \<Rightarrow> it_Name n
      | Some f \<Rightarrow> if fn_Extension f \<noteq> [] then fn_Extension f else it_Name n)"

definition contentTypeIDs :: "tree_db \<Rightarrow> Item \<Rightarrow> nat list" where
  "contentTypeIDs t n =
     map ct_ID (filter (\<lambda>c. ct_DeletedAt c = None \<and> (\<exists>l\<in>set (t_links t). ln_ItemID l = it_ID n \<and> ln_ContentTypeID l = ct_ID c))
       (t_types t))"

definition deletedAtUnix :: "Item \<Rightarrow> int option" where
  "deletedAtUnix n = map_option (\<lambda>x. x div second) (it_DeletedAt n)"

definition to_node :: "tree_db \<Rightarrow> Item \<Rightarrow> tree_node" where
  "to_node t n =
     \<lparr>tn_ID = it_ID n, tn_Name = it_Name n, tn_Type = nodeType n, tn_ParentID = it_ParentID n, tn_Size = it_TotalSize n,
      tn_Extension = extFromItem t n, tn_ContentTypeIDs = contentTypeIDs t n,
      tn_UpdatedAtUnix = it_UpdatedAt n div second, tn_DeletedAtUnix = deletedAtUnix n\<rparr>"

definition handleAdminListTree :: "ctl_env \<Rightarrow> bytes \<Rightarrow> controller \<Rightarrow> (handler_error, response) res" where
  "handleAdminListTree env payload st =
     (if \<not> w_Tree env then Inl (ErrorText ''file tree service not available'')
      else case un_tree env payload of
        None \<Rightarrow> Inl (TransferError BadJSON)
      | Some req \<Rightarrow>
          if lt_DeviceID req = [] then Inl (ErrorText ''missing device_id'')
          else
            let page = (if lt_Page req < 1 then 1 else lt_Page req);
                ps0 = (if lt_PageSize req \<le> 0 then 15 else lt_PageSize req);
                pageSize = (if ps0 > 30 then 30 else ps0);
                query = \<lparr>f_DeviceUUID = lt_DeviceID req, f_ParentID = lt_ParentID req, f_Search = [], f_Extensions = [],
                         f_ContentTypeIDs = [], f_Page = page, f_PageSize = pageSize, f_IncludeDeleted = False,
                         f_DeletedSince = []\<rparr>
            in case GetNodes (db_tree env) (env_time env) (env_like env) (env_now env) query (tree st) of
                 Inl e \<Rightarrow> Inl (DatabaseError e)
               | Inr (nodes, _) \<Rightarrow>
                   let truncated = int (length nodes) > pageSize;
                       nodes' = (if truncated then take (nat pageSize) nodes else nodes)
                   in Inr (TreeReply (map (to_node (tree st)) nodes') truncated))"

definition handleAdminSendCommand ::
    "ctl_env \<Rightarrow> bytes \<Rightarrow> controller \<Rightarrow> (handler_error, response) res \<times> outgoing \<times> controller" where
  "handleAdminSendCommand env payload st =
     (if \<not> w_CmdRepo env then (Inl (ErrorText ''command repo not available''), [], st)
      else case un_command env payload of
        None \<Rightarrow> (Inl (TransferError BadJSON), [], st)
      | Some req \<Rightarrow>
          if ac_DeviceID req = [] \<or> ac_Command req = []
          then (Inl (ErrorText ''missing device_id or command''), [], st)
          else
            let i = next_id env;
                cmd = \<lparr>cm_ID = 0, cm_DeviceID = ac_DeviceID req, cm_Command = ac_Command req, cm_Kind = ac_Kind req,
                       cm_Payload = ac_Payload req, cm_Status = ''pending'', cm_LastError = [], cm_SentAt = None\<rparr>
            in case CreateCommand (db_cmd env) i cmd (cmd_rows st) of
                 (Some e, rows) \<Rightarrow> (Inl (DatabaseError e), [], st\<lparr>cmd_rows := rows\<rparr>)
               | (None, rows) \<Rightarrow>
                   let st1 = st\<lparr>cmd_rows := rows\<rparr>;
                       unsent = (Inr (CommandReply i ''pending'' False), [], st1)
                   in if \<not> (w_Hub env \<and> IsOnline (ac_DeviceID req) st1) then unsent
                      else case json_command env (ac_DeviceID req) (ac_Command req) (ac_Kind req) (ac_Payload req) of
                             None \<Rightarrow> unsent
                           | Some b \<Rightarrow>
                               (case Send (delivers env) (ac_DeviceID req) b st1 of
                                  Some f \<Rightarrow>
                                    (Inr (CommandReply i ''sent'' True), [f],
                                     st1\<lparr>cmd_rows := snd (MarkSent (db_cmd env) (env_now env) i rows)\<rparr>)
                                | None \<Rightarrow>
                                    (Inr (CommandReply i ''pending'' False), [],
                                     st1\<lparr>cmd_rows := snd (UpdateStatus (db_cmd env) i ''pending''
                                          (error_text env (ErrorText ''send to device failed'')) rows)\<rparr>)))"

subsection \<open>Routing (protocol_router.go)\<close>

definition open_actions :: "string list" where
  "open_actions = [''login'', ''admin_send_command'', ''admin_list_devices'', ''admin_list_online'', ''admin_list_tree'']"

definition reply_status :: "ctl_env \<Rightarrow> TCPClient \<Rightarrow> string \<Rightarrow> handler_error option \<Rightarrow> outgoing" where
  "reply_status env client okText e =
     (case e of None \<Rightarrow> ack env client 200 (to_bytes okText) | Some e \<Rightarrow> ack env client 500 (to_bytes (error_text env e)))"

definition reply_data :: "ctl_env \<Rightarrow> TCPClient \<Rightarrow> 16 word \<Rightarrow> (handler_error, response option) res \<Rightarrow> outgoing" where
  "reply_data env client errCode r =
     (case r of Inl e \<Rightarrow> ack env client errCode (to_bytes (error_text env e)) | Inr d \<Rightarrow> sendAckJSON env client 200 d)"

definition run_action :: "ctl_env \<Rightarrow> TCPClient \<Rightarrow> string \<Rightarrow> string \<Rightarrow> bytes \<Rightarrow> controller \<Rightarrow> outgoing \<times> controller" where
  "run_action env client dev action payload st =
     (if action = ''ping'' then (ack env client 200 (to_bytes ''pong''), st)
      else if action = ''login'' then
        (case handleLogin env dev payload st of (r, st') \<Rightarrow> (reply_data env client 401 (map_sum id Some r), st'))
      else if action = ''device_register'' then
        (case handleDeviceRegister env dev payload st of (e, st') \<Rightarrow> (reply_status env client ''device registered'' e, st'))
      else if action = ''filetree_sync'' then
        (case handleFileTreeSync env dev payload st of (e, st') \<Rightarrow> (reply_status env client ''filetree synced'' e, st'))
      else if action = ''agent_log'' then
        (case handleAgentLog env dev payload st of (e, st') \<Rightarrow> (reply_status env client ''log stored'' e, st'))
      else if action = ''backup_init_upload'' then
        (case handleBackupInitUpload (un_upload env) (env_io env) dev payload st of
           (r, st') \<Rightarrow> (reply_data env client 500 (map_sum TransferError (map_option SessionReply) r), st'))
      else if action = ''backup_init_download'' then
        (case handleBackupInitDownload (un_download env) (env_io env) dev payload st of
           (r, st') \<Rightarrow> (reply_data env client 500 (map_sum TransferError (map_option SessionReply) r), st'))
      else if action = ''backup_download_start'' then
        (case handleBackupDownloadStart (un_start env) (env_down env) (Some client) dev payload st of
           (fs, e) \<Rightarrow>
             (map (Pair (fd client)) fs @
              (case e of None \<Rightarrow> [] | Some e \<Rightarrow> ack env client 500 (to_bytes (error_text env (TransferError e)))), st))
      else if action = ''admin_send_command'' then
        (case handleAdminSendCommand env payload st of
           (r, out, st') \<Rightarrow> (out @ reply_data env client 500 (map_sum id Some r), st'))
      else if action = ''admin_list_devices'' then
        (reply_data env client 500 (map_sum id Some (handleAdminListDevices env st)), st)
      else if action = ''admin_list_online'' then
        (sendAckJSON env client 200 (Some (handleAdminListOnline env dev st)), st)
      else if action = ''admin_list_tree'' then
        (reply_data env client 500 (map_sum id Some (handleAdminListTree env payload st)), st)
      else (ack env client 400 (to_bytes ''unknown action''), st))"

definition handleSubCommand :: "ctl_env \<Rightarrow> TCPClient \<Rightarrow> ProtocolMessage \<Rightarrow> controller \<Rightarrow> outgoing \<times> controller" where
  "handleSubCommand env client msg st =
     (if CommandJSON msg = [] then (ack env client 400 (to_bytes ''empty command payload''), st)
      else case un_envelope env (CommandJSON msg) of
        None \<Rightarrow> (ack env client 400 (to_bytes ''invalid command json''), st)
      | Some (action, payload) \<Rightarrow>
          let dev = to_string (DeviceID msg)
          in if action \<notin> set open_actions \<and> \<not> isAuthorized st dev
             then (ack env client 401 (to_bytes ''unauthorized''), st)
             else run_action env client dev action payload st)"

definition router_looksLikeJWT :: "string \<Rightarrow> bool" where
  "router_looksLikeJWT tok \<longleftrightarrow> tok \<noteq> [] \<and> 2 \<le> CountChar tok (CHR ''.'')"

definition token_accepted :: "ctl_env \<Rightarrow> string \<Rightarrow> string \<Rightarrow> bool" where
  "token_accepted env deviceID token \<longleftrightarrow>
     (if w_Signer env \<and> router_looksLikeJWT token then
        (case Parse env token of None \<Rightarrow> False | Some d \<Rightarrow> \<not> (d \<noteq> [] \<and> d \<noteq> deviceID))
      else True)"

text \<open>
  The last component lists the devices for which a goroutine that runs \<open>retryPendingCommands\<close> is started.
\<close>

definition HandleMessage ::
    "ctl_env \<Rightarrow> TCPClient \<Rightarrow> ProtocolMessage \<Rightarrow> controller \<Rightarrow> outgoing \<times> controller \<times> string list" where
  "HandleMessage env client msg st =
     (if Type msg = MSG_LOGIN then
        (let deviceID = to_string (DeviceID msg); token = to_string (Token msg)
         in if deviceID = [] then ([], st, [])
            else
              let st1 = (if token \<noteq> [] \<and> token_accepted env deviceID token
                         then st\<lparr>deviceTokens := (deviceTokens st)(deviceID \<mapsto> token)\<rparr> else st)
              in ([], Register deviceID client st1, [deviceID]))
      else if Type msg = MSG_COMMAND then
        (case handleSubCommand env client msg st of (out, st') \<Rightarrow> (out, st', []))
      else if Type msg = MSG_FILE_CHUNK then ([], handleFileChunk (env_chunk env) msg st, [])
      else if Type msg = MSG_FILE_DONE then ([], handleFileDone (db_ver env) (env_now env) (env_io env) msg st, [])
      else ([], st, []))"


subsection \<open>Authorisation\<close>

lemma isAuthorized_update [simp]:
  "isAuthorized (byID_update f st) d = isAuthorized st d" "isAuthorized (cmd_rows_update g st) d = isAuthorized st d"
  by (simp_all add: isAuthorized_def)

lemma SendAck_reply:
  "ack env c code msg = [] \<or> ack env c code msg = [(fd c, FAck code msg)]"
  by (auto simp: ack_def split: sum.splits)

lemma ack_delivered:
  assumes "delivers env (fd c)" "fd c \<noteq> INVALID_SOCKET" "CHR 0x00 \<notin> set s" "length s \<le> 4000"
  shows "ack env c code (to_bytes s) = [(fd c, FAck code (to_bytes s))]"
  using assms nul_free_ascii [of s]
  by (simp add: ack_def SendAck_def protocol_send_ack_def send_simps Let_def)

lemma handleSubCommand_unauthorised:
  assumes "\<not> isAuthorized st (to_string (DeviceID msg))"
    and "\<And>a p. un_envelope env (CommandJSON msg) = Some (a, p) \<Longrightarrow> a \<notin> set open_actions"
  obtains code reply where "code = 400 \<or> code = 401" "handleSubCommand env c msg st = (ack env c code reply, st)"
proof (cases "CommandJSON msg = [] \<or> un_envelope env (CommandJSON msg) = None")
  case True
  then have "\<exists>reply. handleSubCommand env c msg st = (ack env c 400 reply, st)" by (auto simp: handleSubCommand_def)
  then show ?thesis using that [of 400] by blast
next
  case False
  then obtain a p where "un_envelope env (CommandJSON msg) = Some (a, p)" by auto
  then have "\<exists>reply. handleSubCommand env c msg st = (ack env c 401 reply, st)"
    using False assms by (auto simp: handleSubCommand_def)
  then show ?thesis using that [of 401] by blast
qed

text \<open>
  C20: a device without a token can do nothing with the protected part of the protocol: whatever frame other than a login
  or one of the open actions it sends, be it a command, a piece of a file or the end of one, the controller's state and all
  its tables stay as they are, no pending command is released, and the only possible answer is one acknowledgement
  with code 400 or 401 on the same connection.
\<close>
theorem unauthorised_frames_have_no_effect:
  assumes unauth: "\<not> isAuthorized st (to_string (DeviceID msg))" and type: "Type msg \<noteq> MSG_LOGIN"
    and protected: "\<And>a p. un_envelope env (CommandJSON msg) = Some (a, p) \<Longrightarrow> a \<notin> set open_actions"
    and run: "HandleMessage env c msg st = (out, st', started)"
  shows "st' = st \<and> started = [] \<and>
    (out = [] \<or> (\<exists>code reply. (code = 400 \<or> code = 401) \<and> out = [(fd c, FAck code reply)]))"
proof -
  obtain code reply where sub: "code = 400 \<or> code = 401" "handleSubCommand env c msg st = (ack env c code reply, st)"
    by (rule handleSubCommand_unauthorised [OF unauth protected])
  have "handleFileChunk (env_chunk env) msg st = st" "handleFileDone (db_ver env) (env_now env) (env_io env) msg st = st"
    using unauth by (simp_all add: handleFileChunk_def handleFileDone_def)
  then show ?thesis using run type sub SendAck_reply [of env c code reply]
    by (auto simp: HandleMessage_def split: if_splits)
qed


text \<open>An instance with every service wired, databases in memory and a network that delivers everything.\<close>

definition sample_ctl_env :: ctl_env where
  "sample_ctl_env = \<lparr>w_Hub = True, w_CmdRepo = True, w_Devices = True, w_Tree = True, w_Logs = True, w_Users = True,
     w_Signer = True, db_cmd = memory_gorm, db_dev = memory_gorm, db_user = memory_gorm, db_log = memory_gorm,
     db_tree = sample_tree_gorm, db_ver = memory_gorm, Sign = (\<lambda>i u r d. Some (''h.'' @ d @ ''.s'')),
     Parse = (\<lambda>t. None), bc = \<lparr>bc_hash = (\<lambda>x. x), bc_match = (=)\<rparr>, new_uuid = ''u'', env_now = 5, next_id = 9,
     env_io = sample_io, env_chunk = \<lparr>c_open_ok = True, c_seek_ok = True, c_write_limit = None, c_now = 0\<rparr>,
     env_down = \<lparr>d_sent = (\<lambda>_. True), d_open_ok = True, d_seek_ok = True, d_reads = full_reads\<rparr>,
     env_tree = sample_env,
     env_time = \<lparr>parse_RFC3339 = (\<lambda>_. None), parse_layout = (\<lambda>_. None), ParseDuration = (\<lambda>_. None), scan_days = (\<lambda>_. None)\<rparr>,
     env_like = (=), error_text = (\<lambda>_. ''error''), un_envelope = (\<lambda>b. Some (to_string b, [])),
     un_login = (\<lambda>_. None), un_device = (\<lambda>_. None), un_changes = (\<lambda>_. None), un_lines = (\<lambda>_. None),
     un_command = (\<lambda>_. None),
     un_tree = (\<lambda>_. Some \<lparr>lt_DeviceID = ''d'', lt_ParentID = None, lt_Page = 0, lt_PageSize = 0\<rparr>),
     un_upload = (\<lambda>_. None), un_download = (\<lambda>_. None), un_start = (\<lambda>_. None), json = (\<lambda>_. Some []),
     json_error = ''json'', json_command = (\<lambda>d c k p. Some (to_bytes c)), delivers = (\<lambda>_. True)\<rparr>"

definition sample_ctl :: controller where
  "sample_ctl = \<lparr>activeUpload = (\<lambda>_. None), deviceTokens = (\<lambda>_. None), Backup_svc = Some sample_service,
     storage = (\<lambda>_. None), version_rows = [], byID = (\<lambda>_. None), reg = [], cmd_rows = [], device_rows = [],
     user_rows = [], log_rows = [], tree = empty_tree\<rparr>"

lemma sample_ctl_env_simps [simp]:
  "delivers sample_ctl_env = (\<lambda>_. True)" "un_envelope sample_ctl_env b = Some (to_string b, [])"
  "db_cmd sample_ctl_env = memory_gorm" "json_command sample_ctl_env d c k p = Some (to_bytes c)"
  "env_now sample_ctl_env = 5"
  by (simp_all add: sample_ctl_env_def)

definition sample_message :: ProtocolMessage where
  "sample_message = \<lparr>Type = MSG_COMMAND, Raw = [], DeviceID = to_bytes ''d'', Token = [], SessionID = [], CommandJSON = [], FileName = [],
     FileSize = 0, ChunkOffset = 0, ChunkLen = 0, ChunkData = None, StatusCode = 0, StatusMsg = []\<rparr>"

theorem unauthorised_frames_have_no_effect_witness:
  "let m = sample_message\<lparr>CommandJSON := to_bytes ''filetree_sync''\<rparr>
   in \<exists>out. HandleMessage sample_ctl_env \<lparr>fd = 3\<rparr> m sample_ctl = (out, sample_ctl, []) \<and>
     (out = [] \<or> (\<exists>code reply. (code = 400 \<or> code = 401) \<and> out = [(3, FAck code reply)]))"
proof -
  let ?m = "sample_message\<lparr>CommandJSON := to_bytes ''filetree_sync''\<rparr>"
  obtain out st' started where run: "HandleMessage sample_ctl_env \<lparr>fd = 3\<rparr> ?m sample_ctl = (out, st', started)"
    using prod_cases3 by blast
  have "st' = sample_ctl \<and> started = [] \<and>
    (out = [] \<or> (\<exists>code reply. (code = 400 \<or> code = 401) \<and> out = [(fd \<lparr>fd = 3\<rparr>, FAck code reply)]))"
  proof (rule unauthorised_frames_have_no_effect [OF _ _ _ run])
    show "\<not> isAuthorized sample_ctl (to_string (DeviceID ?m))" by (simp add: isAuthorized_def sample_ctl_def)
    show "Type ?m \<noteq> MSG_LOGIN" by (simp add: msg_types sample_message_def)
    show "a \<notin> set open_actions" if "un_envelope sample_ctl_env (CommandJSON ?m) = Some (a, p)" for a p
    proof -
      have a: "a = ''filetree_sync''" using that by (simp add: sample_ctl_env_def)
      show ?thesis unfolding a by (simp add: open_actions_def)
    qed
  qed
  with run show ?thesis by (simp add: Let_def)
qed

text \<open>
  C21: what a login frame authorises.  A frame for a named device leaves every other device as it was; the device itself
  is authorised afterwards exactly if it was before, or the frame carries a token which, when it has the two
  dots of a signed token and a signer is configured, parses and names no other device.  A token with fewer than two dots
  is not looked at: any such string authorises any device.
\<close>
theorem login_frame_authorisation:
  assumes run: "HandleMessage env c msg st = (out, st', started)" and type: "Type msg = MSG_LOGIN"
    and dev: "to_string (DeviceID msg) \<noteq> []"
  shows "started = [to_string (DeviceID msg)] \<and> byID st' (to_string (DeviceID msg)) = Some c \<and>
    (\<forall>d. isAuthorized st' d \<longleftrightarrow> isAuthorized st d \<or> d = to_string (DeviceID msg) \<and> Token msg \<noteq> [] \<and>
       (w_Signer env \<and> 2 \<le> CountChar (to_string (Token msg)) (CHR ''.'') \<longrightarrow>
          (\<exists>owner. Parse env (to_string (Token msg)) = Some owner \<and> (owner = [] \<or> owner = d))))"
proof -
  have tok: "to_string b = [] \<longleftrightarrow> b = []" for b by (simp add: to_string_def)
  have "2 \<le> CountChar (to_string b) (CHR ''.'') \<Longrightarrow> b \<noteq> []" for b by (auto simp: CountChar_def to_string_def)
  then show ?thesis using run type dev
    by (auto simp: HandleMessage_def Let_def Register_def isAuthorized_def token_accepted_def router_looksLikeJWT_def tok
        split: if_splits option.splits)
qed


theorem login_frame_authorisation_witness:
  "\<exists>out st' started. HandleMessage sample_ctl_env \<lparr>fd = 3\<rparr> (sample_message\<lparr>Type := MSG_LOGIN, Token := to_bytes ''x''\<rparr>) sample_ctl
       = (out, st', started) \<and> started = [''d''] \<and> isAuthorized st' ''d'' \<and> \<not> isAuthorized st' ''e''"
proof -
  let ?m = "sample_message\<lparr>Type := MSG_LOGIN, Token := to_bytes ''x''\<rparr>"
  obtain out st' started where run: "HandleMessage sample_ctl_env \<lparr>fd = 3\<rparr> ?m sample_ctl = (out, st', started)"
    using prod_cases3 by blast
  have d: "to_string (DeviceID ?m) = ''d''" by (simp add: sample_message_def)
  have no: "\<not> isAuthorized sample_ctl x" for x by (simp add: isAuthorized_def sample_ctl_def)
  have "started = [''d''] \<and> (\<forall>x. isAuthorized st' x \<longleftrightarrow> x = ''d'')"
    using login_frame_authorisation [OF run] no unfolding d by (simp add: CountChar_def)
  with run show ?thesis by simp
qed

text \<open>
  The token cache is keyed by device, not by connection.  When a device holds two connections and the older one
  ends, the hub keeps the newer one, but the token goes: every protected command that arrives on the connection still
  open is refused with code 401 and has no effect, and the device counts as unauthorised until it logs in again.
\<close>
theorem disconnect_deauthorises_remaining_connection:
  assumes dev: "to_string (DeviceID msg) \<noteq> []" and old: "fd old \<noteq> fd c"
    and hub: "byID st (to_string (DeviceID msg)) = Some c"
    and gone: "st' = HandleDisconnect old (to_string (DeviceID msg)) st"
    and type: "Type msg = MSG_COMMAND" "CommandJSON msg \<noteq> []" "un_envelope env (CommandJSON msg) = Some (action, payload)"
      "action \<notin> set open_actions"
  shows "byID st' (to_string (DeviceID msg)) = Some c \<and> \<not> isAuthorized st' (to_string (DeviceID msg)) \<and>
    HandleMessage env c msg st' = (ack env c 401 (to_bytes ''unauthorized''), st', [])"
proof -
  have keep: "Unregister (to_string (DeviceID msg)) old st = st" using hub old by (simp add: Unregister_def Equal_def)
  have un: "\<not> isAuthorized st' (to_string (DeviceID msg))"
    using gone dev by (simp add: HandleDisconnect_def keep isAuthorized_def)
  have "handleSubCommand env c msg st' = (ack env c 401 (to_bytes ''unauthorized''), st')"
    using type(2-4) un by (simp add: handleSubCommand_def)
  then show ?thesis using un hub dev type(1) gone by (simp add: HandleMessage_def HandleDisconnect_def keep msg_types)
qed

theorem disconnect_deauthorises_remaining_connection_witness:
  "let c = \<lparr>fd = 4\<rparr>; msg = sample_message\<lparr>CommandJSON := to_bytes ''ping''\<rparr>;
       st = sample_ctl\<lparr>byID := [''d'' \<mapsto> c], deviceTokens := [''d'' \<mapsto> ''t'']\<rparr>; st' = HandleDisconnect \<lparr>fd = 3\<rparr> ''d'' st
   in isAuthorized st ''d'' \<and> byID st' ''d'' = Some c \<and>
     HandleMessage sample_ctl_env c msg st' = ([(4, FAck 401 (to_bytes ''unauthorized''))], st', [])"
proof -
  let ?c = "\<lparr>fd = 4\<rparr>" and ?msg = "sample_message\<lparr>CommandJSON := to_bytes ''ping''\<rparr>"
  let ?st = "sample_ctl\<lparr>byID := [''d'' \<mapsto> ?c], deviceTokens := [''d'' \<mapsto> ''t'']\<rparr>"
  let ?st' = "HandleDisconnect \<lparr>fd = 3\<rparr> ''d'' ?st"
  have d: "to_string (DeviceID ?msg) = ''d''" by (simp add: sample_message_def)
  have "byID ?st' ''d'' = Some ?c \<and> \<not> isAuthorized ?st' ''d'' \<and>
      HandleMessage sample_ctl_env ?c ?msg ?st' = (ack sample_ctl_env ?c 401 (to_bytes ''unauthorized''), ?st', [])"
    using disconnect_deauthorises_remaining_connection
      [where old = "\<lparr>fd = 3\<rparr>" and c = ?c and st = ?st and msg = ?msg and env = sample_ctl_env and action = "''ping''" and payload = "[]"]
    unfolding d by (simp add: sample_message_def sample_ctl_env_def open_actions_def)
  moreover have "ack sample_ctl_env ?c 401 (to_bytes ''unauthorized'') = [(4, FAck 401 (to_bytes ''unauthorized''))]"
    using ack_delivered [of sample_ctl_env ?c "''unauthorized''" 401] by (simp add: INVALID_SOCKET_def)
  moreover have "isAuthorized ?st ''d''" by (simp add: isAuthorized_def)
  ultimately show ?thesis by (simp add: Let_def)
qed


subsection \<open>Commands that wait for a device\<close>

definition encoded :: "ctl_env \<Rightarrow> string \<Rightarrow> AgentCommand \<Rightarrow> bytes option" where
  "encoded env deviceID c = json_command env deviceID (cm_Command c) (cm_Kind c) (cm_Payload c)"

definition passes :: "ctl_env \<Rightarrow> string \<Rightarrow> controller \<Rightarrow> AgentCommand \<Rightarrow> bool" where
  "passes env deviceID st c \<longleftrightarrow>
     (case encoded env deviceID c of None \<Rightarrow> True | Some p \<Rightarrow> Send (delivers env) deviceID p st \<noteq> None)"

definition released :: "ctl_env \<Rightarrow> string \<Rightarrow> controller \<Rightarrow> AgentCommand list \<Rightarrow> outgoing" where
  "released env deviceID st cmds =
     List.map_filter (\<lambda>c. case encoded env deviceID c of None \<Rightarrow> None | Some p \<Rightarrow> Send (delivers env) deviceID p st)
       (takeWhile (passes env deviceID st) cmds)"

definition row_after :: "ctl_env \<Rightarrow> string \<Rightarrow> controller \<Rightarrow> AgentCommand list \<Rightarrow> AgentCommand \<Rightarrow> AgentCommand" where
  "row_after env deviceID st cmds r =
     (if cm_ID r \<in> cm_ID ` set (takeWhile (passes env deviceID st) cmds) then
        (case encoded env deviceID r of
           None \<Rightarrow> r\<lparr>cm_Status := ''failed'', cm_LastError := json_error env\<rparr>
         | Some _ \<Rightarrow> r\<lparr>cm_Status := ''sent'', cm_SentAt := Some (env_now env)\<rparr>)
      else if cm_ID r \<in> cm_ID ` set (take 1 (dropWhile (passes env deviceID st) cmds)) then
        r\<lparr>cm_Status := ''failed'', cm_LastError := error_text env (ErrorText ''send to device failed'')\<rparr>
      else r)"

lemma Send_cmd_rows [simp]: "Send ok d p (st\<lparr>cmd_rows := rows\<rparr>) = Send ok d p st"
  by (simp add: Send_def split: sum.split option.split)

lemma passes_cmd_rows [simp]: "passes env d (st\<lparr>cmd_rows := rows\<rparr>) = passes env d st"
  by (simp add: passes_def fun_eq_iff cong: option.case_cong)

lemma released_cmd_rows [simp]: "released env d (st\<lparr>cmd_rows := rows\<rparr>) = released env d st"
  by (simp add: released_def fun_eq_iff cong: option.case_cong)

lemma row_after_cmd_rows [simp]: "row_after env d (st\<lparr>cmd_rows := rows\<rparr>) = row_after env d st"
  by (simp add: row_after_def fun_eq_iff)

definition same_text :: "AgentCommand \<Rightarrow> AgentCommand \<Rightarrow> bool" where
  "same_text c r \<longleftrightarrow> cm_Command r = cm_Command c \<and> cm_Kind r = cm_Kind c \<and> cm_Payload r = cm_Payload c"

lemma same_text_encoded: "same_text c r \<Longrightarrow> encoded env d r = encoded env d c"
  by (simp add: same_text_def encoded_def)

lemma update_statements:
  assumes "gorm_reliable db"
  shows "snd (UpdateStatus db i status err t) =
      map (\<lambda>c. if cm_ID c = i then c\<lparr>cm_Status := status, cm_LastError := err\<rparr> else c) t"
    "snd (MarkSent db now i t) = map (\<lambda>c. if cm_ID c = i then c\<lparr>cm_Status := ''sent'', cm_SentAt := Some now\<rparr> else c) t"
  by (simp_all add: UpdateStatus_def MarkSent_def gorm_exec_reliable [OF assms])

lemma retry_commands_effect:
  assumes db: "gorm_reliable (db_cmd env)" and "distinct (map cm_ID cmds)"
    and "\<forall>c\<in>set cmds. \<forall>r\<in>set (cmd_rows st). cm_ID r = cm_ID c \<longrightarrow> same_text c r"
  shows "retry_commands env d cmds st = (released env d st cmds, st\<lparr>cmd_rows := map (row_after env d st cmds) (cmd_rows st)\<rparr>)"
  using assms(2,3)
proof (induction cmds arbitrary: st)
  case Nil
  have "row_after env d st [] = (\<lambda>r. r)" by (simp add: row_after_def fun_eq_iff)
  then show ?case by (simp add: released_def)
next
  case (Cons c cmds)
  have fresh: "cm_ID c \<notin> cm_ID ` set cmds" and dist: "distinct (map cm_ID cmds)" using Cons.prems(1) by auto
  let ?tw = "takeWhile (passes env d st) cmds" and ?dw = "dropWhile (passes env d st) cmds"
  have sub: "cm_ID c \<notin> cm_ID ` set ?tw" "cm_ID c \<notin> cm_ID ` set (take 1 ?dw)"
    using fresh set_takeWhileD [of _ "passes env d st" cmds] in_set_takeD [of _ 1 ?dw] set_dropWhileD [of _ "passes env d st" cmds]
    by blast+
  have same: "cm_ID r = cm_ID c \<Longrightarrow> encoded env d r = encoded env d c" if "r \<in> set (cmd_rows st)" for r
    using Cons.prems(2) that same_text_encoded [of c r env d] by auto
  have rest: "\<forall>x\<in>set cmds. \<forall>r\<in>set (map (\<lambda>r. if cm_ID r = cm_ID c then g r else r) (cmd_rows st)). cm_ID r = cm_ID x \<longrightarrow> same_text x r"
    if "\<And>r. cm_ID (g r) = cm_ID r" for g
    using Cons.prems(2) fresh that by (auto simp: image_iff)
  show ?case
  proof (cases "passes env d st c")
    case False
    then obtain p where p: "encoded env d c = Some p" "Send (delivers env) d p st = None"
      by (auto simp: passes_def split: option.splits)
    have "map (row_after env d st (c # cmds)) (cmd_rows st) = snd (UpdateStatus (db_cmd env) (cm_ID c) ''failed''
        (error_text env (ErrorText ''send to device failed'')) (cmd_rows st))"
      using False by (simp add: update_statements [OF db] row_after_def)
    then show ?thesis using False p by (simp add: released_def encoded_def List.map_filter_simps)
  next
    case True
    have tw: "takeWhile (passes env d st) (c # cmds) = c # ?tw" "dropWhile (passes env d st) (c # cmds) = ?dw"
      using True by simp_all
    show ?thesis
    proof (cases "encoded env d c")
      case None
      let ?g = "\<lambda>r. r\<lparr>cm_Status := ''failed'', cm_LastError := json_error env\<rparr>"
      let ?rows = "map (\<lambda>r. if cm_ID r = cm_ID c then ?g r else r) (cmd_rows st)"
      have "row_after env d st cmds (if cm_ID r = cm_ID c then ?g r else r) = row_after env d st (c # cmds) r"
        if "r \<in> set (cmd_rows st)" for r
        using sub same [OF that] None True by (auto simp: row_after_def tw)
      then show ?thesis using Cons.IH [OF dist, of "st\<lparr>cmd_rows := ?rows\<rparr>"] rest [of ?g] None True
        by (simp add: update_statements [OF db] released_def encoded_def [symmetric] List.map_filter_simps)
    next
      case (Some p)
      then obtain f where f: "Send (delivers env) d p st = Some f" using True by (auto simp: passes_def)
      let ?g = "\<lambda>r. r\<lparr>cm_Status := ''sent'', cm_SentAt := Some (env_now env)\<rparr>"
      let ?rows = "map (\<lambda>r. if cm_ID r = cm_ID c then ?g r else r) (cmd_rows st)"
      have "row_after env d st cmds (if cm_ID r = cm_ID c then ?g r else r) = row_after env d st (c # cmds) r"
        if "r \<in> set (cmd_rows st)" for r
        using sub same [OF that] Some True by (auto simp: row_after_def tw)
      then show ?thesis using Cons.IH [OF dist, of "st\<lparr>cmd_rows := ?rows\<rparr>"] rest [of ?g] Some True f
        by (simp add: update_statements [OF db] released_def encoded_def [symmetric] List.map_filter_simps)
    qed
  qed
qed


definition waiting :: "string \<Rightarrow> commands \<Rightarrow> AgentCommand list" where
  "waiting deviceID t = sort_key cm_ID
     (filter (\<lambda>c. cm_DeviceID c = deviceID \<and> (cm_Status c = ''pending'' \<or> cm_Status c = ''failed'')) t)"

lemma ListByDevice_waiting:
  assumes db: "gorm_reliable db" and dist: "distinct (map cm_ID t)"
  shows "ListByDevice db d False t = Inr (waiting d t)"
proof -
  let ?P = "\<lambda>c. cm_DeviceID c = d \<and> (False \<or> cm_Status c = ''pending'' \<or> cm_Status c = ''failed'')"
  obtain rows where rows: "g_find db ?P t = Inr rows" "mset rows = mset (filter ?P t)" using db by (rule gorm_findE)
  have "inj_on cm_ID (set rows)"
    using dist mset_eq_setD [OF rows(2)] by (auto simp: distinct_map intro: inj_on_subset)
  then have "sort_key cm_ID rows = waiting d t"
    using rows(2) by (intro sort_key_inj_key_eq) (simp_all add: waiting_def)
  then show ?thesis using rows(1) by (simp add: ListByDevice_def g_ordered_def)
qed

lemma waiting_distinct: "distinct (map cm_ID t) \<Longrightarrow> distinct (map cm_ID (waiting d t))"
  by (auto simp: waiting_def distinct_map intro: inj_on_subset)

lemma set_waiting:
  "set (waiting d t) = {c \<in> set t. cm_DeviceID c = d \<and> (cm_Status c = ''pending'' \<or> cm_Status c = ''failed'')}"
  by (auto simp: waiting_def)

lemma retryPendingCommands_effect:
  assumes db: "gorm_reliable (db_cmd env)" and dist: "distinct (map cm_ID (cmd_rows st))" and w: "w_CmdRepo env"
  shows "retryPendingCommands env d st =
    (released env d st (waiting d (cmd_rows st)),
     st\<lparr>cmd_rows := map (row_after env d st (waiting d (cmd_rows st))) (cmd_rows st)\<rparr>)"
proof -
  have "\<forall>c\<in>set (waiting d (cmd_rows st)). \<forall>r\<in>set (cmd_rows st). cm_ID r = cm_ID c \<longrightarrow> same_text c r"
    using dist by (auto simp: set_waiting distinct_map same_text_def dest: inj_onD)
  then show ?thesis
    using retry_commands_effect [OF db waiting_distinct [OF dist], of d] w
    by (simp add: retryPendingCommands_def ListByDevice_waiting [OF db dist])
qed

lemma released_length:
  "(\<And>c. c \<in> set cmds \<Longrightarrow> passes env d st c \<and> encoded env d c \<noteq> None) \<Longrightarrow>
   map snd (released env d st cmds) = map (\<lambda>c. FCommand (the (encoded env d c))) cmds"
proof (induction cmds)
  case (Cons c cmds)
  obtain p where p: "encoded env d c = Some p" using Cons.prems [of c] by auto
  moreover obtain f where f: "Send (delivers env) d p st = Some f" using Cons.prems [of c] p by (auto simp: passes_def)
  moreover have "snd f = FCommand p" using f by (auto simp: Send_def split: sum.splits option.splits if_splits)
  moreover have "passes env d st c" using Cons.prems by simp
  ultimately show ?case using Cons.IH Cons.prems by (simp add: released_def List.map_filter_simps)
qed (simp add: released_def List.map_filter_simps)

text \<open>
  C22: the queue of a device is emptied in order when it logs in.  Whatever commands wait (pending or failed) are handed to the
  network oldest first; if each can be encoded and sent, each goes out exactly once, none waits afterwards, and no row of
  another device and no row already sent is touched.
\<close>
theorem login_empties_command_queue:
  assumes db: "gorm_reliable (db_cmd env)" and dist: "distinct (map cm_ID (cmd_rows st))" and w: "w_CmdRepo env"
    and ok: "\<And>c. c \<in> set (waiting d (cmd_rows st)) \<Longrightarrow> encoded env d c \<noteq> None \<and> passes env d st c"
    and run: "retryPendingCommands env d st = (out, st')"
  shows "map snd out = map (\<lambda>c. FCommand (the (encoded env d c))) (waiting d (cmd_rows st)) \<and>
    sorted (map cm_ID (waiting d (cmd_rows st))) \<and> ListByDevice (db_cmd env) d False (cmd_rows st') = Inr [] \<and>
    (\<forall>i < length (cmd_rows st). cmd_rows st ! i \<notin> set (waiting d (cmd_rows st)) \<longrightarrow> cmd_rows st' ! i = cmd_rows st ! i)"
proof -
  let ?w = "waiting d (cmd_rows st)"
  have out: "out = released env d st ?w" and st': "cmd_rows st' = map (row_after env d st ?w) (cmd_rows st)"
    using run by (auto simp: retryPendingCommands_effect [OF db dist w])
  have tw: "takeWhile (passes env d st) ?w = ?w" "dropWhile (passes env d st) ?w = []" using ok by (auto simp: takeWhile_eq_all_conv)
  have keep: "row_after env d st ?w r = r" if "r \<in> set (cmd_rows st)" "r \<notin> set ?w" for r
    using that dist by (auto simp: row_after_def tw set_waiting distinct_map dest: inj_onD)
  have gone: "row_after env d st ?w r = r\<lparr>cm_Status := ''sent'', cm_SentAt := Some (env_now env)\<rparr>" if "r \<in> set ?w" for r
    using that ok [OF that] by (auto simp: row_after_def tw)
  have none: "row_after env d st ?w r \<notin> {c. cm_DeviceID c = d \<and> (cm_Status c = ''pending'' \<or> cm_Status c = ''failed'')}"
    if "r \<in> set (cmd_rows st)" for r
    using keep [OF that] gone [of r] that by (cases "r \<in> set ?w") (auto simp: set_waiting)
  have "map cm_ID (cmd_rows st') = map cm_ID (cmd_rows st)" unfolding st' by (auto simp: row_after_def split: option.splits)
  then have "ListByDevice (db_cmd env) d False (cmd_rows st') = Inr (waiting d (cmd_rows st'))"
    by (intro ListByDevice_waiting [OF db]) (simp add: dist)
  moreover have "set (waiting d (cmd_rows st')) = {}" using none unfolding set_waiting st' by (simp add: disjoint_iff) blast
  moreover have "sorted (map cm_ID ?w)" by (simp add: waiting_def)
  ultimately show ?thesis using released_length [of ?w env d st] ok keep by (simp add: out st')
qed


definition sample_command :: "nat \<Rightarrow> AgentCommand" where
  "sample_command i = \<lparr>cm_ID = i, cm_DeviceID = ''d'', cm_Command = ''ping'', cm_Kind = ''once'', cm_Payload = [],
     cm_Status = ''pending'', cm_LastError = [], cm_SentAt = None\<rparr>"

theorem login_empties_command_queue_witness:
  "\<exists>out st'. retryPendingCommands sample_ctl_env ''d''
       (sample_ctl\<lparr>byID := [''d'' \<mapsto> \<lparr>fd = 3\<rparr>], cmd_rows := [sample_command 2, sample_command 1]\<rparr>) = (out, st') \<and>
     length out = 2 \<and> ListByDevice memory_gorm ''d'' False (cmd_rows st') = Inr []"
proof -
  let ?st = "sample_ctl\<lparr>byID := [''d'' \<mapsto> \<lparr>fd = 3\<rparr>], cmd_rows := [sample_command 2, sample_command 1]\<rparr>"
  obtain out st' where run: "retryPendingCommands sample_ctl_env ''d'' ?st = (out, st')" by fastforce
  have w: "waiting ''d'' (cmd_rows ?st) = [sample_command 1, sample_command 2]" by (simp add: waiting_def sample_command_def)
  have "Send (\<lambda>_. True) ''d'' (to_bytes ''ping'') ?st \<noteq> None"
    by (simp add: Send_def sample_ctl_def SendToDevice_def protocol_send_to_device_def registry_get_def send_simps Let_def)
  then have ok: "encoded sample_ctl_env ''d'' c \<noteq> None \<and> passes sample_ctl_env ''d'' ?st c" if "c \<in> set (waiting ''d'' (cmd_rows ?st))" for c
    using that unfolding w by (auto simp: encoded_def passes_def sample_command_def)
  have "map snd out = map (\<lambda>c. FCommand (the (encoded sample_ctl_env ''d'' c))) (waiting ''d'' (cmd_rows ?st)) \<and>
    sorted (map cm_ID (waiting ''d'' (cmd_rows ?st))) \<and> ListByDevice (db_cmd sample_ctl_env) ''d'' False (cmd_rows st') = Inr [] \<and>
    (\<forall>i < length (cmd_rows ?st). cmd_rows ?st ! i \<notin> set (waiting ''d'' (cmd_rows ?st)) \<longrightarrow> cmd_rows st' ! i = cmd_rows ?st ! i)"
    by (rule login_empties_command_queue [OF _ _ _ ok run])
      (simp_all add: sample_command_def, simp add: sample_ctl_env_def)
  then have "map snd out = map (\<lambda>c. FCommand (the (encoded sample_ctl_env ''d'' c))) [sample_command 1, sample_command 2]"
    "ListByDevice memory_gorm ''d'' False (cmd_rows st') = Inr []" unfolding w by simp_all
  then have "length (map snd out) = 2" "ListByDevice memory_gorm ''d'' False (cmd_rows st') = Inr []" by simp_all
  with run show ?thesis by simp
qed

subsection \<open>Listing and restoring\<close>

text \<open>
  C24: a page of the file tree has at most the page size asked for, never more than 30 entries, and 15 when
  no size is given; the rows are live rows of the requested device.  The reply's flag that the page was cut is never set: the
  page is cut by the query before the flag is computed.
\<close>
theorem tree_page_bounds:
  assumes sound: "tree_sound (db_tree env)" and req: "un_tree env payload = Some req"
    and run: "handleAdminListTree env payload st = Inr r"
  shows "\<exists>nodes. r = TreeReply nodes False \<and> length nodes \<le> 30 \<and>
    (0 < lt_PageSize req \<longrightarrow> int (length nodes) \<le> lt_PageSize req) \<and> (lt_PageSize req \<le> 0 \<longrightarrow> length nodes \<le> 15) \<and>
    (\<forall>n\<in>set nodes. \<exists>it\<in>set (t_items (tree st)). n = to_node (tree st) it \<and> it_DeviceUUID it = lt_DeviceID req \<and> it_DeletedAt it = None)"
proof -
  let ?n = "(if lt_PageSize req \<le> 0 then 15 else lt_PageSize req)"
  let ?size = "(if ?n > 30 then 30 else ?n)"
  obtain q nodes k where q: "f_DeviceUUID q = lt_DeviceID req" "\<not> f_IncludeDeleted q" "f_PageSize q = ?size"
    and get: "ListItems (db_tree env) (env_time env) (env_like env) (env_now env) q (tree st) = Inr (nodes, k)"
    and r: "r = (let cut = int (length nodes) > ?size in TreeReply (map (to_node (tree st)) (if cut then take (nat ?size) nodes else nodes)) cut)"
    using run req by (force simp: handleAdminListTree_def GetNodes_def Let_def split: if_splits sum.splits)
  note page = ListItems_page [OF sound [unfolded tree_sound_def, THEN conjunct2, THEN conjunct2, THEN conjunct1] q(2) get]
  have len: "int (length nodes) \<le> ?size" using page(2) q(3) by simp
  then have "r = TreeReply (map (to_node (tree st)) nodes) False" by (simp add: r Let_def)
  moreover have "\<exists>it\<in>set (t_items (tree st)). n = to_node (tree st) it \<and> it_DeviceUUID it = lt_DeviceID req \<and> it_DeletedAt it = None"
    if "n \<in> set (map (to_node (tree st)) nodes)" for n
    using that page(1) q(1) by (auto simp: item_matches_def)
  ultimately show ?thesis using len by (intro exI [of _ "map (to_node (tree st)) nodes"]) (auto split: if_splits)
qed


theorem tree_page_bounds_witness:
  "\<exists>nodes. handleAdminListTree sample_ctl_env [] sample_ctl = Inr (TreeReply nodes False) \<and> length nodes \<le> 15"
proof -
  have req: "un_tree sample_ctl_env [] = Some \<lparr>lt_DeviceID = ''d'', lt_ParentID = None, lt_Page = 0, lt_PageSize = 0\<rparr>"
    and sound: "tree_sound (db_tree sample_ctl_env)"
    by (simp_all add: sample_ctl_env_def sample_tree_reliable)
  obtain r where run: "handleAdminListTree sample_ctl_env [] sample_ctl = Inr r"
    by (simp add: handleAdminListTree_def req Let_def) (simp add: sample_ctl_env_def sample_tree_gorm_def GetNodes_def ListItems_def Let_def bind_res_def)
  show ?thesis using tree_page_bounds [OF sound req run] run by auto
qed

lemma frame_view_command:
  assumes "frame_view m = Some (FCommand b)"
  shows "Type m = MSG_COMMAND" "CommandJSON m = b"
  using assms by (auto simp: frame_view_def split: if_splits option.splits)

lemma frame_view_ack:
  assumes "frame_view m = Some (FAck code reply)"
  shows "Type m = MSG_ACK" "StatusCode m = code" "StatusMsg m = reply"
  using assms by (auto simp: frame_view_def split: if_splits option.splits)

text \<open>
  C23: restoring a file never succeeds.  \<open>DownloadFile\<close> opens its own connection and sends the start command without a
  login before it, so the backend knows no device for that connection: it refuses the command with code 401 before it
  looks at session and token, and the agent returns this as an error.  The destination keeps its content (or becomes an empty
  file).
\<close>
theorem restore_is_always_refused:
  assumes download: "DownloadFile io net marshal session dest fs = (e, [FCommand body], fs', s')" and body: "body \<noteq> []"
    and arrives: "frame_view m = Some (FCommand body)" and no_login: "DeviceID m = []"
    and envelope: "un_envelope env body = Some (''backup_download_start'', data)"
    and backend: "HandleMessage env c m st = (replies, st', started)"
    and open_: "delivers env (fd c)" "fd c \<noteq> INVALID_SOCKET"
    and answers: "list_all2 (\<lambda>f r. frame_view r = Some (snd f)) replies (a_incoming net)"
  shows "st' = st \<and> e = Some (RefusedByBackend 401 (to_bytes ''unauthorized'')) \<and>
    fs' = fs(dest \<mapsto> (case fs dest of None \<Rightarrow> [] | Some b \<Rightarrow> b)) \<and> s' = session"
proof -
  note m = frame_view_command [OF arrives]
  have closed: "''backup_download_start'' \<notin> set open_actions" by (simp add: open_actions_def)
  have "\<not> isAuthorized st (to_string (DeviceID m))" by (simp add: isAuthorized_def no_login)
  then have "HandleMessage env c m st = (ack env c 401 (to_bytes ''unauthorized''), st, [])"
    using envelope m body closed by (simp add: HandleMessage_def handleSubCommand_def msg_types)
  then have st': "st' = st" and replies: "replies = [(fd c, FAck 401 (to_bytes ''unauthorized''))]"
    using backend ack_delivered [OF open_, of "''unauthorized''" 401] by simp_all
  obtain r where r: "a_incoming net = [r]" "frame_view r = Some (FAck 401 (to_bytes ''unauthorized''))"
    using answers unfolding replies by (auto simp: list_all2_Cons1)
  have "download_loop (dest_write_ok io) 0 (a_incoming net) old 0 session =
      (Some (RefusedByBackend 401 (to_bytes ''unauthorized'')), old, session)" for old
    using frame_view_ack [OF r(2)] by (simp add: r(1) msg_types)
  then show ?thesis using download st'
    by (auto simp: DownloadFile_def Let_def split: if_splits sum.splits option.splits)
qed


lemma frame_delivered:
  assumes "frame_view m = Some f" "\<nexists>d t. f = FLogin d t"
  shows "delivered dev f (m\<lparr>DeviceID := to_bytes dev\<rparr>)"
  using assms by (auto simp: delivered_def frame_view_def split: if_splits option.splits)

theorem restore_is_always_refused_witness:
  "\<exists>net e out s'. DownloadFile \<lparr>dest_mkdir_ok = True, dest_open_ok = True, dest_write_ok = (\<lambda>_. True)\<rparr> net
       (\<lambda>_. to_bytes ''backup_download_start'') sample_session ''x'' [''x'' \<mapsto> [7, 8, 9]] = (e, out, [''x'' \<mapsto> [7, 8, 9]], s') \<and>
     e = Some (RefusedByBackend 401 (to_bytes ''unauthorized''))"
proof -
  let ?io = "\<lparr>dest_mkdir_ok = True, dest_open_ok = True, dest_write_ok = (\<lambda>_. True)\<rparr>"
  let ?body = "to_bytes ''backup_download_start''"
  let ?r = "sample_message\<lparr>Type := MSG_ACK, StatusCode := 401, StatusMsg := to_bytes ''unauthorized''\<rparr>"
  let ?net = "\<lparr>a_connect = (\<lambda>_ _. 3), a_sent = (\<lambda>_. True), a_incoming = [?r]\<rparr>"
  let ?m = "sample_message\<lparr>DeviceID := [], CommandJSON := ?body\<rparr>" and ?c = "\<lparr>fd = 4\<rparr>"
  obtain e fs' s' where run: "DownloadFile ?io ?net (\<lambda>_. ?body) sample_session ''x'' [''x'' \<mapsto> [7, 8, 9]] = (e, [FCommand ?body], fs', s')"
    by (simp add: DownloadFile_def DialTCP_def sample_session_def send_simps msg_types Let_def)
  obtain replies st' started where backend: "HandleMessage sample_ctl_env ?c ?m sample_ctl = (replies, st', started)"
    using prod_cases3 by blast
  have "HandleMessage sample_ctl_env ?c ?m sample_ctl = (ack sample_ctl_env ?c 401 (to_bytes ''unauthorized''), sample_ctl, [])"
    by (simp add: HandleMessage_def handleSubCommand_def msg_types sample_message_def open_actions_def isAuthorized_def)
  then have replies: "replies = [(4, FAck 401 (to_bytes ''unauthorized''))]"
    using backend ack_delivered [of sample_ctl_env ?c "''unauthorized''" 401] by (simp add: INVALID_SOCKET_def)
  have "st' = sample_ctl \<and> e = Some (RefusedByBackend 401 (to_bytes ''unauthorized'')) \<and>
    fs' = [''x'' \<mapsto> [7, 8, 9]](''x'' \<mapsto> (case [''x'' \<mapsto> [7, 8, 9]] ''x'' of None \<Rightarrow> [] | Some b \<Rightarrow> b)) \<and> s' = sample_session"
  proof (rule restore_is_always_refused [OF run _ _ _ _ backend])
    show "frame_view ?m = Some (FCommand ?body)" by (simp add: frame_view_def sample_message_def msg_types)
    show "un_envelope sample_ctl_env ?body = Some (''backup_download_start'', [])" by simp
    show "list_all2 (\<lambda>f r. frame_view r = Some (snd f)) replies (a_incoming ?net)"
      by (simp add: replies frame_view_def msg_types)
  qed (simp_all add: INVALID_SOCKET_def)
  with run show ?thesis by auto
qed

end
