(* ===== verification/Server.thy ===== *)
theory Server
  imports Controller
begin

text \<open>
  The backend's start (\<open>backend/config\<close>, \<open>backend/initialize\<close>, \<open>backend/server\<close>), its tokens
  (\<open>backend/app/jwt\<close>) and the table of content types (\<open>backend/app/repo/content_type_repo.go\<close>).  The
  configuration file, the database driver and the token library are parameters.
\<close>

subsection \<open>Configuration (config.go)\<close>

record TCP =
  tcp_Host :: string
  tcp_Port :: int

record DB =
  db_Host :: string
  db_Port :: int
  db_User :: string
  db_Pass :: string
  db_Name :: string

record JWT =
  jwt_Secret :: string
  jwt_Issuer :: string
  jwt_ExpMin :: int

record BackupCfg =
  bk_StoragePath :: string
  bk_ChunkSize :: int
  bk_TCP :: TCP

record Config =
  cf_TCP :: TCP
  cf_DB :: DB
  cf_JWT :: JWT
  cf_Backup :: BackupCfg

text \<open>
  The defaults of the legacy and the backup keys are read before the configuration file, so they are the built-in host and
  port.  A file that cannot be read is an error.
\<close>

definition Load :: "settings option \<Rightarrow> (string, Config) res" where
  "Load file =
     (case file of
        None \<Rightarrow> Inl ''read config''
      | Some v \<Rightarrow>
          let str = (\<lambda>k d. get_or (set_str v) k d); int_of = (\<lambda>k d. get_or (set_int v) k d);
              defHost = ''127.0.0.1''; defPort = 9200;
              host0 = str ''backend.host'' defHost;
              host = (if host0 = [] then str ''backend.tcp.host'' defHost else host0);
              port0 = int_of ''backend.port'' defPort;
              port = (if port0 = 0 then int_of ''backend.tcp.port'' defPort else port0);
              backupHost0 = str ''backend.backup.tcp.host'' defHost;
              backupHost = (if backupHost0 = [] then host else backupHost0);
              backupPort0 = int_of ''backend.backup.tcp.port'' defPort;
              backupPort = (if backupPort0 = 0 then port else backupPort0);
              secret = str ''backend.jwt.secret'' []; issuer = str ''backend.jwt.issuer'' []; expMin = int_of ''backend.jwt.exp_min'' 0
          in Inr \<lparr>cf_TCP = \<lparr>tcp_Host = host, tcp_Port = port\<rparr>,
                  cf_DB = \<lparr>db_Host = str ''backend.db.host'' ''127.0.0.1'', db_Port = int_of ''backend.db.port'' 3306,
                     db_User = str ''backend.db.user'' ''root'', db_Pass = str ''backend.db.pass'' [], db_Name = str ''backend.db.name'' ''sagiri_guard''\<rparr>,
                  cf_JWT = \<lparr>jwt_Secret = (if secret = [] then ''dev-secret'' else secret),
                     jwt_Issuer = (if issuer = [] then ''sagiri-guard'' else issuer), jwt_ExpMin = (if expMin \<le> 0 then 60 else expMin)\<rparr>,
                  cf_Backup = \<lparr>bk_StoragePath = str ''backend.backup.storage_path'' ''backups'', bk_ChunkSize = int_of ''backend.backup.chunk_size'' 524288,
                     bk_TCP = \<lparr>tcp_Host = backupHost, tcp_Port = backupPort\<rparr>\<rparr>\<rparr>)"

text \<open>The data source name of the database driver (\<open>app/db/db.go\<close>).\<close>

definition dsn :: "DB \<Rightarrow> string" where
  "dsn c = db_User c @ '':'' @ db_Pass c @ ''@tcp('' @ db_Host c @ '':'' @ show_int (db_Port c) @ '')/'' @ db_Name c @
     ''?charset=utf8mb4&parseTime=True&loc=Local''"

subsection \<open>Tokens (jwt.go)\<close>

record Claims =
  cl_UserID :: nat
  cl_Username :: string
  cl_Role :: string
  cl_DeviceID :: string
  cl_Issuer :: string
  cl_IssuedAt :: time
  cl_ExpiresAt :: time

record Signer =
  sg_Secret :: string
  sg_Issuer :: string
  sg_ExpMin :: int

text \<open>
  The token library signs claims with a secret; parsing gives the claims and whether the token is valid, or an error.  A numeric date is
  cut to seconds.
\<close>

definition numeric_date :: "time \<Rightarrow> time" where
  "numeric_date t = t div second * second"

definition SignToken ::
    "(string \<Rightarrow> Claims \<Rightarrow> string option) \<Rightarrow> time \<Rightarrow> Signer \<Rightarrow> nat \<Rightarrow> string \<Rightarrow> string \<Rightarrow> string \<Rightarrow> string option" where
  "SignToken sign now s userID username role deviceID =
     (let expires = now + sg_ExpMin s * 60 * second
      in sign (sg_Secret s)
           \<lparr>cl_UserID = userID, cl_Username = username, cl_Role = role, cl_DeviceID = deviceID, cl_Issuer = sg_Issuer s,
            cl_IssuedAt = numeric_date now, cl_ExpiresAt = numeric_date expires\<rparr>)"

definition ParseToken :: "(string \<Rightarrow> string \<Rightarrow> (string, Claims \<times> bool) res) \<Rightarrow> Signer \<Rightarrow> string \<Rightarrow> (string, Claims) res" where
  "ParseToken parsed s tokenStr =
     (case parsed (sg_Secret s) tokenStr of
        Inl e \<Rightarrow> Inl e
      | Inr (claims, valid) \<Rightarrow> if valid then Inr claims else Inl ''token has invalid claims'')"

subsection \<open>Content types (content_type_repo.go)\<close>

definition live_type :: "nat \<Rightarrow> ContentType \<Rightarrow> bool" where
  "live_type i c \<longleftrightarrow> ct_ID c = i \<and> ct_DeletedAt c = None"

definition ListTypes :: "ContentType gorm \<Rightarrow> ContentType list \<Rightarrow> (db_error, ContentType list) res" where
  "ListTypes db t = g_find db (\<lambda>c. ct_DeletedAt c = None) t"

definition GetType :: "ContentType gorm \<Rightarrow> nat \<Rightarrow> ContentType list \<Rightarrow> (db_error, ContentType option) res" where
  "GetType db i t = g_first db ct_ID (live_type i) t"

definition CreateType :: "ContentType gorm \<Rightarrow> nat \<Rightarrow> ContentType \<Rightarrow> ContentType list \<Rightarrow> (db_error, ContentType) res \<times> ContentType list" where
  "CreateType db key c t =
     (let c' = (if ct_ID c = 0 then c\<lparr>ct_ID := key\<rparr> else c)
      in case g_exec db (\<lambda>t. t @ [c']) t of Inl e \<Rightarrow> (Inl e, t) | Inr t' \<Rightarrow> (Inr c', t'))"

text \<open>\<open>Save\<close> writes all fields of the row with the key, and inserts the value when there is none.\<close>

definition save_type :: "ContentType \<Rightarrow> ContentType list \<Rightarrow> ContentType list" where
  "save_type c t =
     (if \<exists>x\<in>set t. live_type (ct_ID c) x then map (\<lambda>x. if live_type (ct_ID c) x then c else x) t
      else if \<exists>x\<in>set t. ct_ID x = ct_ID c then map (\<lambda>x. if ct_ID x = ct_ID c then c else x) t else t @ [c])"

definition UpdateType :: "ContentType gorm \<Rightarrow> nat \<Rightarrow> ContentType \<Rightarrow> ContentType list \<Rightarrow> (db_error, ContentType) res \<times> ContentType list" where
  "UpdateType db key c t =
     (if ct_ID c = 0 then CreateType db key c t
      else case g_exec db (save_type c) t of Inl e \<Rightarrow> (Inl e, t) | Inr t' \<Rightarrow> (Inr c, t'))"

definition DeleteType :: "ContentType gorm \<Rightarrow> time \<Rightarrow> nat \<Rightarrow> ContentType list \<Rightarrow> db_error option \<times> ContentType list" where
  "DeleteType db now i t =
     (case g_exec db (map (\<lambda>c. if live_type i c then c\<lparr>ct_DeletedAt := Some now\<rparr> else c)) t of
        Inl e \<Rightarrow> (Some e, t) | Inr t' \<Rightarrow> (None, t'))"

lemma deleted_type_is_gone:
  assumes "gorm_reliable db" "DeleteType db now i t = (e, t')"
  shows "GetType db i t' = Inr None" "x \<in> set t' \<Longrightarrow> ct_DeletedAt x = None \<Longrightarrow> x \<in> set t"
proof -
  have t': "t' = map (\<lambda>c. if live_type i c then c\<lparr>ct_DeletedAt := Some now\<rparr> else c) t"
    using assms(2) by (simp add: DeleteType_def gorm_exec_reliable [OF assms(1)])
  then show "x \<in> set t' \<Longrightarrow> ct_DeletedAt x = None \<Longrightarrow> x \<in> set t" by (auto split: if_splits)
  have "\<not> live_type i (if live_type i c then c\<lparr>ct_DeletedAt := Some now\<rparr> else c)" for c by (simp add: live_type_def)
  then have "\<forall>x\<in>set t'. \<not> live_type i x" unfolding t' by (simp only: set_map ball_simps) blast
  moreover obtain r where r: "g_first db ct_ID (live_type i) t' = Inr r" using g_first_reliable [OF assms(1)] by blast
  moreover have "gorm_sound db" using assms(1) by (simp add: gorm_reliable_def)
  ultimately show "GetType db i t' = Inr None" using g_firstD(1,2) [of db ct_ID "live_type i" t'] by (cases r) (auto simp: GetType_def)
qed

subsection \<open>Start (init.go, protocol.go, main.go)\<close>

definition backup_cfg :: "Config \<Rightarrow> backup_config" where
  "backup_cfg cfg = \<lparr>cfg_StoragePath = bk_StoragePath (cf_Backup cfg), cfg_ChunkSize = bk_ChunkSize (cf_Backup cfg),
     cfg_BackupHost = tcp_Host (bk_TCP (cf_Backup cfg)), cfg_BackupPort = tcp_Port (bk_TCP (cf_Backup cfg)),
     cfg_TCPHost = tcp_Host (cf_TCP cfg), cfg_TCPPort = tcp_Port (cf_TCP cfg)\<rparr>"

text \<open>What the start meets: the configuration file, the database and its driver's answers, the system and the keys of new rows.\<close>

record build_env =
  b_file :: "settings option"
  b_connect :: "string \<Rightarrow> bool"
  b_migrate :: bool
  b_io :: backup_io
  b_users :: "User gorm"
  b_bcrypt :: bcrypt
  b_call_first :: bool
  b_key :: "nat \<Rightarrow> nat"

text \<open>
  \<open>st\<close> is what an earlier run left: its tables and files are kept, everything that lived in its memory is fresh.  The two
  default users are made when they are missing; an error of that is ignored.
\<close>

definition Build :: "build_env \<Rightarrow> controller \<Rightarrow> (string, Config \<times> Signer \<times> controller) res" where
  "Build env st =
     (case Load (b_file env) of
        Inl e \<Rightarrow> Inl e
      | Inr cfg \<Rightarrow>
          if \<not> b_connect env (dsn (cf_DB cfg)) then Inl ''connect db''
          else if \<not> b_migrate env then Inl ''migrate''
          else case NewBackupService (b_io env) (backup_cfg cfg) True of
                 Inl e \<Rightarrow> Inl ''init backup service''
               | Inr svc \<Rightarrow>
                   let users1 = snd (EnsureAdmin (b_call_first env) (b_users env) (b_bcrypt env) (b_key env 0) ''admin'' ''admin123'' (user_rows st));
                       users2 = snd (EnsureUser (b_call_first env) (b_users env) (b_bcrypt env) (b_key env 1) ''user'' ''user123'' ''user'' users1)
                   in Inr (cfg, \<lparr>sg_Secret = jwt_Secret (cf_JWT cfg), sg_Issuer = jwt_Issuer (cf_JWT cfg), sg_ExpMin = jwt_ExpMin (cf_JWT cfg)\<rparr>,
                        st\<lparr>activeUpload := (\<lambda>_. None), deviceTokens := (\<lambda>_. None), Backup_svc := Some svc, byID := (\<lambda>_. None), reg := [],
                          user_rows := users2\<rparr>))"

text \<open>What the network hands to the protocol server: a frame of a connection, or its end.\<close>

datatype network_event = Frame TCPClient ProtocolMessage | Disconnect TCPClient string

fun serve :: "ctl_env \<Rightarrow> network_event \<Rightarrow> controller \<Rightarrow> outgoing \<times> controller" where
  "serve env (Frame c m) st = (case HandleMessage env c m st of (out, st', _) \<Rightarrow> (out, st'))"
| "serve env (Disconnect c dev) st = ([], HandleDisconnect c dev st)"

definition StartProtocolServer :: "(string \<Rightarrow> int \<Rightarrow> bool) \<Rightarrow> ctl_env \<Rightarrow> Config \<Rightarrow> network_event list \<Rightarrow> controller \<Rightarrow> (string, outgoing \<times> controller) res" where
  "StartProtocolServer listens env cfg events st =
     (if tcp_Port (cf_TCP cfg) \<le> 0 \<or> \<not> listens (tcp_Host (cf_TCP cfg)) (tcp_Port (cf_TCP cfg)) then Inl ''listen failed''
      else Inr (fold (\<lambda>e (out, st). case serve env e st of (out', st') \<Rightarrow> (out @ out', st')) events ([], st)))"

lemma Build_result:
  assumes "Build env st = Inr (cfg, sg, st')"
  obtains svc where "Load (b_file env) = Inr cfg" "NewBackupService (b_io env) (backup_cfg cfg) True = Inr svc" "Backup_svc st' = Some svc"
    "activeUpload st' = (\<lambda>_. None)" "deviceTokens st' = (\<lambda>_. None)" "storage st' = storage st" "version_rows st' = version_rows st"
    "cmd_rows st' = cmd_rows st" "tree st' = tree st"
  using assms by (auto simp: Build_def Let_def split: sum.splits if_splits)

text \<open>A restart keeps tables and files and forgets logins and running uploads: every chunk that follows is dropped.\<close>

lemma restart_forgets_sessions:
  assumes "Build env st = Inr (cfg, sg, st')"
  shows "\<not> isAuthorized st' dev" "handleFileChunk io m st' = st'"
proof -
  have st': "activeUpload st' = (\<lambda>_. None)" "deviceTokens st' = (\<lambda>_. None)" by (rule Build_result [OF assms]; simp)+
  show "\<not> isAuthorized st' dev" by (simp add: isAuthorized_def st'(2))
  then show "handleFileChunk io m st' = st'" by (simp add: handleFileChunk_def isAuthorized_def st'(2) Let_def)
qed

text \<open>
  A backend that is moved to another address cannot take backups.  The backup address defaults to the built-in host and
  port, read before the configuration file; so with any \<open>backend.host\<close> and \<open>backend.port\<close> and no backup
  address of its own, every upload session that the backend hands out names \<open>127.0.0.1:9200\<close>, and an agent for
  which nothing listens there fails every upload before a single frame is sent.
\<close>
theorem moved_backend_takes_no_backups:
  assumes conf: "b_file env = Some v" and unset: "set_str v ''backend.backup.tcp.host'' = None" "set_int v ''backend.backup.tcp.port'' = None"
    and build: "Build env st = Inr (cfg, sg, st')" and svc: "Backup_svc st' = Some svc"
    and session: "s_TCPHost s = resp_TCPHost (toResponse svc sess)" "s_TCPPort s = resp_TCPPort (toResponse svc sess)"
    and nobody: "connect ''127.0.0.1'' 9200 = INVALID_SOCKET"
  shows "resp_TCPHost (toResponse svc sess) = ''127.0.0.1'' \<and> resp_TCPPort (toResponse svc sess) = 9200 \<and>
    UploadFile connect sent rd dev s (Some content) = ([], Some (AgentNet ConnectFailed))"
proof -
  obtain svc' where load: "Load (b_file env) = Inr cfg" and new: "NewBackupService (b_io env) (backup_cfg cfg) True = Inr svc'"
    and "Backup_svc st' = Some svc'"
    by (rule Build_result [OF build])
  then have "svc' = svc" using svc by simp
  have "bk_TCP (cf_Backup cfg) = \<lparr>tcp_Host = ''127.0.0.1'', tcp_Port = 9200\<rparr>"
    using load unset by (auto simp: conf Load_def get_or_def Let_def)
  then have "tcpHost svc = ''127.0.0.1'' \<and> tcpPort svc = 9200"
    using new \<open>svc' = svc\<close> by (auto simp: NewBackupService_def backup_cfg_def Let_def split: if_splits)
  then show ?thesis using session nobody by (simp add: toResponse_def UploadFile_def DialTCP_def)
qed

definition sample_build :: build_env where
  "sample_build = \<lparr>b_file = Some \<lparr>set_str = [''backend.host'' \<mapsto> ''10.0.0.5''], set_int = [''backend.port'' \<mapsto> 9300], set_list = (\<lambda>_. None)\<rparr>,
     b_connect = (\<lambda>_. True), b_migrate = True, b_io = sample_io, b_users = memory_gorm, b_bcrypt = \<lparr>bc_hash = (\<lambda>x. x), bc_match = (=)\<rparr>,
     b_call_first = True, b_key = (\<lambda>i. i)\<rparr>"

theorem moved_backend_takes_no_backups_witness:
  "\<exists>cfg sg st svc. Build sample_build sample_ctl = Inr (cfg, sg, st) \<and> cf_TCP cfg = \<lparr>tcp_Host = ''10.0.0.5'', tcp_Port = 9300\<rparr> \<and>
     Backup_svc st = Some svc \<and>
     UploadFile (\<lambda>h p. if p = 9300 then 4 else - 1) (\<lambda>_. True) full_reads ''d'' (sample_upload_session\<lparr>s_TCPHost := tcpHost svc, s_TCPPort := tcpPort svc\<rparr>)
       (Some [1, 2, 3]) = ([], Some (AgentNet ConnectFailed))"
proof -
  obtain v where v: "b_file sample_build = Some v" "set_str v ''backend.backup.tcp.host'' = None" "set_int v ''backend.backup.tcp.port'' = None"
    by (simp add: sample_build_def)
  have "\<exists>cfg sg st. Build sample_build sample_ctl = Inr (cfg, sg, st) \<and> cf_TCP cfg = \<lparr>tcp_Host = ''10.0.0.5'', tcp_Port = 9300\<rparr>"
    by (simp add: Build_def Load_def sample_build_def get_or_def NewBackupService_def sample_io_def Let_def)
  then obtain cfg sg st where build: "Build sample_build sample_ctl = Inr (cfg, sg, st)" and tcp: "cf_TCP cfg = \<lparr>tcp_Host = ''10.0.0.5'', tcp_Port = 9300\<rparr>"
    by blast
  obtain svc where svc: "Backup_svc st = Some svc" by (rule Build_result [OF build]) blast
  let ?s = "sample_upload_session\<lparr>s_TCPHost := tcpHost svc, s_TCPPort := tcpPort svc\<rparr>"
  have "UploadFile (\<lambda>h p. if p = 9300 then 4 else - 1) (\<lambda>_. True) full_reads ''d'' ?s (Some [1, 2, 3]) = ([], Some (AgentNet ConnectFailed))"
    by (rule moved_backend_takes_no_backups [OF v build svc, THEN conjunct2, THEN conjunct2])
      (simp_all add: toResponse_def INVALID_SOCKET_def)
  then show ?thesis using build tcp svc by blast
qed

end
