(* ===== verification/Spec2Isabelle.thy ===== *)
theory Spec2Isabelle
  imports Threads Sockets Console Server
begin

text \<open>
  \<^bold>\<open>Sagiri Guard\<close> watches the files of a fleet of machines, backs them up to a server, blocks web sites on the machines and
  takes commands from an administrator.  This library models the three programs of the repository and proves what they do.

  \<^bold>\<open>Parts and how they interact.\<close>
  The \<^emph>\<open>agent\<close> (\<open>agent/\<close>) runs on every machine.  Its file monitor notices changes and records them in a local table; a loop
  sends the recorded changes to the backend; a scheduler uploads changed files; a dispatcher runs the commands that arrive on the one
  lasting connection.  Every other exchange (login, registration, the start of a transfer) opens a short-lived connection.  The
  \<^emph>\<open>backend\<close> (\<open>backend/\<close>) has one controller behind a protocol server written in C (\<open>network/\<close>): it authorises devices, stores
  uploads with a version history, keeps a tree of each device's files, and queues commands.  The \<^emph>\<open>console\<close> (\<open>cmd/webui/\<close>) is a
  terminal program with which the administrator lists devices, browses a device's tree and sends commands through the backend.

  \<^bold>\<open>Theories.\<close>
  \<^item> \<open>Prelude\<close>, \<open>GoStrings\<close>, \<open>Store\<close>: shared vocabulary, with runs of step relations and locale \<open>lts_invariant\<close> for their invariants.  \<open>GoStrings\<close> models what the sources use of Go's strings and
    file paths; \<open>Store\<close> is the database as a parameter (\<open>gorm\<close>: a query or statement either fails or acts on a list of rows),
    with \<open>gorm_sound\<close> and \<open>gorm_reliable\<close> as its documented behaviour and an in-memory instance that has it.
  \<^item> \<open>Hosts\<close>: \<open>agent/internal/firewall\<close>; the hosts file as bytes, the manager's list and switch.  Locale \<open>website_blocker\<close> is what
    the command handler relies on.
  \<^item> \<open>Protocol\<close>, \<open>Registry\<close>: \<open>network/\<close>; frames byte by byte with their length fields and limits, the Go client, the
    device registry and the connections as a state machine over all interleavings.  Locale \<open>stream_codec\<close> is the law of a
    codec on a byte stream, interpreted on the frames.
  \<^item> \<open>Sockets\<close>: \<open>network/tcp_core.c\<close>, \<open>network/tcp_server.c\<close>; partial and interrupted writes and reads, the accept loop and the
    worker threads on one table of descriptor numbers, and the simulation of the registry machine by these threads.
  \<^item> \<open>Versions\<close>, \<open>Backup\<close>, \<open>FileTransfer\<close>: \<open>backend/app/services/backup_service.go\<close>, the transfer handlers of the controller,
    \<open>agent/internal/backup\<close> and \<open>agent/internal/protocolclient\<close>; sessions, temporary and final files, version rows.  Locales
    \<open>version_store\<close> and \<open>version_database\<close> say what numbering relies on.
  \<^item> \<open>FileTree\<close>, \<open>Services\<close>: the repositories and services of the tree, of users, devices, logs, commands and blocking rules.
  \<^item> \<open>Controller\<close>, \<open>Server\<close>: \<open>backend/app/controllers\<close>, \<open>backend/app/socket\<close>, \<open>backend/initialize\<close>, \<open>backend/config\<close>,
    \<open>backend/app/jwt\<close>; the record \<open>controller\<close> is the backend's whole state, each handler a function on it that also gives the
    frames to send; \<open>Build\<close> is a restart over the tables an earlier run left.
  \<^item> \<open>Monitor\<close>, \<open>TreeSync\<close>, \<open>Scheduler\<close>, \<open>Command\<close>, \<open>Agent\<close>: \<open>agent/internal/monitor\<close>, \<open>service\<close>, \<open>command\<close>, \<open>socket\<close>,
    \<open>config\<close>, \<open>auth\<close>, \<open>device\<close>, \<open>osquery\<close>, \<open>connection\<close> and \<open>agent/main.go\<close>.  The scheduler is a step relation over file events
    and finished jobs; a panic of the agent is a result.  Locale \<open>connection_sender\<close> is the interface \<open>ConnectionSender\<close>, interpreted on
    the connection manager.
  \<^item> \<open>Threads\<close>: the goroutines of the monitor (\<open>MonitorFiles\<close>, \<open>Close\<close> of \<open>agent/internal/monitor\<close>) with their channel and wait group,
    and the receive loop beside the deferred calls of \<open>agent/main.go\<close>.
  \<^item> \<open>Console\<close>: \<open>cmd/webui/ui\<close>; the model and update function of every screen.
  \<^item> this theory: properties that need agent, backend and console together.

  Definitions have the names of the Go functions they translate; an operation of the same name in two packages is told apart by its
  theory.  Go's results with an error are sums, a missing map key or a nil pointer is \<open>None\<close>, integers have their width
  where a field of the protocol limits it.  What the program gets from outside (clock, random numbers, file system, network, JSON,
  hashes, map order, widgets) is an argument; where a theorem needs it to behave, that is a named hypothesis and a
  witness shows an instance.

  \<^bold>\<open>What is shown.\<close>
  For the transport: frames round trip in any sequence, no received message exceeds its buffers, the registry answers like its
  specification, partial writes and reads never tear a frame, and the server's threads implement the registry machine as long as no
  descriptor number is handed out between the two closes of a worker; what a mixed write and a second close do is stated too.  For backups: an upload that reports success arrives byte for byte below 4 GiB and takes the next version
  number; beyond that, or cut short, or with two uploads in one second, what goes wrong is stated exactly.  For the tree: an
  applied path is read back, agent and backend read paths alike, deleted identifiers stay invisible.  For the agent: the local
  table follows the events, its monitor can be closed at any time without a panic, the wait for a file ends, one backup per path at a time, commands run in order, the hosts
  file is the user's lines and the blocked domains.  For the controller: what is authorised, and that nothing happens without it.
  For the console: browsing is a stack and forms match their commands.  Several theorems state a defect: they show what the code
  does where it plainly means something else.

  \<^bold>\<open>Bounds.\<close>
  The settle loop of the scheduler has fuel 31: with one half-second sleep per round the fifteen seconds are over by then.  The walk from
  an item to its root takes the depth of the path as fuel.  All other loops are total functions with a measure or follow a list: of
  reads, of events, of frames, of typed lines.  The back-off factor 1.5 is computed on integers, which is exact below 52 days.

  \<^bold>\<open>Not modelled.\<close>
  Threads inside one handler of the controller (a handler is one step, as the controller's lock makes it for its tables; the
  interleavings of the server's threads, of the registry, of the scheduler, of the monitor and of the agent's end are modelled), rendering and
  styles of the console, logging, the system calls that raise privileges, process entry points beyond their sequence of calls.  After
  the server's memory is freed a thread that uses it has no behaviour in the model.  Text is bytes: case folding and trimming are those of ASCII.
\<close>

subsection \<open>An upload from end to end\<close>

text \<open>The backend handles the frames of one connection in turn.\<close>

definition handle_frames :: "ctl_env \<Rightarrow> TCPClient \<Rightarrow> ProtocolMessage list \<Rightarrow> controller \<Rightarrow> controller" where
  "handle_frames env c ms st = fold (\<lambda>m st. fst (snd (Controller.HandleMessage env c m st))) ms st"

lemma handle_frames_append: "handle_frames env c (ms @ ms') st = handle_frames env c ms' (handle_frames env c ms st)"
  by (simp add: handle_frames_def)

lemma handle_frames_chunks:
  assumes "\<forall>m\<in>set ms. Type m = MSG_FILE_CHUNK"
  shows "handle_frames env c ms st = fold (handleFileChunk (env_chunk env)) ms st"
  using assms by (induction ms arbitrary: st) (simp_all add: handle_frames_def Controller.HandleMessage_def msg_types)

lemma handle_frames_done:
  "Type m = MSG_FILE_DONE \<Longrightarrow> handle_frames env c [m] st = handleFileDone (db_ver env) (env_now env) (env_io env) m st"
  by (simp add: handle_frames_def Controller.HandleMessage_def msg_types)

lemma handle_frames_meta: "Type m = MSG_FILE_META \<Longrightarrow> handle_frames env c [m] st = st"
  by (simp add: handle_frames_def Controller.HandleMessage_def msg_types)

text \<open>A login of the device leaves an upload of it open.\<close>

definition same_transfer :: "controller \<Rightarrow> controller \<Rightarrow> bool" where
  "same_transfer st st' \<longleftrightarrow> activeUpload st' = activeUpload st \<and> Backup_svc st' = Backup_svc st \<and> storage st' = storage st \<and>
     version_rows st' = version_rows st"

lemma login_keeps_upload:
  assumes "upload_open dev s0 content st" "Type m = MSG_LOGIN"
  shows "upload_open dev s0 content (handle_frames env c [m] st)" "same_transfer st (handle_frames env c [m] st)"
  using assms
  by (auto simp: handle_frames_def Controller.HandleMessage_def Let_def Controller.Register_def upload_open_def isAuthorized_def same_transfer_def
      to_string_def)


lemma list_all2_three:
  assumes "list_all2 P (xs @ ys @ [z]) ms"
  obtains as bs m where "ms = as @ bs @ [m]" "list_all2 P xs as" "list_all2 P ys bs" "P z m"
  using assms by (auto simp: list_all2_append1 list_all2_Cons1)

lemma delivered_types:
  "delivered dev (FFileChunk sid tok off d) m \<Longrightarrow> Type m = MSG_FILE_CHUNK"
  "delivered dev (FFileMeta n sz) m \<Longrightarrow> Type m = MSG_FILE_META"
  "delivered dev (FLogin d t) m \<Longrightarrow> Type m = MSG_LOGIN"
  "delivered dev (FFileDone sid tok) m \<Longrightarrow> Type m = MSG_FILE_DONE"
  by (auto simp: delivered_def frame_view_def split: if_splits option.splits)

lemma chunk_messages_type:
  "list_all2 (delivered dev) (chunk_frames sid tok off ds) ms \<Longrightarrow> \<forall>m\<in>set ms. Type m = MSG_FILE_CHUNK"
  by (induction ds arbitrary: off ms) (auto simp: list_all2_Cons1 dest: delivered_types(1))

lemma prologue_keeps_upload:
  assumes "upload_open dev s0 content st" "login = [] \<or> login = [FLogin d t]"
    and "list_all2 (delivered dev) (login @ [FFileMeta n sz]) ms"
  shows "upload_open dev s0 content (handle_frames env c ms st) \<and> same_transfer st (handle_frames env c ms st)"
proof -
  obtain ls m where ms: "ms = ls @ [m]" and l: "list_all2 (delivered dev) login ls" and m: "delivered dev (FFileMeta n sz) m"
    using assms(3) by (auto simp: list_all2_append1 list_all2_Cons1)
  have "upload_open dev s0 content (handle_frames env c ls st) \<and> same_transfer st (handle_frames env c ls st)"
  proof (cases "login = []")
    case True
    then show ?thesis using l assms(1) by (simp add: handle_frames_def same_transfer_def)
  next
    case False
    then obtain x where "ls = [x]" "Type x = MSG_LOGIN" using assms(2) l delivered_types(3) by (auto simp: list_all2_Cons1)
    then show ?thesis using login_keeps_upload [OF assms(1)] by simp
  qed
  then show ?thesis using handle_frames_meta [OF delivered_types(2) [OF m]] by (simp add: ms handle_frames_append)
qed

text \<open>
  C1: a backup arrives as it was read, for every file below 4 GiB.  If the agent's upload of a file reports success and its
  frames reach the backend in order, then, whatever sizes the reads had and however the buffer divides the file, the stored file is
  byte for byte the file that was read, the temporary file is gone, the session is completed, and the version history of
  the logical path grows by exactly its next number, all histories staying free of gaps.
\<close>
theorem backup_arrives_intact:
  assumes up: "UploadFile connect sent rd dev s (Some content) = (out, None)" and rd: "reads_ok rd"
    and size: "length content < 2 ^ 32"
    and open_: "upload_open dev s0 [] st" and ids: "sess_ID s0 = s_SessionID s" "sess_Token s0 = s_Token s"
    and arrive: "list_all2 (delivered dev) out ms"
    and io: "chunk_io_ok (env_chunk env)" "gorm_reliable (db_ver env)" "rename_ok (env_io env) 0"
    and temp: "sess_TempPath s0 \<noteq> []" and ver: "has_versions (the (Backup_svc st))" "sess_LogicalPath s0 \<noteq> []"
    and hist: "\<And>d p. gapless (history d p (version_rows st))"
    and run: "st' = handle_frames env c ms st"
  shows "storage st' = (storage st)(sess_TempPath s0 := None, sess_FinalPath s0 \<mapsto> content) \<and>
    activeUpload st' (sess_ID s0) = None \<and>
    (\<exists>svc sess. Backup_svc st' = Some svc \<and> sessions svc (sess_ID s0) = Some sess \<and> sess_Status sess = SessionCompleted) \<and>
    history (sess_DeviceID s0) (sess_LogicalPath s0) (version_rows st') =
      history (sess_DeviceID s0) (sess_LogicalPath s0) (version_rows st) @
        [int (length (history (sess_DeviceID s0) (sess_LogicalPath s0) (version_rows st))) + 1] \<and>
    (\<forall>d p. gapless (history d p (version_rows st')))"
proof -
  obtain content' chunks login where fc: "Some content = Some content'" "concat chunks = content'"
    and ch: "\<forall>d\<in>set chunks. d \<noteq> [] \<and> length d \<le> upload_buffer s"
    and login: "login = [] \<or> login = [FLogin (to_bytes dev) (to_bytes (s_Token s))] \<and> dev \<noteq> []"
    and out: "out = login @ FFileMeta (to_bytes (s_FileName s)) (word_of_int (s_FileSize s)) #
       chunk_frames (to_bytes (s_SessionID s)) (to_bytes (s_Token s)) 0 chunks @
       [FFileDone (to_bytes (s_SessionID s)) (to_bytes (s_Token s))]"
    using up rd by (rule UploadFile_frames)
  let ?meta = "FFileMeta (to_bytes (s_FileName s)) (word_of_int (s_FileSize s))"
  let ?sid = "to_bytes (sess_ID s0)" and ?tok = "to_bytes (sess_Token s0)"
  have "list_all2 (delivered dev) ((login @ [?meta]) @ chunk_frames ?sid ?tok 0 chunks @ [FFileDone ?sid ?tok]) ms"
    using arrive by (simp add: out ids)
  then obtain ms1 ms2 m where ms: "ms = ms1 @ ms2 @ [m]" and m1: "list_all2 (delivered dev) (login @ [?meta]) ms1"
    and m2: "list_all2 (delivered dev) (chunk_frames ?sid ?tok 0 chunks) ms2" and m: "delivered dev (FFileDone ?sid ?tok) m"
    by (rule list_all2_three)
  let ?st1 = "handle_frames env c ms1 st"
  have st1: "upload_open dev s0 [] ?st1" "same_transfer st ?st1"
    using prologue_keeps_upload [OF open_ _ m1] login by auto
  have content: "write_chunks 0 chunks [] = content" using write_chunks_append [of 0 "[]" chunks] fc size by simp
  have ne: "\<forall>d\<in>set chunks. d \<noteq> []" using ch by blast
  let ?st2 = "fold (handleFileChunk (env_chunk env)) ms2 ?st1"
  obtain svc where st2: "upload_open dev s0 content ?st2" and eq: "?st2 = ?st1\<lparr>storage := (storage ?st1)(sess_TempPath s0 \<mapsto> content), Backup_svc := Some svc\<rparr>"
    and hv: "has_versions svc = has_versions (the (Backup_svc ?st1))"
    using handleFileChunk_fold [OF st1(1) io(1) ne m2] unfolding content by blast
  have fin: "st' = handleFileDone (db_ver env) (env_now env) (env_io env) m ?st2"
    using handle_frames_chunks [OF chunk_messages_type [OF m2]] handle_frames_done [OF delivered_types(4) [OF m]]
    by (simp add: run ms handle_frames_append)
  have same: "version_rows ?st2 = version_rows st" "storage ?st2 = (storage st)(sess_TempPath s0 \<mapsto> content)"
    "has_versions (the (Backup_svc ?st2))"
    using st1(2) eq hv ver(1) by (simp_all add: same_transfer_def)
  note result = handleFileDone_step [OF st2 io(2,3) m temp same(3) ver(2), of "env_now env", unfolded same(1,2), OF hist, folded fin]
  show ?thesis using result by auto
qed


definition sample_upload_ctl :: controller where
  "sample_upload_ctl = sample_ctl\<lparr>activeUpload := activeUpload sample_uploading, deviceTokens := deviceTokens sample_uploading,
     Backup_svc := Backup_svc sample_uploading, storage := storage sample_uploading\<rparr>"

lemma some_frames_arrive:
  "\<exists>m. delivered dev (FLogin (to_bytes dev) t) m" "\<exists>m. delivered dev (FFileMeta n sz) m" "\<exists>m. delivered dev (FFileDone sid t) m"
proof -
  show "\<exists>m. delivered dev (FLogin (to_bytes dev) t) m"
    by (intro exI [of _ "sample_message\<lparr>Type := MSG_LOGIN, DeviceID := to_bytes dev, Token := t\<rparr>"]) (simp add: delivered_def frame_view_def)
  show "\<exists>m. delivered dev (FFileMeta n sz) m"
    by (intro exI [of _ "sample_message\<lparr>Type := MSG_FILE_META, DeviceID := to_bytes dev, FileName := n, FileSize := sz\<rparr>"])
      (simp add: delivered_def frame_view_def msg_types)
  show "\<exists>m. delivered dev (FFileDone sid t) m"
    by (intro exI [of _ "sample_message\<lparr>Type := MSG_FILE_DONE, DeviceID := to_bytes dev, SessionID := sid, Token := t\<rparr>"])
      (simp add: delivered_def frame_view_def msg_types)
qed

theorem backup_arrives_intact_witness:
  "\<exists>out ms. UploadFile (\<lambda>_ _. 3) (\<lambda>_. True) full_reads ''d'' sample_upload_session (Some [1, 2, 3]) = (out, None) \<and>
     storage (handle_frames sample_ctl_env \<lparr>fd = 4\<rparr> ms sample_upload_ctl) ''x'' = Some [1, 2, 3]"
proof -
  let ?c = "[1, 2, 3] :: byte list" and ?sid = "to_bytes ''up-1''" and ?tok = "to_bytes ''t''"
  have ch: "\<forall>d\<in>set (split_reads 2 ?c). d \<noteq> [] \<and> length d \<le> 1000000" using split_reads_chunks [of _ 2 ?c] by fastforce
  obtain fs k where up: "UploadFile (\<lambda>_ _. 3) (\<lambda>_. True) full_reads ''d'' sample_upload_session (Some ?c) =
      (FLogin (to_bytes ''d'') ?tok # FFileMeta (to_bytes ''5_a'') 2 # fs @ [FFileDone ?sid ?tok], None)"
    and loop: "upload_chunks (\<lambda>_. True) (Some \<lparr>fd = 3\<rparr>) ?sid ?tok 2 0 (split_reads 2 ?c) = (fs, k, None)"
    by (rule sample_upload_runs)
  have fs: "fs = chunk_frames ?sid ?tok 0 (split_reads 2 ?c)" using upload_chunks_frames [OF loop] ch by blast
  obtain ms where ms: "list_all2 (delivered ''d'') fs ms"
    using chunk_frames_arrive [OF sample_upload_names(1,2,5,6) ch] unfolding fs by blast
  obtain l n m where "delivered ''d'' (FLogin (to_bytes ''d'') ?tok) l" "delivered ''d'' (FFileMeta (to_bytes ''5_a'') 2) n"
    "delivered ''d'' (FFileDone ?sid ?tok) m" using some_frames_arrive by metis
  then have arrive: "list_all2 (delivered ''d'') (FLogin (to_bytes ''d'') ?tok # FFileMeta (to_bytes ''5_a'') 2 # fs @ [FFileDone ?sid ?tok]) (l # n # ms @ [m])"
    using ms by (simp add: list_all2_appendI)
  have open_: "upload_open ''d'' sample_upload_record [] sample_upload_ctl"
    using sample_uploading_open by (simp add: upload_open_def isAuthorized_def sample_upload_ctl_def)
  have "storage (handle_frames sample_ctl_env \<lparr>fd = 4\<rparr> (l # n # ms @ [m]) sample_upload_ctl) =
      (storage sample_upload_ctl)(sess_TempPath sample_upload_record := None, sess_FinalPath sample_upload_record \<mapsto> ?c)"
    by (rule backup_arrives_intact [OF up full_reads_ok _ open_ _ _ arrive, THEN conjunct1])
      (simp_all add: sample_upload_record_def sample_upload_session_def sample_session_def sample_download_def chunk_io_ok_def
        sample_ctl_env_def sample_upload_ctl_def sample_ctl_def sample_uploading_def sample_service_def sample_io_def history_def gapless_def)
  then have "storage (handle_frames sample_ctl_env \<lparr>fd = 4\<rparr> (l # n # ms @ [m]) sample_upload_ctl) ''x'' = Some ?c"
    by (simp add: sample_upload_record_def)
  with up show ?thesis by blast
qed

subsection \<open>A file that is deleted and created again\<close>

text \<open>
  C3: a file that comes back stays lost.  Once the backend has marked the item of a monitored file as deleted and the file is created
  again, the agent records the new event but keeps the old identifier, so the next synchronisation reports the file as
  present under the identifier of the deleted item; and whatever the backend applies, the item is neither found nor
  listed any more.
\<close>
theorem recreated_file_stays_invisible:
  assumes agent: "m_db env = Some db" "gorm_reliable db" "distinct (map mf_Path rows)"
    and row: "row_of mf_Path rows p = Some r0" "mf_ItemID r0 \<noteq> []" "TrimSpace p = p" "p \<noteq> []"
    and created: "rows1 = persistMonitoredFile env \<lparr>ev_Action = ActionCreate, ev_Path = p, ev_OldPath = [], ev_Timestamp = Some t\<rparr> rows"
    and present: "y_stat yenv p = IsFile sz"
    and backend: "tree_sound g" "gone (mf_ItemID r0) T" "ApplyChanges g tenv dev changes T = (e, T')"
  shows "(\<exists>r c. row_of mf_Path rows1 p = Some r \<and> wants_sync r \<and> row_change yenv r = Some c \<and>
      ch_ID c = mf_ItemID r0 \<and> \<not> ch_Deleted c \<and> ch_Size c = sz) \<and>
    (\<forall>d x. GetItemByID g d (mf_ItemID r0) T' \<noteq> Inr (Some x)) \<and>
    (\<forall>P like now flt ls n. \<not> f_IncludeDeleted flt \<and> ListItems g P like now flt T' = Inr (ls, n) \<longrightarrow> mf_ItemID r0 \<notin> it_ID ` set ls)"
proof -
  have rows1: "rows1 = upsert_monitored env p ActionCreate t True rows"
    using created agent(1) row(4) by (simp add: persistMonitoredFile_def shouldMarkPending_def)
  note up = upsert_monitored_known [OF agent, of p ActionCreate t True]
  have "known rows1 p = Some (''create'', t, True)" using up(2) by (simp add: rows1)
  then obtain r where r: "row_of mf_Path rows1 p = Some r" "mf_ChangePending r" by (auto simp: known_def)
  have path: "mf_Path r = p" using r(1) by (auto simp: row_of_def find_Some_iff)
  have item: "mf_ItemID r = mf_ItemID r0" using up(3) [OF r(1) [unfolded rows1] row(1)] by simp
  obtain c where c: "row_change yenv r = Some c" "ch_ID c = mf_ItemID r0" "\<not> ch_Deleted c" "ch_Size c = sz"
    using present row(2-4) by (simp add: row_change_def path item row_id_def Let_def)
  have wants: "wants_sync r" using r(2) by (simp add: wants_sync_def)
  have gone': "gone (mf_ItemID r0) T'" by (rule gone_ApplyChanges [OF backend(1,3,2)])
  have sound: "gorm_sound (g_items g)" using backend(1) by (simp add: tree_sound_def)
  note unseen = gone_invisible [OF sound gone']
  have "\<exists>r c. row_of mf_Path rows1 p = Some r \<and> wants_sync r \<and> row_change yenv r = Some c \<and>
      ch_ID c = mf_ItemID r0 \<and> \<not> ch_Deleted c \<and> ch_Size c = sz"
    using r(1) wants c by blast
  moreover have "\<forall>d x. GetItemByID g d (mf_ItemID r0) T' \<noteq> Inr (Some x)" using unseen(1) by simp
  moreover have "mf_ItemID r0 \<notin> it_ID ` set ls"
    if "\<not> f_IncludeDeleted flt \<and> ListItems g P like now flt T' = Inr (ls, n)" for P like now flt ls n
  proof
    assume "mf_ItemID r0 \<in> it_ID ` set ls"
    then obtain x where "x \<in> set ls" "it_ID x = mf_ItemID r0" by (auto simp: image_iff)
    then show False using unseen(2) [of flt P like now ls n x] that by simp
  qed
  ultimately show ?thesis by simp
qed

theorem recreated_file_stays_invisible_witness:
  "\<exists>rows1 r c e T'. rows1 = persistMonitoredFile sample_mon_env
        \<lparr>ev_Action = ActionCreate, ev_Path = ''/w/1'', ev_OldPath = [], ev_Timestamp = Some 9\<rparr> [sample_monitored 1 ''delete''] \<and>
     row_of mf_Path rows1 ''/w/1'' = Some r \<and> row_change (sample_sync_env\<lparr>y_stat := \<lambda>_. IsFile 5\<rparr>) r = Some c \<and> ch_ID c = ''x'' \<and>
     ApplyChanges sample_tree_gorm sample_env ''d'' [c] (empty_tree\<lparr>t_items := [(new_item sample_env ''x'' ''d'' ''1'' None (Some ''x'') None 0)
        \<lparr>it_DeletedAt := Some 0\<rparr>]\<rparr>) = (e, T') \<and> (\<forall>i. GetItemByID sample_tree_gorm ''d'' ''x'' T' \<noteq> Inr (Some i))"
proof -
  let ?T = "empty_tree\<lparr>t_items := [(new_item sample_env ''x'' ''d'' ''1'' None (Some ''x'') None 0)\<lparr>it_DeletedAt := Some 0\<rparr>]\<rparr>"
  let ?rows = "[sample_monitored 1 ''delete'']" and ?y = "sample_sync_env\<lparr>y_stat := \<lambda>_. IsFile 5\<rparr>"
  let ?rows1 = "persistMonitoredFile sample_mon_env \<lparr>ev_Action = ActionCreate, ev_Path = ''/w/1'', ev_OldPath = [], ev_Timestamp = Some 9\<rparr> ?rows"
  have r0: "row_of mf_Path ?rows ''/w/1'' = Some (sample_monitored 1 ''delete'')" "mf_ItemID (sample_monitored 1 ''delete'') = ''x''"
    by (simp_all add: row_of_def sample_monitored_def show_nat.simps [of "Suc 0"] digit_def hex_digits_def)
  have gone: "gone ''x'' ?T" by (simp add: gone_def new_item_def)
  have trim: "TrimSpace ''/w/1'' = ''/w/1''" by (simp add: TrimSpace_def strip_def is_space_def)
  have all: "(\<exists>r c. row_of mf_Path ?rows1 ''/w/1'' = Some r \<and> wants_sync r \<and> row_change ?y r = Some c \<and>
      ch_ID c = mf_ItemID (sample_monitored 1 ''delete'') \<and> \<not> ch_Deleted c \<and> ch_Size c = 5) \<and>
    (\<forall>d x. GetItemByID sample_tree_gorm d (mf_ItemID (sample_monitored 1 ''delete'')) T' \<noteq> Inr (Some x)) \<and>
    (\<forall>P like now flt ls n. \<not> f_IncludeDeleted flt \<and> ListItems sample_tree_gorm P like now flt T' = Inr (ls, n) \<longrightarrow>
       mf_ItemID (sample_monitored 1 ''delete'') \<notin> it_ID ` set ls)"
    if "ApplyChanges sample_tree_gorm sample_env ''d'' cs ?T = (e, T')" for cs e T'
    by (rule recreated_file_stays_invisible [OF _ memory_gorm_reliable(1) _ r0(1) _ trim _ refl _ sample_tree_reliable(2) _ that])
      (simp_all add: sample_mon_env_def r0(2) r0(2) [simplified] gone [simplified])
  obtain e0 T0 where "ApplyChanges sample_tree_gorm sample_env ''d'' [] ?T = (e0, T0)" by fastforce
  from all [OF this, THEN conjunct1, unfolded r0(2)]
  obtain r c where rc: "row_of mf_Path ?rows1 ''/w/1'' = Some r" "row_change ?y r = Some c" "ch_ID c = ''x''"
    by blast
  obtain e T' where run: "ApplyChanges sample_tree_gorm sample_env ''d'' [c] ?T = (e, T')" by fastforce
  have "\<forall>i. GetItemByID sample_tree_gorm ''d'' ''x'' T' \<noteq> Inr (Some i)"
    using all [OF run, THEN conjunct2, THEN conjunct1, unfolded r0(2)] by blast
  then show ?thesis using rc run by blast
qed

subsection \<open>A command from the console to an agent\<close>

lemma handleAdminSendCommand_sent:
  assumes req: "un_command env payload = Some req" and run: "handleAdminSendCommand env payload st = (Inr reply, out, st')"
    and sent: "(sock, FCommand b) \<in> set out"
  shows "json_command env (ac_DeviceID req) (ac_Command req) (ac_Kind req) (ac_Payload req) = Some b \<and>
    reply = CommandReply (next_id env) ''sent'' True"
  using assms
  by (auto simp: handleAdminSendCommand_def Controller.Send_def Let_def split: if_splits option.splits prod.splits sum.splits)

lemma submitCommand_kind:
  assumes "submitCommand m = SendCmd a (CommandRequest dev name kind pl)"
  shows "kind = ''agent'' \<or> kind = ''shell''"
  using assms by (auto simp: submitCommand_def Let_def split: if_splits)

text \<open>
  C2: no command of the console is ever carried out.  The form sends every command with the kind \<open>agent\<close> or \<open>shell\<close>; the backend
  queues it, passes it on as it is and reports it as sent; but the agent's dispatcher knows only the kinds \<open>once\<close> and \<open>stream\<close>.
  Whatever command and whatever arguments were chosen, the frame that reaches the agent leaves its whole state as it was:
  nothing is blocked, restored, switched or sent.
\<close>
theorem console_commands_are_ignored:
  assumes form: "submitCommand m = SendCmd a (CommandRequest dev name kind pl)"
    and decoded: "un_command env payload = Some \<lparr>ac_DeviceID = dev, ac_Command = name, ac_Kind = kind, ac_Payload = arg\<rparr>"
    and backend: "handleAdminSendCommand env payload st = (Inr reply, out, st')" and sent: "(sock, FCommand b) \<in> set out"
    and wire: "\<And>b e. json_command env dev name kind arg = Some b \<Longrightarrow> j_envelope cenv (to_bytes (TrimSpace (to_string b))) = Some e \<Longrightarrow>
      en_Kind e = kind"
    and agent: "Command.HandleMessage cenv b ag = (r, ag')"
  shows "reply = CommandReply (next_id env) ''sent'' True \<and> ag' = ag \<and> r \<noteq> Panics"
proof -
  have b: "json_command env dev name kind arg = Some b" and reply: "reply = CommandReply (next_id env) ''sent'' True"
    using handleAdminSendCommand_sent [OF decoded backend sent] by simp_all
  have kind: "kind \<noteq> []" "kind \<noteq> KindOnce" "kind \<noteq> KindStream"
    using submitCommand_kind [OF form] by (auto simp: KindOnce_def KindStream_def)
  have "ag' = ag \<and> r \<noteq> Panics"
  proof (cases "j_envelope cenv (to_bytes (TrimSpace (to_string b)))")
    case None
    then show ?thesis using agent by (auto simp: Command.HandleMessage_def Let_def split: if_splits)
  next
    case (Some e)
    have k: "en_Kind e = kind" by (rule wire [OF b Some])
    have "(r, ag') = (Done, ag) \<or> (r, ag') = Dispatch cenv e ag"
      using agent Some by (auto simp: Command.HandleMessage_def Let_def split: if_splits)
    then show ?thesis using unknown_kind_is_ignored [of e cenv ag] kind k by (cases "Dispatch cenv e ag") auto
  qed
  with reply show ?thesis by simp
qed

theorem console_commands_are_ignored_witness:
  "\<exists>m env st reply out st' b. submitCommand m = SendCmd ''admin_send_command'' (CommandRequest ''d'' ''backup_auto'' ''agent'' (EnabledPayload False)) \<and>
     handleAdminSendCommand env [] st = (Inr reply, out, st') \<and> out = [(4, FCommand b)] \<and>
     reply = CommandReply 9 ''sent'' True \<and>
     snd (Command.HandleMessage (sample_cmd_env\<lparr>j_envelope := \<lambda>_. Some \<lparr>en_DeviceID = ''d'', en_Name = ''backup_auto'', en_Kind = ''agent'',
       en_Argument = [1]\<rparr>, j_auto := \<lambda>_. Some (Some False)\<rparr>) b sample_agent) = sample_agent"
proof -
  let ?m = "\<lparr>fm_DeviceID = ''d'', fm_State = StateFilling, fm_List = 1, fm_Inputs = [\<lparr>ti_Value = ''false'', ti_Focused = False\<rparr>],
     fm_Focused = 1, fm_SelectedCmd = 1\<rparr>"
  let ?env = "sample_ctl_env\<lparr>un_command := \<lambda>_. Some \<lparr>ac_DeviceID = ''d'', ac_Command = ''backup_auto'', ac_Kind = ''agent'', ac_Payload = ''x''\<rparr>\<rparr>"
  let ?st = "sample_ctl\<lparr>byID := [''d'' \<mapsto> \<lparr>fd = 4\<rparr>]\<rparr>"
  let ?cenv = "sample_cmd_env\<lparr>j_envelope := \<lambda>_. Some \<lparr>en_DeviceID = ''d'', en_Name = ''backup_auto'', en_Kind = ''agent'',
       en_Argument = [1]\<rparr>, j_auto := \<lambda>_. Some (Some False)\<rparr>"
  have form: "submitCommand ?m = SendCmd ''admin_send_command'' (CommandRequest ''d'' ''backup_auto'' ''agent'' (EnabledPayload False))"
    by (simp add: submitCommand_def availableCommands_def buildPayload_def Let_def)
  let ?b = "to_bytes ''backup_auto''"
  have "Controller.Send (\<lambda>_. True) ''d'' ?b (?st\<lparr>cmd_rows := rows\<rparr>) = Some (4, FCommand ?b)" for rows
    by (simp add: Controller.Send_def sample_ctl_def SendToDevice_def protocol_send_to_device_def registry_get_def SendCommand_def IsOpen_def INVALID_SOCKET_def send_via_def
        protocol_send_command_def protocol_send_frame_def PROTOCOL_MAX_PAYLOAD_def to_bytes_def Let_def)
  then have "\<exists>st'. handleAdminSendCommand ?env [] ?st = (Inr (CommandReply 9 ''sent'' True), [(4, FCommand ?b)], st')"
    by (simp add: handleAdminSendCommand_def CreateCommand_def memory_gorm_def IsOnline_def sample_ctl_def sample_ctl_env_def IsOpen_def
        INVALID_SOCKET_def Let_def)
  then obtain st' where run: "handleAdminSendCommand ?env [] ?st = (Inr (CommandReply 9 ''sent'' True), [(4, FCommand ?b)], st')" by blast
  obtain r ag' where agent: "Command.HandleMessage ?cenv ?b sample_agent = (r, ag')" by fastforce
  have "CommandReply 9 ''sent'' True = CommandReply (next_id ?env) ''sent'' True \<and> ag' = sample_agent \<and> r \<noteq> Panics"
    by (rule console_commands_are_ignored [OF form _ run _ _ agent]) auto
  then have "ag' = sample_agent" by blast
  then show ?thesis using form run agent by (metis snd_conv)
qed

end
